(* ===== verification/Prelude.thy ===== *)
theory Prelude
  imports Main "HOL-Library.AList"
begin

text \<open>
  What every theory of the development shares: the fact collections
  (\<^theory_text>\<open>wf_intros\<close> for facts of the form "the operation keeps a well-formedness
  predicate", \<^theory_text>\<open>map_simps\<close> for looking keys up in association lists), the key-value
  lists that stand for the maps of the Go code, and a few generic lemmas about lists and
  the error sum.

  A Go map is modelled by the list of its entries in iteration order. Go does not fix that
  order, so a statement about all lists is a statement about all iteration orders; a
  statement that needs a map to behave as a map assumes \<open>distinct (map fst m)\<close>.
\<close>

named_theorems wf_intros
named_theorems map_simps

subsection \<open>Results\<close>

type_synonym ('e, 'a) result = "'e + 'a"

definition bind_res :: "('e, 'a) result \<Rightarrow> ('a \<Rightarrow> ('e, 'b) result) \<Rightarrow> ('e, 'b) result" where
  "bind_res r f = (case r of Inl e \<Rightarrow> Inl e | Inr a \<Rightarrow> f a)"

lemma bind_res_simps [simp]:
  "bind_res (Inl e) f = Inl e"
  "bind_res (Inr a) f = f a"
  by (simp_all add: bind_res_def)

lemma bind_res_eq_Inr: "bind_res r f = Inr b \<longleftrightarrow> (\<exists>a. r = Inr a \<and> f a = Inr b)"
  by (cases r) simp_all

lemma bind_res_eq_Inl: "bind_res r f = Inl e \<longleftrightarrow> r = Inl e \<or> (\<exists>a. r = Inr a \<and> f a = Inl e)"
  by (cases r) simp_all

lemma bind_res_assoc: "bind_res (bind_res r f) g = bind_res r (\<lambda>a. bind_res (f a) g)"
  by (cases r) simp_all

subsection \<open>Key-value lists\<close>

text \<open>\<open>m[k] = v\<close> of the code.\<close>

abbreviation put :: "'k \<Rightarrow> 'v \<Rightarrow> ('k \<times> 'v) list \<Rightarrow> ('k \<times> 'v) list" where
  "put \<equiv> AList.update"

text \<open>\<open>for k, v := range src { dst[k] = v }\<close>\<close>

fun merge_into :: "('k \<times> 'v) list \<Rightarrow> ('k \<times> 'v) list \<Rightarrow> ('k \<times> 'v) list" where
  "merge_into dst [] = dst"
| "merge_into dst ((k, v) # src) = merge_into (put k v dst) src"

lemma map_of_put [map_simps]: "map_of (put k v m) k' = (if k' = k then Some v else map_of m k')"
  by (simp add: AList.update_conv')

lemma distinct_put [wf_intros]: "distinct (map fst m) \<Longrightarrow> distinct (map fst (put k v m))"
  by (rule AList.distinct_update)

lemma distinct_merge_into [wf_intros]:
  "distinct (map fst dst) \<Longrightarrow> distinct (map fst (merge_into dst src))"
  by (induction dst src rule: merge_into.induct) (simp_all add: AList.distinct_update)

lemma keys_put: "fst ` set (put k v m) = insert k (fst ` set m)"
  by (simp add: AList.dom_update)

lemma keys_merge_into: "fst ` set (merge_into dst src) = fst ` set dst \<union> fst ` set src"
  by (induction dst src rule: merge_into.induct) (auto simp: keys_put)

lemma map_of_merge_into_notin [map_simps]:
  "k \<notin> fst ` set src \<Longrightarrow> map_of (merge_into dst src) k = map_of dst k"
  by (induction dst src rule: merge_into.induct) (auto simp: map_of_put)

lemma map_of_merge_into:
  "distinct (map fst src) \<Longrightarrow>
   map_of (merge_into dst src) k = (case map_of src k of Some v \<Rightarrow> Some v | None \<Rightarrow> map_of dst k)"
proof (induction dst src rule: merge_into.induct)
  case (1 dst)
  then show ?case by simp
next
  case (2 dst k' v src)
  then have d: "k' \<notin> fst ` set src" and "distinct (map fst src)" by auto
  then have "map_of src k' = None" by (simp add: map_of_eq_None_iff)
  with "2.IH" \<open>distinct (map fst src)\<close> show ?case
    by (simp add: map_of_put split: option.splits)
qed

lemma map_of_eq_None: "map_of m k = None \<longleftrightarrow> k \<notin> fst ` set m"
  by (rule map_of_eq_None_iff)

subsection \<open>Lists\<close>

text \<open>Remove the first element satisfying a predicate:
  \<open>for i, x := range xs { if p(x) { xs = append(xs[:i], xs[i+1:]...); break } }\<close>.\<close>

fun remove_first :: "('a \<Rightarrow> bool) \<Rightarrow> 'a list \<Rightarrow> 'a list" where
  "remove_first p [] = []"
| "remove_first p (x # xs) = (if p x then xs else x # remove_first p xs)"

lemma remove_first_none: "\<not> list_ex p xs \<Longrightarrow> remove_first p xs = xs"
  by (induction xs) auto

lemma set_remove_first_subset: "set (remove_first p xs) \<subseteq> set xs"
  by (induction xs) auto

lemma length_remove_first:
  "length (remove_first p xs) = (if list_ex p xs then length xs - 1 else length xs)"
  by (induction xs) (auto simp: Suc_diff_Suc list_ex_iff dest: length_pos_if_in_set)

lemma remove_first_distinct_filter:
  "distinct (map f xs) \<Longrightarrow> remove_first (\<lambda>x. f x = a) xs = filter (\<lambda>x. f x \<noteq> a) xs"
proof (induction xs)
  case Nil
  then show ?case by simp
next
  case (Cons x xs)
  then have "a = f x \<Longrightarrow> filter (\<lambda>x. f x \<noteq> a) xs = xs"
    by (auto simp: filter_id_conv) (metis imageI)
  with Cons show ?case by auto
qed

lemma distinct_map_remove_first: "distinct (map f xs) \<Longrightarrow> distinct (map f (remove_first p xs))"
proof (induction xs)
  case Nil
  then show ?case by simp
next
  case (Cons x xs)
  then show ?case
    using set_remove_first_subset [of p xs] by auto
qed

lemma list_ex_image: "list_ex (\<lambda>x. f x = n) xs \<longleftrightarrow> n \<in> f ` set xs"
  by (auto simp: list_ex_iff)

lemma filter_ConsD: "filter p xs = y # ys \<Longrightarrow> y \<in> set xs \<and> p y"
  by (auto dest!: filter_eq_ConsD)

text \<open>Folding a fallible step over a list, stopping at the first error.\<close>

fun fold_res :: "('s \<Rightarrow> 'x \<Rightarrow> ('e, 's) result) \<Rightarrow> 's \<Rightarrow> 'x list \<Rightarrow> ('e, 's) result" where
  "fold_res f s [] = Inr s"
| "fold_res f s (x # xs) = bind_res (f s x) (\<lambda>s'. fold_res f s' xs)"

lemma fold_res_append:
  "fold_res f s (xs @ ys) = bind_res (fold_res f s xs) (\<lambda>s'. fold_res f s' ys)"
  by (induction xs arbitrary: s) (simp_all add: bind_res_assoc)

lemma fold_res_invariant:
  assumes step: "\<And>s x s'. x \<in> set xs \<Longrightarrow> I s \<Longrightarrow> f s x = Inr s' \<Longrightarrow> I s'"
    and "I s" and "fold_res f s xs = Inr t"
  shows "I t"
  using assms
proof (induction xs arbitrary: s)
  case Nil
  then show ?case by simp
next
  case (Cons x xs)
  from Cons.prems(3) obtain s' where s': "f s x = Inr s'" "fold_res f s' xs = Inr t"
    by (auto simp: bind_res_eq_Inr)
  with Cons.prems(1,2) have "I s'" by auto
  with Cons.IH s' Cons.prems(1) show ?case by (metis list.set_intros(2))
qed

subsection \<open>Computations that publish\<close>

text \<open>
  A handler of the program publishes messages as it goes and may fail at any point; what it
  published before failing stays published. Its model is the list of what it published
  together with its result.
\<close>

type_synonym ('o, 'a) eff = "'o list \<times> (string, 'a) result"

definition ret :: "'a \<Rightarrow> ('o, 'a) eff" where
  "ret a = ([], Inr a)"

definition throw :: "string \<Rightarrow> ('o, 'a) eff" where
  "throw e = ([], Inl e)"

definition bind_eff :: "('o, 'a) eff \<Rightarrow> ('a \<Rightarrow> ('o, 'b) eff) \<Rightarrow> ('o, 'b) eff" where
  "bind_eff x f =
     (case snd x of Inl e \<Rightarrow> (fst x, Inl e) | Inr a \<Rightarrow> (fst x @ fst (f a), snd (f a)))"

text \<open>Run a computation and wrap its error: \<open>return fmt.Errorf("context: %w", err)\<close>.\<close>

definition wrap_eff :: "string \<Rightarrow> ('o, 'a) eff \<Rightarrow> ('o, 'a) eff" where
  "wrap_eff ctx x = (fst x, case snd x of Inl e \<Rightarrow> Inl (ctx @ '': '' @ e) | Inr a \<Rightarrow> Inr a)"

definition lift_res :: "(string, 'a) result \<Rightarrow> ('o, 'a) eff" where
  "lift_res r = ([], r)"

lemma fst_ret [simp]: "fst (ret a) = []" and snd_ret [simp]: "snd (ret a) = Inr a"
  by (simp_all add: ret_def)

lemma fst_throw [simp]: "fst (throw e) = []" and snd_throw [simp]: "snd (throw e) = Inl e"
  by (simp_all add: throw_def)

lemma fst_lift_res [simp]: "fst (lift_res r) = []" and snd_lift_res [simp]: "snd (lift_res r) = r"
  by (simp_all add: lift_res_def)

lemma fst_wrap_eff [simp]: "fst (wrap_eff ctx x) = fst x"
  by (simp add: wrap_eff_def)

lemma bind_eff_simps [simp]:
  "bind_eff (ret a) f = f a"
  "bind_eff (throw e) f = throw e"
  "bind_eff (lift_res (Inr a)) f = f a"
  "bind_eff (lift_res (Inl e)) f = throw e"
  by (simp_all add: bind_eff_def ret_def throw_def lift_res_def)

lemma wrap_eff_simps [simp]:
  "wrap_eff ctx (ret a) = ret a"
  "wrap_eff ctx (throw e) = throw (ctx @ '': '' @ e)"
  by (simp_all add: wrap_eff_def ret_def throw_def)

lemma wrap_eff_pair [simp]: "wrap_eff ctx (xs, Inr a) = (xs, Inr a)"
  by (simp add: wrap_eff_def)

lemma bind_eff_pair [simp]: "bind_eff (xs, Inr a) f = (xs @ fst (f a), snd (f a))"
  by (simp add: bind_eff_def)

lemma snd_wrap_eff_Inr: "snd (wrap_eff ctx x) = Inr a \<longleftrightarrow> snd x = Inr a"
  by (simp add: wrap_eff_def split: sum.splits)

lemma snd_bind_eff_Inr:
  "snd (bind_eff x f) = Inr b \<longleftrightarrow> (\<exists>a. snd x = Inr a \<and> snd (f a) = Inr b)"
  by (simp add: bind_eff_def split: sum.splits)

lemma fst_bind_eff_Inr: "snd x = Inr a \<Longrightarrow> fst (bind_eff x f) = fst x @ fst (f a)"
  by (simp add: bind_eff_def)

fun fold_eff :: "('s \<Rightarrow> 'x \<Rightarrow> ('o, 's) eff) \<Rightarrow> 's \<Rightarrow> 'x list \<Rightarrow> ('o, 's) eff" where
  "fold_eff f s [] = ret s"
| "fold_eff f s (x # xs) = bind_eff (f s x) (\<lambda>s'. fold_eff f s' xs)"

lemma snd_fold_eff: "snd (fold_eff f s xs) = fold_res (\<lambda>s x. snd (f s x)) s xs"
proof (induction xs arbitrary: s)
  case Nil
  show ?case by simp
next
  case (Cons x xs)
  then show ?case by (cases "snd (f s x)") (simp_all add: bind_eff_def)
qed

lemma fold_eff_silent:
  assumes "\<And>s x. x \<in> set xs \<Longrightarrow> fst (f s x) = []"
  shows "fst (fold_eff f s xs) = []"
  using assms
proof (induction xs arbitrary: s)
  case Nil
  show ?case by simp
next
  case (Cons x xs)
  then show ?case by (cases "snd (f s x)") (simp_all add: bind_eff_def)
qed

text \<open>Publishing one message; the oracle gives the error of the attempt, if any.\<close>

definition send :: "('o \<Rightarrow> string option) \<Rightarrow> 'o \<Rightarrow> ('o, unit) eff" where
  "send pub e = (case pub e of None \<Rightarrow> ([e], Inr ()) | Some err \<Rightarrow> ([], Inl err))"

lemma send_ok [simp]: "pub e = None \<Longrightarrow> send pub e = ([e], Inr ())"
  by (simp add: send_def)

lemma send_fail [simp]: "pub e = Some err \<Longrightarrow> send pub e = throw err"
  by (simp add: send_def throw_def)

lemma fst_send_subset: "set (fst (send pub e)) \<subseteq> {e}"
  by (simp add: send_def split: option.splits)

lemma bind_send_ok: "pub e = None \<Longrightarrow> bind_eff (send pub e) f = (e # fst (f ()), snd (f ()))"
  by (simp add: bind_eff_def)

lemma wrap_send_ok [simp]: "pub e = None \<Longrightarrow> wrap_eff ctx (send pub e) = ([e], Inr ())"
  by (simp add: wrap_eff_def)

text \<open>The same computation with its messages embedded in a larger type.\<close>

definition map_out :: "('o \<Rightarrow> 'p) \<Rightarrow> ('o, 'a) eff \<Rightarrow> ('p, 'a) eff" where
  "map_out f x = (map f (fst x), snd x)"

lemma map_out_simps [simp]:
  "fst (map_out f x) = map f (fst x)" "snd (map_out f x) = snd x"
  "map_out f (ret a) = ret a" "map_out f (throw e) = throw e"
  by (simp_all add: map_out_def ret_def throw_def)

lemma bind_eff_assoc: "bind_eff (bind_eff x f) g = bind_eff x (\<lambda>a. bind_eff (f a) g)"
  by (simp add: bind_eff_def split: sum.splits)

lemma bind_eff_ret [simp]: "bind_eff x ret = x"
  by (cases x) (simp add: bind_eff_def ret_def split: sum.splits)

lemma fold_eff_append:
  "fold_eff f s (xs @ ys) = bind_eff (fold_eff f s xs) (\<lambda>s'. fold_eff f s' ys)"
  by (induction xs arbitrary: s) (simp_all add: bind_eff_assoc)

text \<open>The Redis commands that fail, by name.\<close>

type_synonym faults = "string \<Rightarrow> bool"

definition no_faults :: faults where "no_faults = (\<lambda>_. False)"

lemma no_faults_simps [simp]: "\<not> no_faults c"
  by (simp add: no_faults_def)

end
