(* ===== verification/Go_Values.thy ===== *)
theory Go_Values
  imports Go_Strings Complex_Main "HOL-Library.Log_Nat"
begin

text \<open>
  The dynamic values of the program. The Go code passes workflow data around as
  \<^verbatim>\<open>interface{}\<close>: nil, booleans, numbers, strings, slices and string-keyed maps, the values
  that \<^verbatim>\<open>encoding/json\<close> and protobuf's \<^verbatim>\<open>structpb\<close> produce and accept. The datatype keeps
  a Go \<^verbatim>\<open>int\<close> (built in the process) apart from a \<^verbatim>\<open>float64\<close> (what decoding gives), since
  type assertions of the code tell them apart, and has a constructor for a Go function
  value, which no codec accepts.

  A finite \<^verbatim>\<open>float64\<close> is the rational number it denotes; \<open>f64_round\<close> is rounding to
  nearest, ties to even, with 53 bits of precision.
\<close>

datatype gval =
    GNil
  | GBool bool
  | GFloat rat
  | GInt int
  | GStr string
  | GList "gval list"
  | GMap "(string \<times> gval) list"
  | GFunc

type_synonym gmap = "(string \<times> gval) list"

subsection \<open>Type assertions\<close>

fun as_str :: "gval \<Rightarrow> string option" where
  "as_str (GStr s) = Some s"
| "as_str _ = None"

fun as_bool :: "gval \<Rightarrow> bool option" where
  "as_bool (GBool b) = Some b"
| "as_bool _ = None"

fun as_float :: "gval \<Rightarrow> rat option" where
  "as_float (GFloat r) = Some r"
| "as_float _ = None"

fun as_int :: "gval \<Rightarrow> int option" where
  "as_int (GInt i) = Some i"
| "as_int _ = None"

fun as_map :: "gval \<Rightarrow> gmap option" where
  "as_map (GMap m) = Some m"
| "as_map _ = None"

fun as_list :: "gval \<Rightarrow> gval list option" where
  "as_list (GList xs) = Some xs"
| "as_list _ = None"

text \<open>\<open>v, ok := m[key].(T)\<close>: a missing key reads as nil, which has no type.\<close>

definition get_str :: "gmap \<Rightarrow> string \<Rightarrow> string option" where
  "get_str m k = Option.bind (map_of m k) as_str"

definition get_bool :: "gmap \<Rightarrow> string \<Rightarrow> bool option" where
  "get_bool m k = Option.bind (map_of m k) as_bool"

definition get_float :: "gmap \<Rightarrow> string \<Rightarrow> rat option" where
  "get_float m k = Option.bind (map_of m k) as_float"

definition get_int :: "gmap \<Rightarrow> string \<Rightarrow> int option" where
  "get_int m k = Option.bind (map_of m k) as_int"

definition get_map :: "gmap \<Rightarrow> string \<Rightarrow> gmap option" where
  "get_map m k = Option.bind (map_of m k) as_map"

definition get_list :: "gmap \<Rightarrow> string \<Rightarrow> gval list option" where
  "get_list m k = Option.bind (map_of m k) as_list"

text \<open>\<open>m[key]\<close> used as an \<^verbatim>\<open>interface{}\<close>: a missing key reads as nil.\<close>

definition get_any :: "gmap \<Rightarrow> string \<Rightarrow> gval" where
  "get_any m k = (case map_of m k of None \<Rightarrow> GNil | Some v \<Rightarrow> v)"

lemmas get_defs = get_str_def get_bool_def get_float_def get_int_def get_map_def get_list_def
  get_any_def

lemma get_put_same [map_simps]:
  "get_str (put k v m) k = as_str v" "get_bool (put k v m) k = as_bool v"
  "get_float (put k v m) k = as_float v" "get_int (put k v m) k = as_int v"
  "get_map (put k v m) k = as_map v" "get_list (put k v m) k = as_list v"
  by (simp_all add: get_defs map_of_put)

lemma get_put_other [map_simps]:
  "k \<noteq> k' \<Longrightarrow> get_str (put k v m) k' = get_str m k'"
  "k \<noteq> k' \<Longrightarrow> get_bool (put k v m) k' = get_bool m k'"
  "k \<noteq> k' \<Longrightarrow> get_float (put k v m) k' = get_float m k'"
  "k \<noteq> k' \<Longrightarrow> get_int (put k v m) k' = get_int m k'"
  "k \<noteq> k' \<Longrightarrow> get_map (put k v m) k' = get_map m k'"
  "k \<noteq> k' \<Longrightarrow> get_list (put k v m) k' = get_list m k'"
  by (simp_all add: get_defs map_of_put)

subsection \<open>float64\<close>

definition pow2 :: "int \<Rightarrow> rat" where
  "pow2 e = (if 0 \<le> e then 2 ^ nat e else 1 / 2 ^ nat (- e))"

text \<open>Nearest integer, ties to even.\<close>

definition round_even :: "rat \<Rightarrow> int" where
  "round_even x =
     (let f = \<lfloor>x\<rfloor>; d = x - of_int f
      in if d < 1 / 2 then f else if 1 / 2 < d then f + 1 else if even f then f else f + 1)"

text \<open>The exponent \<open>e\<close> for which \<open>2 ^ 52 \<le> \<bar>x\<bar> / 2 ^ e < 2 ^ 53\<close>.\<close>

definition f64_exp :: "rat \<Rightarrow> int" where
  "f64_exp x =
     (let p = fst (quotient_of \<bar>x\<bar>); q = snd (quotient_of \<bar>x\<bar>); e = bitlen p - bitlen q - 53
      in if \<bar>x\<bar> < pow2 (e + 53) then e else e + 1)"

definition f64_round :: "rat \<Rightarrow> rat" where
  "f64_round x =
     (if x = 0 then 0
      else let e = max (- 1074) (f64_exp x) in of_int (round_even (x / pow2 e)) * pow2 e)"

text \<open>\<open>float64(n)\<close> for an integer, and \<open>int64(f)\<close> for a float: truncation, and the
  smallest integer where the value does not fit (as the amd64 conversion does).\<close>

definition f64_of_int :: "int \<Rightarrow> rat" where
  "f64_of_int n = f64_round (of_int n)"

definition trunc_rat :: "rat \<Rightarrow> int" where
  "trunc_rat r = (if r < 0 then - \<lfloor>- r\<rfloor> else \<lfloor>r\<rfloor>)"

definition int64_of_f64 :: "rat \<Rightarrow> int" where
  "int64_of_f64 r =
     (let n = trunc_rat r in if - (2 ^ 63) \<le> n \<and> n < 2 ^ 63 then n else - (2 ^ 63))"

lemma pow2_pos [simp]: "0 < pow2 e"
  by (simp add: pow2_def)

lemma abs_pow2 [simp]: "\<bar>pow2 e\<bar> = pow2 e"
  by (simp add: abs_of_pos)

lemma pow2_nonzero [simp]: "pow2 e \<noteq> 0"
  using pow2_pos [of e] by linarith

lemma pow2_add: "pow2 (a + b) = pow2 a * pow2 b"
proof -
  have p: "pow2 x = 2 powi x" for x
    by (simp add: pow2_def power_int_def inverse_eq_divide power_one_over)
  show ?thesis unfolding p by (simp add: power_int_add)
qed

lemma pow2_of_nat: "0 \<le> e \<Longrightarrow> pow2 e = of_int (2 ^ nat e)"
  by (simp add: pow2_def)

lemma round_even_int [simp]: "round_even (of_int n) = n"
  by (simp add: round_even_def)

lemma round_even_mono: "x \<le> y \<Longrightarrow> round_even x \<le> round_even y"
proof -
  assume "x \<le> y"
  then have "\<lfloor>x\<rfloor> \<le> \<lfloor>y\<rfloor>" by (rule floor_mono)
  then consider "\<lfloor>x\<rfloor> = \<lfloor>y\<rfloor>" | "\<lfloor>x\<rfloor> + 1 \<le> \<lfloor>y\<rfloor>" by linarith
  then show ?thesis
  proof cases
    case 1
    with \<open>x \<le> y\<close> show ?thesis by (auto simp: round_even_def Let_def)
  next
    case 2
    then show ?thesis by (auto simp: round_even_def Let_def)
  qed
qed

lemma pow2_strict_mono: "a < b \<Longrightarrow> pow2 a < pow2 b"
proof -
  assume "a < b"
  then have "1 < pow2 (b - a)" by (simp add: pow2_def)
  then have "pow2 a * 1 < pow2 a * pow2 (b - a)" by simp
  then show ?thesis by (simp flip: pow2_add)
qed

lemma pow2_less_iff [simp]: "pow2 a < pow2 b \<longleftrightarrow> a < b"
  using pow2_strict_mono [of a b] pow2_strict_mono [of b a] by (cases a b rule: linorder_cases) auto

lemma pow2_le_iff [simp]: "pow2 a \<le> pow2 b \<longleftrightarrow> a \<le> b"
  using pow2_less_iff [of b a] by (simp add: linorder_not_less [symmetric])

lemma bitlen_pow2_bounds:
  assumes "0 < n"
  shows "pow2 (bitlen n - 1) \<le> of_int n" and "of_int n < pow2 (bitlen n)"
proof -
  have b: "0 \<le> bitlen n - 1"
    using assms bitlen_nonneg [of n] bitlen_eq_zero_iff [of n] by linarith
  have "2 ^ nat (bitlen n - 1) \<le> n" "n < 2 ^ nat (bitlen n)"
    using bitlen_bounds [OF assms] by auto
  then have "of_int (2 ^ nat (bitlen n - 1)) \<le> (of_int n :: rat)"
    and "(of_int n :: rat) < of_int (2 ^ nat (bitlen n))"
    by (simp_all only: of_int_le_iff of_int_less_iff)
  with b show "pow2 (bitlen n - 1) \<le> of_int n" and "of_int n < pow2 (bitlen n)"
    by (simp_all add: pow2_of_nat)
qed

lemma f64_exp_bounds:
  assumes "x \<noteq> 0"
  shows "pow2 (f64_exp x + 52) \<le> \<bar>x\<bar>" and "\<bar>x\<bar> < pow2 (f64_exp x + 53)"
proof -
  obtain p q where pq: "quotient_of \<bar>x\<bar> = (p, q)" by fastforce
  then have q: "0 < q" and x: "\<bar>x\<bar> = of_int p / of_int q"
    by (auto simp: quotient_of_denom_pos quotient_of_div)
  from x q assms have p: "0 < p"
    by (metis abs_ge_zero abs_le_zero_iff divide_le_0_iff linorder_not_less of_int_0_less_iff
        of_int_le_0_iff order_less_imp_le)
  define e where "e = bitlen p - bitlen q - 53"
  have exp: "f64_exp x = (if \<bar>x\<bar> < pow2 (e + 53) then e else e + 1)"
    by (simp add: f64_exp_def pq e_def Let_def)
  have lo: "pow2 (e + 52) \<le> \<bar>x\<bar>"
  proof -
    have "pow2 (e + 52) * of_int q \<le> pow2 (e + 52) * pow2 (bitlen q)"
      using bitlen_pow2_bounds(2) [OF q] by (simp add: less_imp_le)
    also have "\<dots> = pow2 (bitlen p - 1)" by (simp add: e_def flip: pow2_add)
    also have "\<dots> \<le> of_int p" by (rule bitlen_pow2_bounds(1) [OF p])
    finally show ?thesis using q by (simp add: x field_simps)
  qed
  have hi: "\<bar>x\<bar> < pow2 (e + 54)"
  proof -
    have "of_int p < pow2 (bitlen p)" by (rule bitlen_pow2_bounds(2) [OF p])
    also have "\<dots> = pow2 (e + 54) * pow2 (bitlen q - 1)" by (simp add: e_def flip: pow2_add)
    also have "\<dots> \<le> pow2 (e + 54) * of_int q"
      using bitlen_pow2_bounds(1) [OF q] by simp
    finally show ?thesis using q by (simp add: x field_simps)
  qed
  show "pow2 (f64_exp x + 52) \<le> \<bar>x\<bar>" and "\<bar>x\<bar> < pow2 (f64_exp x + 53)"
    using lo hi by (auto simp: exp add.commute add.left_commute)
qed

text \<open>A value with at most 53 significant bits is represented exactly.\<close>

lemma f64_round_exact:
  assumes m: "\<bar>m\<bar> \<le> 2 ^ 53" and e': "- 1074 \<le> e'"
  shows "f64_round (of_int m * pow2 e') = of_int m * pow2 e'" (is "f64_round ?x = ?x")
proof (cases "m = 0")
  case True
  then show ?thesis by (simp add: f64_round_def)
next
  case False
  then have x0: "?x \<noteq> 0" by simp
  define e where "e = max (- 1074) (f64_exp ?x)"
  have "\<exists>n. ?x / pow2 e = of_int n"
  proof (cases "e \<le> e'")
    case True
    then have "pow2 e' = pow2 (e' - e) * pow2 e" by (simp flip: pow2_add)
    then have "?x / pow2 e = of_int (m * 2 ^ nat (e' - e))" using True by (simp add: pow2_of_nat)
    then show ?thesis ..
  next
    case ne: False
    with e' have e: "e = f64_exp ?x" by (simp add: e_def)
    have ax: "\<bar>?x\<bar> = of_int \<bar>m\<bar> * pow2 e'" by (simp add: abs_mult)
    have lo: "pow2 (e + 52) \<le> \<bar>?x\<bar>" using f64_exp_bounds(1) [OF x0] by (simp add: e)
    have "of_int \<bar>m\<bar> \<le> (of_int (2 ^ 53) :: rat)" using m by (simp only: of_int_le_iff)
    then have "of_int \<bar>m\<bar> \<le> pow2 53" by (simp add: pow2_of_nat)
    then have hi: "\<bar>?x\<bar> \<le> pow2 (53 + e')" by (simp add: ax pow2_add)
    with lo have "pow2 (e + 52) \<le> pow2 (53 + e')" by linarith
    with ne have ee: "e = e' + 1" by simp
    with lo have "pow2 53 * pow2 e' \<le> of_int \<bar>m\<bar> * pow2 e'"
      by (simp add: ax flip: pow2_add)
    then have "pow2 53 \<le> of_int \<bar>m\<bar>" by simp
    then have "of_int (2 ^ 53) \<le> (of_int \<bar>m\<bar> :: rat)" by (simp add: pow2_of_nat)
    then have "2 ^ 53 \<le> \<bar>m\<bar>" by (simp only: of_int_le_iff)
    with m have "\<bar>m\<bar> = 2 * 2 ^ 52" by simp
    then have "m = 2 * 2 ^ 52 \<or> m = 2 * - (2 ^ 52)" by (auto simp: abs_if split: if_splits)
    then obtain k where k: "m = 2 * k" by blast
    have "pow2 (e' + 1) = 2 * pow2 e'" by (simp add: pow2_add) (simp add: pow2_def)
    with k ee have "?x / pow2 e = of_int k" by simp
    then show ?thesis ..
  qed
  then obtain n where "?x / pow2 e = of_int n" ..
  with x0 show ?thesis
    unfolding f64_round_def Let_def e_def [symmetric]
    by (metis nonzero_eq_divide_eq pow2_nonzero round_even_int)
qed

lemma f64_of_int_exact: "\<bar>n\<bar> \<le> 2 ^ 53 \<Longrightarrow> f64_of_int n = of_int n"
  using f64_round_exact [of n 0] by (simp add: f64_of_int_def pow2_def)

lemma trunc_rat_of_int [simp]: "trunc_rat (of_int n) = n"
  by (simp add: trunc_rat_def)

lemma int64_of_f64_of_int:
  "- (2 ^ 63) \<le> n \<Longrightarrow> n < 2 ^ 63 \<Longrightarrow> int64_of_f64 (of_int n) = n"
  by (simp add: int64_of_f64_def)

lemma int64_of_f64_range: "- (2 ^ 63) \<le> int64_of_f64 r \<and> int64_of_f64 r < 2 ^ 63"
  by (simp add: int64_of_f64_def Let_def)

text \<open>Rounding is monotonic against a representable value.\<close>

lemma f64_round_scaled:
  "0 < x \<Longrightarrow> f64_round x =
     of_int (round_even (x / pow2 (max (- 1074) (f64_exp x)))) * pow2 (max (- 1074) (f64_exp x))"
  by (simp add: f64_round_def Let_def)

lemma scaled_int:
  "e \<le> e' \<Longrightarrow> \<exists>n. of_int m * pow2 e' / pow2 e = of_int n"
proof -
  assume "e \<le> e'"
  then have "pow2 e' = pow2 (e' - e) * pow2 e" by (simp flip: pow2_add)
  then have "of_int m * pow2 e' / pow2 e = of_int (m * 2 ^ nat (e' - e))"
    using \<open>e \<le> e'\<close> by (simp add: pow2_of_nat)
  then show ?thesis ..
qed

lemma mantissa_le: "\<bar>m\<bar> \<le> 2 ^ 53 \<Longrightarrow> of_int m * pow2 e' \<le> pow2 (53 + e')"
proof -
  assume "\<bar>m\<bar> \<le> 2 ^ 53"
  then have "m \<le> 2 ^ 53" by linarith
  then have "of_int m \<le> (of_int (2 ^ 53) :: rat)" by (simp only: of_int_le_iff)
  then have "of_int m \<le> pow2 53" by (simp add: pow2_of_nat)
  then show ?thesis by (simp add: pow2_add)
qed

lemma f64_round_ge:
  assumes m: "\<bar>m\<bar> \<le> 2 ^ 53" "- 1074 \<le> e'" and s: "0 < s" "s = of_int m * pow2 e'" "s \<le> x"
  shows "s \<le> f64_round x"
proof -
  define e where "e = max (- 1074) (f64_exp x)"
  have x: "0 < x" using s by linarith
  have r: "f64_round x = of_int (round_even (x / pow2 e)) * pow2 e"
    using f64_round_scaled [OF x] by (simp add: e_def)
  have ge: "t \<le> f64_round x" if "t / pow2 e = of_int n" "t \<le> x" for t n
  proof -
    have "of_int n \<le> x / pow2 e" using that by (metis divide_right_mono less_imp_le pow2_pos)
    then have "n \<le> round_even (x / pow2 e)" using round_even_mono [of "of_int n" "x / pow2 e"] by simp
    then have "of_int n * pow2 e \<le> f64_round x" by (simp add: r)
    moreover have "t = of_int n * pow2 e" using that(1) by (simp add: nonzero_divide_eq_eq)
    ultimately show ?thesis by simp
  qed
  show ?thesis
  proof (cases "e \<le> e'")
    case True
    then show ?thesis using scaled_int [OF True, of m] ge s by blast
  next
    case False
    with m(2) have e: "e = f64_exp x" by (simp add: e_def)
    have "pow2 (e + 52) \<le> x" using f64_exp_bounds(1) [of x] x by (simp add: e)
    moreover have "pow2 (e + 52) / pow2 e = of_int (2 ^ 52)" by (simp add: pow2_add) (simp add: pow2_def)
    ultimately have "pow2 (e + 52) \<le> f64_round x" using ge by blast
    moreover have "s \<le> pow2 (53 + e')" using mantissa_le [OF m(1)] s(2) by simp
    moreover have "pow2 (53 + e') \<le> pow2 (e + 52)" using False by simp
    ultimately show ?thesis by linarith
  qed
qed

lemma f64_round_le:
  assumes m: "\<bar>m\<bar> \<le> 2 ^ 53" "- 1074 \<le> e'" and s: "s = of_int m * pow2 e'" "0 < x" "x \<le> s"
  shows "f64_round x \<le> s"
proof -
  define e where "e = max (- 1074) (f64_exp x)"
  have r: "f64_round x = of_int (round_even (x / pow2 e)) * pow2 e"
    using f64_round_scaled [OF s(2)] by (simp add: e_def)
  have "\<exists>n. s / pow2 e = of_int n"
  proof (cases "e \<le> e'")
    case True
    then show ?thesis using scaled_int [OF True, of m] s(1) by simp
  next
    case False
    with m(2) have e: "e = f64_exp x" by (simp add: e_def)
    have "pow2 (e + 52) \<le> x" using f64_exp_bounds(1) [of x] s(2) by (simp add: e)
    moreover have "s \<le> pow2 (53 + e')" using mantissa_le [OF m(1)] s(1) by simp
    moreover have "pow2 (53 + e') \<le> pow2 (e + 52)" using False by simp
    ultimately have "s = pow2 (e + 52)" using s(3) by linarith
    then have "s / pow2 e = of_int (2 ^ 52)" by (simp add: pow2_add) (simp add: pow2_def)
    then show ?thesis ..
  qed
  then obtain n where n: "s / pow2 e = of_int n" ..
  have "x / pow2 e \<le> of_int n" using s(3) n by (metis divide_right_mono less_imp_le pow2_pos)
  then have "round_even (x / pow2 e) \<le> n" using round_even_mono [of "x / pow2 e" "of_int n"] by simp
  then have "f64_round x \<le> of_int n * pow2 e" by (simp add: r)
  moreover have "s = of_int n * pow2 e" using n by (simp add: nonzero_divide_eq_eq)
  ultimately show ?thesis by simp
qed

end
