(* ===== verification/Go_Wire.thy ===== *)
theory Go_Wire
  imports Go_Values
begin

text \<open>
  What a value becomes when it crosses a process boundary or enters a protobuf struct:
  \<^verbatim>\<open>json.Marshal\<close> followed by \<^verbatim>\<open>json.Unmarshal\<close> into an \<^verbatim>\<open>interface{}\<close>, and
  \<^verbatim>\<open>structpb.NewValue\<close> followed by \<^verbatim>\<open>AsInterface\<close>, agree on the values the program uses.
  Every number comes back as a \<^verbatim>\<open>float64\<close>, and a function value is refused. The wire
  form is a normal form: converting it again changes nothing.
\<close>

fun to_wire :: "gval \<Rightarrow> gval option"
  and wire_list :: "gval list \<Rightarrow> gval list option"
  and wire_map :: "gmap \<Rightarrow> gmap option" where
  "to_wire GNil = Some GNil"
| "to_wire (GBool b) = Some (GBool b)"
| "to_wire (GFloat r) = Some (GFloat r)"
| "to_wire (GInt i) = Some (GFloat (f64_of_int i))"
| "to_wire (GStr s) = Some (GStr s)"
| "to_wire (GList xs) = map_option GList (wire_list xs)"
| "to_wire (GMap m) = map_option GMap (wire_map m)"
| "to_wire GFunc = None"
| "wire_list [] = Some []"
| "wire_list (v # vs) =
     Option.bind (to_wire v) (\<lambda>w. map_option ((#) w) (wire_list vs))"
| "wire_map [] = Some []"
| "wire_map ((k, v) # m) =
     Option.bind (to_wire v) (\<lambda>w. map_option ((#) (k, w)) (wire_map m))"

text \<open>The values that are their own wire form.\<close>

fun is_wire :: "gval \<Rightarrow> bool"
  and is_wire_list :: "gval list \<Rightarrow> bool"
  and is_wire_map :: "gmap \<Rightarrow> bool" where
  "is_wire (GInt _) \<longleftrightarrow> False"
| "is_wire GFunc \<longleftrightarrow> False"
| "is_wire (GList xs) \<longleftrightarrow> is_wire_list xs"
| "is_wire (GMap m) \<longleftrightarrow> is_wire_map m"
| "is_wire GNil \<longleftrightarrow> True"
| "is_wire (GBool _) \<longleftrightarrow> True"
| "is_wire (GFloat _) \<longleftrightarrow> True"
| "is_wire (GStr _) \<longleftrightarrow> True"
| "is_wire_list [] \<longleftrightarrow> True"
| "is_wire_list (v # vs) \<longleftrightarrow> is_wire v \<and> is_wire_list vs"
| "is_wire_map [] \<longleftrightarrow> True"
| "is_wire_map ((k, v) # m) \<longleftrightarrow> is_wire v \<and> is_wire_map m"

lemma to_wire_is_wire:
  "to_wire v = Some w \<Longrightarrow> is_wire w"
  "wire_list vs = Some ws \<Longrightarrow> is_wire_list ws"
  "wire_map m = Some n \<Longrightarrow> is_wire_map n"
  by (induction v and vs and m arbitrary: w and ws and n
      rule: to_wire_wire_list_wire_map.induct)
    (auto split: Option.bind_splits)

lemma wire_fixed:
  "is_wire v \<Longrightarrow> to_wire v = Some v"
  "is_wire_list vs \<Longrightarrow> wire_list vs = Some vs"
  "is_wire_map m \<Longrightarrow> wire_map m = Some m"
  by (induction v and vs and m rule: is_wire_is_wire_list_is_wire_map.induct) auto

lemma to_wire_idem: "to_wire v = Some w \<Longrightarrow> to_wire w = Some w"
  by (blast intro: wire_fixed to_wire_is_wire)

lemma wire_map_idem: "wire_map m = Some n \<Longrightarrow> wire_map n = Some n"
  by (blast intro: wire_fixed to_wire_is_wire)

lemma map_of_wire_map:
  "wire_map m = Some n \<Longrightarrow> map_of n k = Option.bind (map_of m k) to_wire"
proof (induction m arbitrary: n)
  case Nil
  then show ?case by simp
next
  case (Cons p m)
  obtain k' v where p: "p = (k', v)" by force
  with Cons.prems obtain w n' where "to_wire v = Some w" "wire_map m = Some n'" "n = (k', w) # n'"
    by (auto split: Option.bind_splits)
  with Cons.IH [of n'] p show ?case by simp
qed

lemma keys_wire_map: "wire_map m = Some n \<Longrightarrow> map fst n = map fst m"
proof (induction m arbitrary: n)
  case Nil
  then show ?case by simp
next
  case (Cons p m)
  then show ?case by (cases p) (auto split: Option.bind_splits)
qed

lemma as_str_wire: "to_wire v = Some w \<Longrightarrow> as_str w = as_str v"
  by (cases v) auto

lemma as_bool_wire: "to_wire v = Some w \<Longrightarrow> as_bool w = as_bool v"
  by (cases v) auto

text \<open>A string or a boolean under a key survives the wire; a Go \<^verbatim>\<open>int\<close> never does.\<close>

lemma get_str_wire: "wire_map m = Some n \<Longrightarrow> get_str n k = get_str m k"
proof -
  assume w: "wire_map m = Some n"
  show ?thesis
  proof (cases "map_of m k")
    case None
    with w show ?thesis by (simp add: get_str_def map_of_wire_map)
  next
    case (Some v)
    show ?thesis
    proof (cases "to_wire v")
      case (Some w')
      with w \<open>map_of m k = Some v\<close> show ?thesis
        by (simp add: get_str_def map_of_wire_map as_str_wire)
    next
      case None
      with w \<open>map_of m k = Some v\<close> have "map_of n k = None" by (simp add: map_of_wire_map)
      then have "k \<notin> set (map fst m)"
        using keys_wire_map [OF w] by (metis list.set_map map_of_eq_None_iff)
      with \<open>map_of m k = Some v\<close> show ?thesis by (metis list.set_map map_of_eq_None_iff option.simps(3))
    qed
  qed
qed

lemma is_wire_map_get: "is_wire_map m \<Longrightarrow> map_of m k = Some v \<Longrightarrow> is_wire v"
  by (induction m) (auto split: if_splits)

lemma get_int_wire: "is_wire_map m \<Longrightarrow> get_int m k = None"
proof (cases "map_of m k")
  case None
  then show ?thesis by (simp add: get_int_def)
next
  case (Some v)
  assume "is_wire_map m"
  with Some have "is_wire v" by (blast intro: is_wire_map_get)
  with Some show ?thesis by (cases v) (auto simp: get_int_def)
qed

lemma get_map_is_wire: "is_wire_map m \<Longrightarrow> get_map m k = Some n \<Longrightarrow> is_wire_map n"
  by (cases "map_of m k") (auto simp: get_map_def dest!: is_wire_map_get elim!: as_map.elims)

lemma is_wire_map_put: "is_wire v \<Longrightarrow> is_wire_map m \<Longrightarrow> is_wire_map (put k v m)"
  by (induction m) auto

lemma is_wire_map_merge_into:
  "is_wire_map d \<Longrightarrow> is_wire_map s \<Longrightarrow> is_wire_map (merge_into d s)"
  by (induction d s rule: merge_into.induct) (simp_all add: is_wire_map_put)

subsection \<open>Deep equality\<close>

text \<open>
  \<^verbatim>\<open>reflect.DeepEqual\<close>: the dynamic types must agree (an \<^verbatim>\<open>int\<close> never equals a
  \<^verbatim>\<open>float64\<close>), maps are compared by their entries, function values are never equal.
\<close>

fun deep_equal :: "gval \<Rightarrow> gval \<Rightarrow> bool"
  and deq_list :: "gval list \<Rightarrow> gval list \<Rightarrow> bool"
  and deq_map :: "gmap \<Rightarrow> gmap \<Rightarrow> bool" where
  "deep_equal GNil w \<longleftrightarrow> w = GNil"
| "deep_equal (GBool a) w \<longleftrightarrow> w = GBool a"
| "deep_equal (GFloat a) w \<longleftrightarrow> w = GFloat a"
| "deep_equal (GInt a) w \<longleftrightarrow> w = GInt a"
| "deep_equal (GStr a) w \<longleftrightarrow> w = GStr a"
| "deep_equal (GList xs) w \<longleftrightarrow> (case w of GList ys \<Rightarrow> deq_list xs ys | _ \<Rightarrow> False)"
| "deep_equal (GMap m) w \<longleftrightarrow>
     (case w of GMap n \<Rightarrow> length m = length n \<and> deq_map m n | _ \<Rightarrow> False)"
| "deep_equal GFunc w \<longleftrightarrow> False"
| "deq_list [] ys \<longleftrightarrow> ys = []"
| "deq_list (x # xs) ys \<longleftrightarrow>
     (case ys of [] \<Rightarrow> False | y # ys' \<Rightarrow> deep_equal x y \<and> deq_list xs ys')"
| "deq_map [] n \<longleftrightarrow> True"
| "deq_map ((k, v) # m) n \<longleftrightarrow>
     (case map_of n k of None \<Rightarrow> False | Some w \<Rightarrow> deep_equal v w \<and> deq_map m n)"

lemma deep_equal_int_wire: "is_wire w \<Longrightarrow> \<not> deep_equal (GInt i) w"
  by (cases w) auto

end
