(* ===== verification/Go_Time.thy ===== *)
theory Go_Time
  imports Go_Wire
begin

text \<open>
  Go's \<^verbatim>\<open>time\<close> package as far as the program uses it. An instant is the number of
  nanoseconds since the Unix epoch, in UTC. The theory has the RFC 3339 format and its
  parser, with the calendar worked out, and \<^verbatim>\<open>ParseDuration\<close>. The laws the components
  rest on: formatting drops the fraction of a second and nothing else
  (\<open>parse_format_rfc3339\<close>), and the days and months found by the formatter are the ones
  the parser counts back (\<open>civil_days\<close>).
\<close>

type_synonym time = int

definition second :: int where "second = 1000000000"
definition millisecond :: int where "millisecond = 1000000"

text \<open>The zero value of \<^verbatim>\<open>time.Time\<close>: the first of January of year 1.\<close>

definition zero_time :: time where "zero_time = - 62135596800 * second"

lemma second_simps: "second = 1000000000"
  by (simp add: second_def)

subsection \<open>The calendar\<close>

definition leap_year :: "int \<Rightarrow> bool" where
  "leap_year y \<longleftrightarrow> 4 dvd y \<and> (\<not> 100 dvd y \<or> 400 dvd y)"

definition year_days :: "int \<Rightarrow> int" where
  "year_days y = (if leap_year y then 366 else 365)"

definition month_days :: "int \<Rightarrow> int \<Rightarrow> int" where
  "month_days y m =
     (if m = 2 then (if leap_year y then 29 else 28)
      else if m \<in> {4, 6, 9, 11} then 30 else 31)"

text \<open>Days from the first of January of year 1 to the first of January of year \<open>y\<close>,
  and from there to the first day of month \<open>m\<close>.\<close>

definition days_before_year :: "int \<Rightarrow> int" where
  "days_before_year y = 365 * (y - 1) + (y - 1) div 4 - (y - 1) div 100 + (y - 1) div 400"

definition days_before_month :: "int \<Rightarrow> int \<Rightarrow> int" where
  "days_before_month y m = sum_list (map (month_days y) [1..m - 1])"

function civil_year :: "int \<Rightarrow> int \<Rightarrow> int \<times> int" where
  "civil_year y d = (if d < year_days y then (y, d) else civil_year (y + 1) (d - year_days y))"
  by pat_completeness auto
termination
  by (relation "measure (\<lambda>(y, d). nat (d + 1))") (auto simp: year_days_def split: if_splits)

function civil_month :: "int \<Rightarrow> int \<Rightarrow> int \<Rightarrow> int \<times> int" where
  "civil_month y m d =
     (if 12 \<le> m \<or> d < month_days y m then (m, d)
      else civil_month y (m + 1) (d - month_days y m))"
  by pat_completeness auto
termination
  by (relation "measure (\<lambda>(y, m, d). nat (12 - m))") auto

declare civil_year.simps [simp del] civil_month.simps [simp del]

lemma year_days_ge: "365 \<le> year_days y"
  by (simp add: year_days_def)

lemma month_days_bounds: "28 \<le> month_days y m \<and> month_days y m \<le> 31"
  by (simp add: month_days_def)

lemma div_step:
  fixes y :: int
  assumes "0 < k"
  shows "y div k = (y - 1) div k + (if k dvd y then 1 else 0)"
proof (cases "k dvd y")
  case True
  then obtain q where y: "y = k * q" ..
  have "(k * q - 1) div k = q - 1"
    using assms div_mult_self2 [of k "- 1" q] div_eq_minus1 [of k]
    by (simp add: algebra_simps)
  with True y assms show ?thesis by simp
next
  case False
  then have "0 < y mod k" using assms
    by (metis dvd_eq_mod_eq_0 order_le_less pos_mod_sign)
  then have "(y - 1) div k = y div k"
    using assms pos_mod_bound [OF assms, of y]
    by (intro int_div_pos_eq [where r = "y mod k - 1"]) auto
  with False show ?thesis by simp
qed

lemma days_before_year_Suc: "days_before_year (y + 1) = days_before_year y + year_days y"
proof -
  define a b c where abc: "a = (y - 1) div 4" "b = (y - 1) div 100" "c = (y - 1) div 400"
  define a' b' c' where abc': "a' = y div 4" "b' = y div 100" "c' = y div 400"
  define P Q R where PQR: "P \<longleftrightarrow> 4 dvd y" "Q \<longleftrightarrow> 100 dvd y" "R \<longleftrightarrow> 400 dvd y"
  have step: "a' = a + (if P then 1 else 0)" "b' = b + (if Q then 1 else 0)"
    "c' = c + (if R then 1 else 0)"
    unfolding abc abc' PQR by (rule div_step; simp)+
  have dvd: "Q \<Longrightarrow> P" "R \<Longrightarrow> Q"
    unfolding PQR by (erule dvd_trans [rotated]; simp)+
  have "year_days y = (if P \<and> (\<not> Q \<or> R) then 366 else 365)"
    unfolding year_days_def leap_year_def PQR ..
  moreover have "days_before_year y = 365 * (y - 1) + a - b + c"
    unfolding days_before_year_def abc ..
  moreover have "days_before_year (y + 1) = 365 * y + a' - b' + c'"
    unfolding days_before_year_def abc' by (simp only: add_diff_cancel_right')
  ultimately show ?thesis using step dvd by (cases P; cases Q; cases R) auto
qed

lemma civil_year:
  "0 \<le> d \<Longrightarrow> civil_year y d = (y', d') \<Longrightarrow>
   y \<le> y' \<and> 0 \<le> d' \<and> d' < year_days y' \<and> days_before_year y' + d' = days_before_year y + d"
proof (induction y d rule: civil_year.induct)
  case (1 y d)
  show ?case
  proof (cases "d < year_days y")
    case True
    with 1 show ?thesis by (simp add: civil_year.simps [of y d])
  next
    case False
    with "1.prems" have "civil_year (y + 1) (d - year_days y) = (y', d')"
      by (simp add: civil_year.simps [of y d])
    with "1.IH" [OF False] False show ?thesis by (simp add: days_before_year_Suc)
  qed
qed

lemma days_before_month_Suc:
  "1 \<le> m \<Longrightarrow> days_before_month y (m + 1) = days_before_month y m + month_days y m"
  by (simp add: days_before_month_def upto_rec2)

lemma days_before_month_13: "days_before_month y 13 = year_days y"
proof -
  have "[1..12 :: int] = [1, 2, 3, 4, 5, 6, 7, 8, 9, 10, 11, 12]"
    by (simp add: upto_rec1)
  then show ?thesis by (simp add: days_before_month_def month_days_def year_days_def)
qed

lemma civil_month:
  "1 \<le> m \<Longrightarrow> m \<le> 12 \<Longrightarrow> 0 \<le> d \<Longrightarrow> days_before_month y m + d < year_days y \<Longrightarrow>
   civil_month y m d = (m', d') \<Longrightarrow>
   1 \<le> m' \<and> m' \<le> 12 \<and> 0 \<le> d' \<and> d' < month_days y m' \<and>
   days_before_month y m' + d' = days_before_month y m + d"
proof (induction y m d rule: civil_month.induct)
  case (1 y m d)
  show ?case
  proof (cases "12 \<le> m \<or> d < month_days y m")
    case True
    have "d < month_days y m"
    proof (cases "d < month_days y m")
      case False
      with True "1.prems" have "m = 12" by simp
      with "1.prems" days_before_month_Suc [of 12 y] show ?thesis
        by (simp add: days_before_month_13)
    qed
    with True "1.prems" show ?thesis by (simp add: civil_month.simps [of y m d])
  next
    case False
    with "1.prems" have "civil_month y (m + 1) (d - month_days y m) = (m', d')"
      by (simp add: civil_month.simps [of y m d])
    with "1.IH" [OF False] False "1.prems" show ?thesis by (simp add: days_before_month_Suc)
  qed
qed

text \<open>The year, month and day of a day number (day 0 is the first of January of year 1).
  The search starts at the 400-year cycle the day lies in.\<close>

definition civil :: "int \<Rightarrow> int \<times> int \<times> int" where
  "civil n =
     (let (y, d) = civil_year (1 + 400 * (n div 146097)) (n mod 146097);
          (m, d') = civil_month y 1 d
      in (y, m, d' + 1))"

lemma days_before_cycle: "days_before_year (1 + 400 * k) = 146097 * k"
proof -
  have "400 * k div 4 = 100 * k" "400 * k div 100 = 4 * k" by auto
  then show ?thesis by (simp add: days_before_year_def)
qed

lemma civil_days:
  assumes "civil n = (y, m, d)"
  shows "1 + 400 * (n div 146097) \<le> y"
    and "1 \<le> m" and "m \<le> 12" and "1 \<le> d" and "d \<le> month_days y m"
    and "days_before_year y + days_before_month y m + (d - 1) = n"
proof -
  obtain e where e: "civil_year (1 + 400 * (n div 146097)) (n mod 146097) = (y, e)"
    and m: "civil_month y 1 e = (m, d - 1)"
    using assms by (auto simp: civil_def split: prod.splits)
  have y: "1 + 400 * (n div 146097) \<le> y" "0 \<le> e" "e < year_days y"
    and n: "days_before_year y + e = n"
    using civil_year [OF _ e] by (auto simp: days_before_cycle)
  have "days_before_month y 1 = 0" by (simp add: days_before_month_def)
  then have "1 \<le> m \<and> m \<le> 12 \<and> 0 \<le> d - 1 \<and> d - 1 < month_days y m
      \<and> days_before_month y m + (d - 1) = e"
    using civil_month [OF _ _ y(2) _ m] y(3) by auto
  with y n show "1 + 400 * (n div 146097) \<le> y"
    and "1 \<le> m" and "m \<le> 12" and "1 \<le> d" and "d \<le> month_days y m"
    and "days_before_year y + days_before_month y m + (d - 1) = n"
    by auto
qed

lemma days_before_year_mono: "a \<le> b \<Longrightarrow> days_before_year a \<le> days_before_year b"
proof (induction b rule: int_ge_induct)
  case base
  show ?case by simp
next
  case (step b)
  then show ?case using year_days_ge [of b] by (simp add: days_before_year_Suc)
qed

subsection \<open>RFC 3339\<close>

definition pad2 :: "int \<Rightarrow> string" where
  "pad2 n = [digit_char (nat n div 10 mod 10), digit_char (nat n mod 10)]"

definition pad4 :: "int \<Rightarrow> string" where
  "pad4 n = pad2 (n div 100) @ pad2 (n mod 100)"

definition epoch_days :: int where "epoch_days = 719162"

text \<open>\<open>t.Format(time.RFC3339)\<close>: whole seconds, zone \<open>Z\<close>.\<close>

definition format_rfc3339 :: "time \<Rightarrow> string" where
  "format_rfc3339 t =
     (let s = t div second; r = s mod 86400;
          (y, m, d) = civil (s div 86400 + epoch_days)
      in (if 0 \<le> y \<and> y \<le> 9999 then pad4 y else itoa y) @ ''-'' @ pad2 m @ ''-'' @ pad2 d @ ''T'' @
         pad2 (r div 3600) @ '':'' @ pad2 (r div 60 mod 60) @ '':'' @ pad2 (r mod 60) @ ''Z'')"

text \<open>The unsigned number in a field, if it consists of digits and lies in a range.\<close>

definition parse_uint :: "string \<Rightarrow> int \<Rightarrow> int \<Rightarrow> int option" where
  "parse_uint s lo hi =
     (if list_all is_digit s \<and> lo \<le> int (read_digits 0 s) \<and> int (read_digits 0 s) \<le> hi
      then Some (int (read_digits 0 s)) else None)"

definition slice :: "string \<Rightarrow> nat \<Rightarrow> nat \<Rightarrow> string" where
  "slice s i j = take (j - i) (drop i s)"

text \<open>The fraction of a second, in nanoseconds (nine digits count), and the text after it.\<close>

definition parse_fraction :: "string \<Rightarrow> int \<times> string" where
  "parse_fraction s =
     (case s of
        c # d # _ \<Rightarrow>
          if c = CHR ''.'' \<and> is_digit d
          then let ds = takeWhile is_digit (tl s); n = take 9 ds
               in (int (read_digits 0 n * 10 ^ (9 - length n)), dropWhile is_digit (tl s))
          else (0, s)
      | _ \<Rightarrow> (0, s))"

text \<open>The zone: \<open>Z\<close>, or a signed offset of hours and minutes, in seconds.\<close>

definition parse_zone :: "string \<Rightarrow> int option" where
  "parse_zone s =
     (if s = ''Z'' then Some 0
      else if length s \<noteq> 6 then None
      else if (s ! 0 \<noteq> CHR ''-'' \<and> s ! 0 \<noteq> CHR ''+'') \<or> s ! 3 \<noteq> CHR '':'' then None
      else Option.bind (parse_uint (slice s 1 3) 0 23) (\<lambda>h.
           Option.bind (parse_uint (slice s 4 6) 0 59) (\<lambda>m.
           Some ((if s ! 0 = CHR ''-'' then - 1 else 1) * ((h * 60 + m) * 60)))))"

definition parse_rfc3339 :: "string \<Rightarrow> time option" where
  "parse_rfc3339 s =
     (if length s < 19 then None
      else if s ! 4 \<noteq> CHR ''-'' \<or> s ! 7 \<noteq> CHR ''-'' \<or> s ! 10 \<noteq> CHR ''T'' \<or>
              s ! 13 \<noteq> CHR '':'' \<or> s ! 16 \<noteq> CHR '':'' then None
      else Option.bind (parse_uint (slice s 0 4) 0 9999) (\<lambda>y.
           Option.bind (parse_uint (slice s 5 7) 1 12) (\<lambda>mo.
           Option.bind (parse_uint (slice s 8 10) 1 (month_days y mo)) (\<lambda>d.
           Option.bind (parse_uint (slice s 11 13) 0 23) (\<lambda>h.
           Option.bind (parse_uint (slice s 14 16) 0 59) (\<lambda>mi.
           Option.bind (parse_uint (slice s 17 19) 0 59) (\<lambda>sec.
           (let (ns, z) = parse_fraction (drop 19 s)
            in map_option (\<lambda>off.
                 ((days_before_year y + days_before_month y mo + (d - 1) - epoch_days) * 86400 +
                  h * 3600 + mi * 60 + sec - off) * second + ns) (parse_zone z)))))))))"

lemma pad2_digits: "list_all is_digit (pad2 n)"
  by (simp add: pad2_def)

lemma length_pad2 [simp]: "length (pad2 n) = 2"
  by (simp add: pad2_def)

lemma read_pad2: "0 \<le> n \<Longrightarrow> n < 100 \<Longrightarrow> int (read_digits 0 (pad2 n)) = n"
proof -
  assume n: "0 \<le> n" "n < 100"
  then have "nat n div 10 < 10" by simp
  with n show ?thesis by (simp add: pad2_def read_digits_def)
qed

lemma parse_pad2: "0 \<le> n \<Longrightarrow> n < 100 \<Longrightarrow> lo \<le> n \<Longrightarrow> n \<le> hi \<Longrightarrow> parse_uint (pad2 n) lo hi = Some n"
  by (simp add: parse_uint_def pad2_digits read_pad2)

lemma parse_pad4: "0 \<le> n \<Longrightarrow> n \<le> 9999 \<Longrightarrow> parse_uint (pad4 n) 0 9999 = Some n"
proof -
  assume n: "0 \<le> n" "n \<le> 9999"
  have hi: "read_digits 0 (pad2 (n div 100)) = nat (n div 100)"
    using read_pad2 [of "n div 100"] n pos_imp_zdiv_nonneg_iff [of 100 n] by (simp add: nat_eq_iff2)
  have acc: "read_digits a (pad2 k) = a * 100 + read_digits 0 (pad2 k)" for a k
    by (simp add: pad2_def read_digits_def)
  have "int (read_digits 0 (pad4 n)) = n"
    using read_pad2 [of "n mod 100"] n pos_imp_zdiv_nonneg_iff [of 100 n]
    by (simp add: pad4_def read_digits_append hi acc [of "nat (n div 100)"])
  with n show ?thesis by (simp add: parse_uint_def) (simp add: pad4_def pad2_digits)
qed

lemma format_rfc3339_fields:
  assumes "civil (t div second div 86400 + epoch_days) = (y, m, d)" "0 \<le> y" "y \<le> 9999"
  shows "format_rfc3339 t = pad4 y @ ''-'' @ pad2 m @ ''-'' @ pad2 d @ ''T'' @
    pad2 (t div second mod 86400 div 3600) @ '':'' @ pad2 (t div second mod 86400 div 60 mod 60) @
    '':'' @ pad2 (t div second mod 86400 mod 60) @ ''Z''"
  using assms by (simp add: format_rfc3339_def Let_def)

lemma parse_rfc3339_fields:
  assumes "parse_uint y4 0 9999 = Some y" "parse_uint m2 1 12 = Some m"
    "parse_uint d2 1 (month_days y m) = Some d" "parse_uint h2 0 23 = Some h"
    "parse_uint i2 0 59 = Some i" "parse_uint s2 0 59 = Some s"
    and len: "length y4 = 4" "length m2 = 2" "length d2 = 2" "length h2 = 2" "length i2 = 2"
    "length s2 = 2"
  shows "parse_rfc3339 (y4 @ ''-'' @ m2 @ ''-'' @ d2 @ ''T'' @ h2 @ '':'' @ i2 @ '':'' @ s2 @ ''Z'') =
    Some (((days_before_year y + days_before_month y m + (d - 1) - epoch_days) * 86400 +
           h * 3600 + i * 60 + s) * second)"
proof -
  obtain a0 a1 a2 a3 where y4: "y4 = [a0, a1, a2, a3]"
    using len(1) by (auto simp: length_Suc_conv numeral_eq_Suc)
  obtain m0 m1 d0 d1 h0 h1 i0 i1 s0 s1 where
    f: "m2 = [m0, m1]" "d2 = [d0, d1]" "h2 = [h0, h1]" "i2 = [i0, i1]" "s2 = [s0, s1]"
    using len by (auto simp: length_Suc_conv numeral_eq_Suc)
  show ?thesis
    using assms(1-6) unfolding y4 f
    by (simp add: parse_rfc3339_def slice_def parse_fraction_def parse_zone_def)
qed

text \<open>Formatting and parsing lose the fraction of a second and nothing else.\<close>

lemma parse_format_rfc3339:
  assumes "civil (t div second div 86400 + epoch_days) = (y, m, d)" and "0 \<le> y" and "y \<le> 9999"
  shows "parse_rfc3339 (format_rfc3339 t) = Some (t div second * second)"
proof -
  note c = civil_days [OF assms(1)]
  have d31: "d < 100" using c(5) month_days_bounds [of y m] by linarith
  define s r where "s = t div second" and "r = s mod 86400"
  have r: "0 \<le> r" "r < 86400" by (simp_all add: r_def)
  have p: "parse_uint (pad2 m) 1 12 = Some m" "parse_uint (pad2 d) 1 (month_days y m) = Some d"
    "parse_uint (pad2 (r div 3600)) 0 23 = Some (r div 3600)"
    "parse_uint (pad2 (r div 60 mod 60)) 0 59 = Some (r div 60 mod 60)"
    "parse_uint (pad2 (r mod 60)) 0 59 = Some (r mod 60)"
    using c d31 r by (auto intro!: parse_pad2)
  have "r div 3600 = r div 60 div 60" using zdiv_zmult2_eq [of 60 r 60] by simp
  then have hms: "r div 3600 * 3600 + r div 60 mod 60 * 60 + r mod 60 = r"
    using mult_div_mod_eq [of 60 r] mult_div_mod_eq [of 60 "r div 60"] by linarith
  have sr: "(s div 86400) * 86400 + r = s" unfolding r_def by simp
  have "parse_rfc3339 (format_rfc3339 t) =
    Some (((days_before_year y + days_before_month y m + (d - 1) - epoch_days) * 86400 +
      r div 3600 * 3600 + r div 60 mod 60 * 60 + r mod 60) * second)"
    unfolding format_rfc3339_fields [OF assms] s_def [symmetric] r_def [symmetric]
    by (rule parse_rfc3339_fields) (use parse_pad4 assms p in \<open>simp_all add: pad4_def\<close>)
  also have "(days_before_year y + days_before_month y m + (d - 1) - epoch_days) * 86400 +
      r div 3600 * 3600 + r div 60 mod 60 * 60 + r mod 60 = s div 86400 * 86400 + r"
    using c(6) hms by (simp add: s_def)
  finally show ?thesis unfolding sr unfolding s_def .
qed

text \<open>The instants from year 1 to year 9999, which the format covers.\<close>

definition rfc3339_range :: "time \<Rightarrow> bool" where
  "rfc3339_range t \<longleftrightarrow> zero_time \<le> t \<and> t < 253402300800 * second"

definition whole_seconds :: "time \<Rightarrow> time" where
  "whole_seconds t = t div second * second"

lemma days_before_month_nonneg: "0 \<le> days_before_month y m"
  unfolding days_before_month_def
  by (rule sum_list_nonneg) (auto simp: month_days_def)

lemma civil_year_range:
  assumes "civil n = (y, m, d)" and "0 \<le> n" and "n < 3652059"
  shows "1 \<le> y" and "y \<le> 9999"
proof -
  note c = civil_days [OF assms(1)]
  show "1 \<le> y" using c(1) assms(2) pos_imp_zdiv_nonneg_iff [of 146097 n] by linarith
  show "y \<le> 9999"
  proof (rule ccontr)
    assume "\<not> y \<le> 9999"
    then have "days_before_year 10000 \<le> days_before_year y" by (intro days_before_year_mono) simp
    moreover have "days_before_year 10000 = 3652059" by (simp add: days_before_year_def)
    ultimately show False using c(4,6) assms(3) days_before_month_nonneg [of y m] by linarith
  qed
qed

lemma parse_format_in_range:
  assumes "rfc3339_range t"
  shows "parse_rfc3339 (format_rfc3339 t) = Some (whole_seconds t)"
proof -
  obtain y m d where c: "civil (t div second div 86400 + epoch_days) = (y, m, d)"
    by (metis prod_cases3)
  have "- 62135596800 * second div second \<le> t div second"
    using assms by (intro zdiv_mono1) (simp_all add: rfc3339_range_def zero_time_def second_def)
  then have lo: "- 719162 * 86400 \<le> t div second" by (simp add: second_def)
  have "t div second < 253402300800"
    using assms by (simp add: rfc3339_range_def second_def) linarith
  then have hi: "t div second div 86400 < 2932897"
    by linarith
  have "- 719162 * 86400 div 86400 \<le> t div second div 86400"
    using lo by (intro zdiv_mono1) simp_all
  then have "0 \<le> t div second div 86400 + epoch_days" by (simp add: epoch_days_def)
  moreover have "t div second div 86400 + epoch_days < 3652059" using hi by (simp add: epoch_days_def)
  ultimately show ?thesis
    using parse_format_rfc3339 [OF c] civil_year_range [OF c] by (simp add: whole_seconds_def)
qed

lemma whole_seconds_bounds: "whole_seconds t \<le> t \<and> t < whole_seconds t + second"
proof -
  have "t = whole_seconds t + t mod second" by (simp add: whole_seconds_def)
  moreover have "0 \<le> t mod second" "t mod second < second" by (simp_all add: second_def)
  ultimately show ?thesis by linarith
qed

lemma whole_seconds_idem [simp]: "whole_seconds (whole_seconds t) = whole_seconds t"
  by (simp add: whole_seconds_def second_def)

end
