(* ===== verification/Go_Duration.thy ===== *)
theory Go_Duration
  imports Go_Time
begin

text \<open>
  \<^verbatim>\<open>time.Duration\<close>: a number of nanoseconds in 64 bits. \<open>parse_duration\<close> is
  \<^verbatim>\<open>time.ParseDuration\<close>, segment by segment ("1h30m", "1.5s"), with its overflow checks;
  \<open>duration_string\<close> is the \<^verbatim>\<open>String\<close> method. The law used by the wait tasks is
  \<open>parse_duration_seconds\<close> and its siblings: a decimal number followed by a unit is that
  many units.
\<close>

definition unit_ns :: "string \<Rightarrow> int option" where
  "unit_ns u =
     (if u = ''ns'' then Some 1
      else if u \<in> {''us'', [CHR 0xC2, CHR 0xB5, CHR ''s''], [CHR 0xCE, CHR 0xBC, CHR ''s'']}
        then Some 1000
      else if u = ''ms'' then Some 1000000
      else if u = ''s'' then Some 1000000000
      else if u = ''m'' then Some 60000000000
      else if u = ''h'' then Some 3600000000000
      else None)"

text \<open>The digits in front of the text, refused when they exceed \<open>2 ^ 63\<close>.\<close>

fun leading_int :: "nat \<Rightarrow> string \<Rightarrow> (nat \<times> string) option" where
  "leading_int x [] = Some (x, [])"
| "leading_int x (c # cs) =
     (if \<not> is_digit c then Some (x, c # cs)
      else if 2 ^ 63 div 10 < x then None
      else if 2 ^ 63 < x * 10 + digit_val c then None
      else leading_int (x * 10 + digit_val c) cs)"

text \<open>The digits of a fraction: value, scale, and the text after them; digits that no
  longer fit are dropped.\<close>

fun leading_fraction :: "nat \<Rightarrow> nat \<Rightarrow> bool \<Rightarrow> string \<Rightarrow> nat \<times> nat \<times> string" where
  "leading_fraction x scale full [] = (x, scale, [])"
| "leading_fraction x scale full (c # cs) =
     (if \<not> is_digit c then (x, scale, c # cs)
      else if full \<or> (2 ^ 63 - 1) div 10 < x \<or> 2 ^ 63 < x * 10 + digit_val c
        then leading_fraction x scale True cs
      else leading_fraction (x * 10 + digit_val c) (scale * 10) False cs)"

text \<open>One number with its unit, in nanoseconds, and the text after it.\<close>

definition unit_chars :: "string \<Rightarrow> string" where
  "unit_chars s = takeWhile (\<lambda>c. c \<noteq> CHR ''.'' \<and> \<not> is_digit c) s"

definition fraction_ns :: "nat \<Rightarrow> nat \<Rightarrow> int \<Rightarrow> int" where
  "fraction_ns f scale unit =
     trunc_rat (f64_round (f64_of_int (int f) * f64_round (of_int unit / of_nat scale)))"

definition duration_segment :: "string \<Rightarrow> (int \<times> string) option" where
  "duration_segment s =
     (if s = [] \<or> (hd s \<noteq> CHR ''.'' \<and> \<not> is_digit (hd s)) then None
      else Option.bind (leading_int 0 s) (\<lambda>(v, s1).
        let (f, scale, s2) =
              (case s1 of c # cs \<Rightarrow> if c = CHR ''.'' then leading_fraction 0 1 False cs else (0, 1, s1)
               | [] \<Rightarrow> (0, 1, s1));
            pre = length s1 < length s;
            post = s1 \<noteq> [] \<and> hd s1 = CHR ''.'' \<and> length s2 < length (tl s1);
            u = unit_chars s2
        in if (\<not> pre \<and> \<not> post) \<or> u = [] then None
           else Option.bind (unit_ns u) (\<lambda>unit.
             if 2 ^ 63 div unit < int v then None
             else let w = int v * unit + (if 0 < f then fraction_ns f scale unit else 0)
                  in if 2 ^ 63 < w then None else Some (w, drop (length u) s2))))"

lemma leading_int_length: "leading_int x s = Some (v, r) \<Longrightarrow> length r \<le> length s"
  by (induction x s rule: leading_int.induct) (auto split: if_splits)

lemma leading_fraction_length:
  "leading_fraction x scale full s = (f, sc, r) \<Longrightarrow> length r \<le> length s"
  by (induction x scale full s rule: leading_fraction.induct)
    (auto split: if_splits dest: le_SucI)

lemma duration_segment_shorter:
  assumes "duration_segment s = Some (w, r)"
  shows "length r < length s"
proof -
  obtain v s1 where v: "leading_int 0 s = Some (v, s1)"
    using assms by (auto simp: duration_segment_def split: if_splits Option.bind_splits)
  define t where "t = (case s1 of c # cs \<Rightarrow>
    if c = CHR ''.'' then leading_fraction 0 1 False cs else (0, 1, s1) | [] \<Rightarrow> (0, 1, s1))"
  obtain f sc s2 where t: "t = (f, sc, s2)" by (cases t)
  have s2: "length s2 \<le> length s1"
    using t unfolding t_def
    by (auto split: list.splits if_splits dest!: leading_fraction_length)
  have "unit_chars s2 \<noteq> []" and r: "r = drop (length (unit_chars s2)) s2"
    using assms v t
    by (auto simp: duration_segment_def Let_def t_def [symmetric] split: if_splits Option.bind_splits)
  then have "0 < length (unit_chars s2)" and "length (unit_chars s2) \<le> length s2"
    by (auto simp: unit_chars_def length_takeWhile_le)
  moreover have "length r = length s2 - length (unit_chars s2)" by (simp add: r)
  ultimately show ?thesis using s2 leading_int_length [OF v] by linarith
qed

function duration_loop :: "int \<Rightarrow> string \<Rightarrow> int option" where
  "duration_loop d s =
     (if s = [] then Some d
      else (case duration_segment s of
              None \<Rightarrow> None
            | Some (v, r) \<Rightarrow>
                let d' = (d + v) mod 2 ^ 64 in if 2 ^ 63 < d' then None else duration_loop d' r))"
  by pat_completeness auto
termination
  by (relation "measure (\<lambda>(d, s). length s)") (auto dest: duration_segment_shorter)

declare duration_loop.simps [simp del]

definition parse_duration :: "string \<Rightarrow> int option" where
  "parse_duration s =
     (let neg = has_prefix s ''-'';
          s' = (if has_prefix s ''-'' \<or> has_prefix s ''+'' then tl s else s)
      in if s' = ''0'' then Some 0
         else if s' = [] then None
         else Option.bind (duration_loop 0 s') (\<lambda>d.
           if neg then Some (- d) else if 2 ^ 63 - 1 < d then None else Some d))"

subsection \<open>Printing\<close>

text \<open>\<open>d.Milliseconds()\<close>: integer division, towards zero.\<close>

definition milliseconds :: "int \<Rightarrow> int" where
  "milliseconds d = (if d < 0 then - (- d div 1000000) else d div 1000000)"

fun strip_zeros :: "string \<Rightarrow> string" where
  "strip_zeros s = rev (dropWhile (\<lambda>c. c = CHR ''0'') (rev s))"

fun padded :: "nat \<Rightarrow> nat \<Rightarrow> string" where
  "padded 0 n = []"
| "padded (Suc k) n = padded k (n div 10) @ [digit_char (n mod 10)]"

definition fraction_string :: "nat \<Rightarrow> nat \<Rightarrow> string" where
  "fraction_string k n =
     (let ds = strip_zeros (padded k (n mod 10 ^ k)) in if ds = [] then [] else CHR ''.'' # ds)"

definition duration_string :: "int \<Rightarrow> string" where
  "duration_string d =
     (let u = nat \<bar>d\<bar>; s = u div 1000000000;
          body =
            (if u = 0 then ''0s''
             else if u < 1000 then nat_digits u @ ''ns''
             else if u < 1000000
               then nat_digits (u div 1000) @ fraction_string 3 u @ [CHR 0xC2, CHR 0xB5, CHR ''s'']
             else if u < 1000000000 then nat_digits (u div 1000000) @ fraction_string 6 u @ ''ms''
             else (if s < 60 then []
                   else (if s < 3600 then [] else nat_digits (s div 3600) @ ''h'') @
                        nat_digits (s div 60 mod 60) @ ''m'') @
                  nat_digits (s mod 60) @ fraction_string 9 u @ ''s'')
      in if d < 0 then CHR ''-'' # body else body)"

subsection \<open>Laws\<close>

lemma read_digits_ge: "x \<le> read_digits x s"
proof (induction s arbitrary: x)
  case Nil
  show ?case by (simp add: read_digits_def)
next
  case (Cons c s)
  have "x \<le> x * 10 + digit_val c" by simp
  also have "\<dots> \<le> read_digits (x * 10 + digit_val c) s" by (rule Cons)
  finally show ?case by (simp add: read_digits_def)
qed

lemma leading_int_digits:
  "\<forall>c \<in> set s. is_digit c \<Longrightarrow> t = [] \<or> \<not> is_digit (hd t) \<Longrightarrow> read_digits x s \<le> 2 ^ 63 \<Longrightarrow>
   leading_int x (s @ t) = Some (read_digits x s, t)"
proof (induction s arbitrary: x)
  case Nil
  then show ?case by (cases t) (auto simp: read_digits_def)
next
  case (Cons c s)
  have r: "read_digits x (c # s) = read_digits (x * 10 + digit_val c) s"
    by (simp add: read_digits_def)
  with Cons.prems(3) read_digits_ge [of "x * 10 + digit_val c" s]
  have "x * 10 + digit_val c \<le> 2 ^ 63" by linarith
  then have "\<not> 2 ^ 63 div 10 < x" "\<not> 2 ^ 63 < x * 10 + digit_val c" by simp_all
  with Cons.IH [of "x * 10 + digit_val c"] Cons.prems r show ?case by simp
qed

lemma leading_int_nat_digits:
  "n \<le> 2 ^ 63 \<Longrightarrow> t = [] \<or> \<not> is_digit (hd t) \<Longrightarrow> leading_int 0 (nat_digits n @ t) = Some (n, t)"
  using leading_int_digits [of "nat_digits n" t 0] nat_digits_are_digits [of n]
  by (simp add: read_nat_digits)

text \<open>A decimal number of units.\<close>

lemma parse_duration_units:
  assumes u: "unit_ns u = Some k" "u \<noteq> []" "unit_chars u = u" "0 < k" and n: "int n * k < 2 ^ 63"
  shows "parse_duration (nat_digits n @ u) = Some (int n * k)"
proof -
  obtain c cs where c: "nat_digits n @ u = c # cs" "nat_digits n = c # take (length (nat_digits n) - 1) cs"
    using nat_digits_nonempty [of n] by (cases "nat_digits n") auto
  have dig: "is_digit c" using nat_digits_are_digits [of n] c(2) by (metis list.set_intros(1))
  have u0: "\<not> is_digit (hd u)" "hd u \<noteq> CHR ''.''"
    using u(2,3) unfolding unit_chars_def by (cases u; auto split: if_splits)+
  have "int n \<le> int n * k" using u(4) mult_left_mono [of 1 k "int n"] by simp
  with n have "int n \<le> int (2 ^ 63)" by simp
  then have n63: "n \<le> 2 ^ 63" by (simp only: of_nat_le_iff)
  have li: "leading_int 0 (nat_digits n @ u) = Some (n, u)"
    using leading_int_nat_digits n63 u0 by blast
  have fit: "\<not> 2 ^ 63 div k < int n"
    using n u(4) zdiv_mono1 [of "int n * k" "2 ^ 63" k] by simp
  have seg: "duration_segment (nat_digits n @ u) = Some (int n * k, [])"
  proof -
    obtain x xs where x: "u = x # xs" using u(2) by (cases u) auto
    have "is_digit (hd (nat_digits n @ u))" using dig c(1) by simp
    then show ?thesis
      using u u0 n fit li by (simp add: duration_segment_def Let_def x)
  qed
  have m: "int n * k mod 2 ^ 64 = int n * k" using n u(4) by (intro mod_pos_pos_trivial) auto
  have ne: "nat_digits n @ u \<noteq> []" using u(2) by simp
  have "duration_loop 0 (nat_digits n @ u) = Some (int n * k)"
    using seg m n ne by (subst duration_loop.simps) (simp add: Let_def, subst duration_loop.simps, simp)
  moreover have "nat_digits n @ u \<noteq> ''0''"
    using u(2) nat_digits_nonempty [of n] by (cases "nat_digits n"; cases u) auto
  moreover have "\<not> has_prefix (nat_digits n @ u) ''-''" "\<not> has_prefix (nat_digits n @ u) ''+''"
    using dig c(1) by (auto simp: has_prefix_def is_digit_def)
  ultimately show ?thesis using ne n by (simp add: parse_duration_def)
qed

lemma parse_duration_seconds:
  "int n * 1000000000 < 2 ^ 63 \<Longrightarrow> parse_duration (nat_digits n @ ''s'') = Some (int n * 1000000000)"
  by (rule parse_duration_units) (simp_all add: unit_ns_def unit_chars_def is_digit_def)

lemma parse_duration_minutes:
  "int n * 60000000000 < 2 ^ 63 \<Longrightarrow> parse_duration (nat_digits n @ ''m'') = Some (int n * 60000000000)"
  by (rule parse_duration_units) (simp_all add: unit_ns_def unit_chars_def is_digit_def)

lemma parse_duration_hours:
  "int n * 3600000000000 < 2 ^ 63 \<Longrightarrow>
   parse_duration (nat_digits n @ ''h'') = Some (int n * 3600000000000)"
  by (rule parse_duration_units) (simp_all add: unit_ns_def unit_chars_def is_digit_def)

end
