(* ===== verification/JQ_Eval.thy ===== *)
theory JQ_Eval
  imports Go_Duration
begin

text \<open>
  The expression evaluator (\<^verbatim>\<open>shared/pkg/jq/evaluator.go\<close>): strings of the form
  \<^verbatim>\<open>${ ... }\<close> are looked up in the workflow data, everything else stands for itself.
  \<open>now\<close> is what \<^verbatim>\<open>time.Now().Format(time.RFC3339)\<close> returns during the evaluation. The
  abstract counterpart of the path evaluation is \<open>lookup_path\<close>, plain nested lookup.
\<close>

definition is_expression :: "string \<Rightarrow> bool" where
  "is_expression s \<longleftrightarrow> has_prefix s ''${'' \<and> has_suffix s ''}''"

fun walk_path :: "string \<Rightarrow> gmap \<Rightarrow> string list \<Rightarrow> (string, gval) result" where
  "walk_path path current [] = Inl (''path not found: '' @ path)"
| "walk_path path current (part # parts) =
     (if contains part ''['' \<and> contains part '']''
      then Inl (''array access not yet implemented: '' @ part)
      else (case map_of current part of
              None \<Rightarrow> Inl (''path not found: '' @ path @ '': field does not exist: '' @ part)
            | Some v \<Rightarrow>
                if parts = [] then Inr v
                else (case v of
                        GMap m \<Rightarrow> walk_path path m parts
                      | _ \<Rightarrow> Inl (''path not found: '' @ path @ '': not a map: '' @ part))))"

definition extract_from_path :: "gmap \<Rightarrow> string \<Rightarrow> (string, gval) result" where
  "extract_from_path data path = walk_path path data (split_on (CHR ''.'') path)"

definition evaluate_builtin :: "string \<Rightarrow> string \<Rightarrow> gmap \<Rightarrow> (string, gval) result" where
  "evaluate_builtin now p data =
     (if p = ''now()'' then Inr (GStr now)
      else if has_prefix p ''$workflow.input.'' then
        extract_from_path data (''workflow.input.'' @ trim_prefix p ''$workflow.input.'')
      else if has_prefix p ''$workflow.'' then
        extract_from_path data (''workflow.'' @ trim_prefix p ''$workflow.'')
      else if has_prefix p ''$.'' then extract_from_path data (trim_prefix p ''$.'')
      else if has_prefix p ''.'' then extract_from_path data (trim_prefix p ''.'')
      else if \<not> contains p ''.'' \<and> \<not> contains p ''('' then
        (case map_of data p of
           Some v \<Rightarrow> Inr v
         | None \<Rightarrow> Inl (''field not found in data: '' @ p))
      else Inl (''unsupported JQ expression: '' @ p))"

definition evaluate_expression :: "string \<Rightarrow> string \<Rightarrow> gmap \<Rightarrow> (string, gval) result" where
  "evaluate_expression now expr data =
     (if expr = [] then Inl ''empty expression''
      else if \<not> has_prefix expr ''${'' \<or> \<not> has_suffix expr ''}'' then Inr (GStr expr)
      else (case evaluate_builtin now (trim_space (take (length expr - 3) (drop 2 expr))) data of
              Inl e \<Rightarrow> Inl (''failed to evaluate expression: '' @ e)
            | Inr v \<Rightarrow> Inr v))"

text \<open>\<open>evaluateValue\<close> and \<open>EvaluateMap\<close>: the first error stops the evaluation.\<close>

fun evaluate_value :: "string \<Rightarrow> gmap \<Rightarrow> gval \<Rightarrow> (string, gval) result"
  and evaluate_list :: "nat \<Rightarrow> string \<Rightarrow> gmap \<Rightarrow> gval list \<Rightarrow> (string, gval list) result"
  and evaluate_map :: "string \<Rightarrow> gmap \<Rightarrow> gmap \<Rightarrow> (string, gmap) result" where
  "evaluate_value now data (GStr s) = evaluate_expression now s data"
| "evaluate_value now data (GMap m) =
     (case evaluate_map now data m of Inl e \<Rightarrow> Inl e | Inr r \<Rightarrow> Inr (GMap r))"
| "evaluate_value now data (GList xs) =
     (case evaluate_list 0 now data xs of Inl e \<Rightarrow> Inl e | Inr r \<Rightarrow> Inr (GList r))"
| "evaluate_value now data v = Inr v"
| "evaluate_list i now data [] = Inr []"
| "evaluate_list i now data (v # vs) =
     (case evaluate_value now data v of
        Inl e \<Rightarrow> Inl (''failed to evaluate array item at index '' @ itoa (int i) @ '': '' @ e)
      | Inr w \<Rightarrow> (case evaluate_list (Suc i) now data vs of Inl e \<Rightarrow> Inl e | Inr ws \<Rightarrow> Inr (w # ws)))"
| "evaluate_map now data [] = Inr []"
| "evaluate_map now data ((k, v) # m) =
     (case evaluate_value now data v of
        Inl e \<Rightarrow> Inl (''failed to evaluate key '' @ k @ '': '' @ e)
      | Inr w \<Rightarrow> (case evaluate_map now data m of Inl e \<Rightarrow> Inl e | Inr r \<Rightarrow> Inr ((k, w) # r)))"

definition build_jq_context :: "string \<Rightarrow> gmap option \<Rightarrow> gmap option \<Rightarrow> gmap" where
  "build_jq_context now input variables =
     [(''workflow'', GMap
        ((case input of None \<Rightarrow> [] | Some m \<Rightarrow> [(''input'', GMap m)]) @
         (case variables of None \<Rightarrow> [] | Some m \<Rightarrow> [(''variables'', GMap m)]))),
      (''now'', GStr now)]"

subsection \<open>Laws\<close>

text \<open>Nested lookup, the specification of a path.\<close>

fun lookup_path :: "gmap \<Rightarrow> string list \<Rightarrow> gval option" where
  "lookup_path m [] = None"
| "lookup_path m [k] = map_of m k"
| "lookup_path m (k # ks) =
     (case map_of m k of Some (GMap n) \<Rightarrow> lookup_path n ks | _ \<Rightarrow> None)"

definition plain_part :: "string \<Rightarrow> bool" where
  "plain_part p \<longleftrightarrow> CHR ''.'' \<notin> set p \<and> \<not> (contains p ''['' \<and> contains p '']'')"

lemma walk_path_lookup:
  "ks \<noteq> [] \<Longrightarrow> \<forall>k \<in> set ks. plain_part k \<Longrightarrow>
   (case walk_path path m ks of Inr v \<Rightarrow> Some v | Inl _ \<Rightarrow> None) = lookup_path m ks"
proof (induction m ks rule: lookup_path.induct)
  case (1 m)
  then show ?case by simp
next
  case (2 m k)
  then show ?case by (auto simp: plain_part_def split: option.splits)
next
  case (3 m k k' ks)
  then show ?case by (auto simp: plain_part_def split: option.splits gval.splits)
qed

lemma extract_from_path_lookup:
  assumes "ks \<noteq> []" and "\<forall>k \<in> set ks. plain_part k"
  shows "(case extract_from_path data (join_with (CHR ''.'') ks) of Inr v \<Rightarrow> Some v | Inl _ \<Rightarrow> None)
    = lookup_path data ks"
proof -
  have "split_on (CHR ''.'') (join_with (CHR ''.'') ks) = ks"
    using assms by (intro split_join) (auto simp: plain_part_def)
  then show ?thesis using walk_path_lookup [OF assms] by (simp add: extract_from_path_def)
qed

lemma dropWhile_hd: "s \<noteq> [] \<Longrightarrow> \<not> p (hd s) \<Longrightarrow> dropWhile p s = s"
  by (cases s) auto

lemma trim_space_id:
  "s \<noteq> [] \<Longrightarrow> \<not> is_space (hd s) \<Longrightarrow> \<not> is_space (last s) \<Longrightarrow> trim_space s = s"
  by (simp add: trim_space_def dropWhile_hd hd_rev)

lemma evaluate_reference:
  assumes "p \<noteq> []" and "\<not> is_space (hd p)" and "\<not> is_space (last p)"
  shows "evaluate_expression now (''${'' @ p @ ''}'') data =
    (case evaluate_builtin now p data of
       Inl e \<Rightarrow> Inl (''failed to evaluate expression: '' @ e) | Inr v \<Rightarrow> Inr v)"
proof -
  have "has_prefix (''${'' @ p @ ''}'') ''${''" by (rule has_prefix_append)
  moreover have "has_suffix (''${'' @ p @ ''}'') ''}''" by (auto simp: has_suffix_iff)
  moreover have "take (length (''${'' @ p @ ''}'') - 3) (drop 2 (''${'' @ p @ ''}'')) = p" by simp
  ultimately show ?thesis using trim_space_id [OF assms] by (simp only: evaluate_expression_def) simp
qed

lemma evaluate_literal:
  "s \<noteq> [] \<Longrightarrow> \<not> is_expression s \<Longrightarrow> evaluate_expression now s data = Inr (GStr s)"
  by (auto simp: evaluate_expression_def is_expression_def)

text \<open>Values that contain neither expressions nor empty strings.\<close>

fun inert :: "gval \<Rightarrow> bool"
  and inert_list :: "gval list \<Rightarrow> bool"
  and inert_map :: "gmap \<Rightarrow> bool" where
  "inert (GStr s) \<longleftrightarrow> s \<noteq> [] \<and> \<not> is_expression s"
| "inert (GMap m) \<longleftrightarrow> inert_map m"
| "inert (GList xs) \<longleftrightarrow> inert_list xs"
| "inert v \<longleftrightarrow> True"
| "inert_list [] \<longleftrightarrow> True"
| "inert_list (v # vs) \<longleftrightarrow> inert v \<and> inert_list vs"
| "inert_map [] \<longleftrightarrow> True"
| "inert_map ((k, v) # m) \<longleftrightarrow> inert v \<and> inert_map m"

lemma evaluate_inert:
  "inert v \<Longrightarrow> evaluate_value now data v = Inr v"
  "inert_list vs \<Longrightarrow> evaluate_list i now data vs = Inr vs"
  "inert_map m \<Longrightarrow> evaluate_map now data m = Inr m"
  by (induction v and vs and m arbitrary: and i and rule: inert_inert_list_inert_map.induct)
    (simp_all add: evaluate_literal)

lemma evaluate_map_keys:
  "evaluate_map now data m = Inr r \<Longrightarrow> map fst r = map fst m"
proof (induction m arbitrary: r)
  case Nil
  then show ?case by simp
next
  case (Cons p m)
  then show ?case by (cases p) (auto split: sum.splits)
qed

lemma evaluate_map_lookup:
  "evaluate_map now data m = Inr r \<Longrightarrow> map_of m k = Some v \<Longrightarrow>
   \<exists>w. evaluate_value now data v = Inr w \<and> map_of r k = Some w"
proof (induction m arbitrary: r)
  case Nil
  then show ?case by simp
next
  case (Cons p m)
  then show ?case by (cases p) (auto split: sum.splits if_splits)
qed

lemma evaluate_map_fails:
  "map_of m k = Some v \<Longrightarrow> evaluate_value now data v = Inl e \<Longrightarrow> \<exists>e'. evaluate_map now data m = Inl e'"
  by (induction m) (auto split: sum.splits if_splits)

end
