(* ===== verification/Engine_DSL.thy ===== *)
theory Engine_DSL
  imports JQ_Eval
begin

text \<open>
  The part of the workflow engine (\<^verbatim>\<open>worker/internal/engine/serverless_workflow_engine.go\<close>)
  that reads a workflow definition: parsing and validating it, the ordered task list, the
  type of a task, the conversion of durations, and the configuration blocks handed to the
  executor. The YAML and JSON decoders are arguments of \<open>parse_definition\<close>.
\<close>

record workflow_definition =
  wd_id :: string
  wd_name :: string
  wd_description :: string
  wd_version :: string
  wd_spec_version :: string
  wd_start_state :: string
  wd_dsl :: "gmap option"

definition get_string_value :: "gmap \<Rightarrow> string \<Rightarrow> string" where
  "get_string_value m k = (case get_str m k of Some s \<Rightarrow> s | None \<Rightarrow> [])"

text \<open>The key a \<open>range\<close> loop over a map meets first.\<close>

definition first_key :: "gmap \<Rightarrow> string option" where
  "first_key m = (case m of [] \<Rightarrow> None | (k, _) # _ \<Rightarrow> Some k)"

definition start_task :: "gmap \<Rightarrow> string" where
  "start_task dsl =
     (case get_list dsl ''do'' of
        Some (GMap t # _) \<Rightarrow> (case first_key t of Some k \<Rightarrow> k | None \<Rightarrow> [])
      | _ \<Rightarrow> [])"

definition definition_of_dsl :: "gmap \<Rightarrow> workflow_definition" where
  "definition_of_dsl dsl =
     (case get_map dsl ''document'' of
        Some doc \<Rightarrow>
          \<lparr>wd_id = get_string_value doc ''name'', wd_name = get_string_value doc ''name'',
           wd_description = get_string_value doc ''description'',
           wd_version = get_string_value doc ''version'', wd_spec_version = get_string_value doc ''dsl'',
           wd_start_state = (if start_task dsl = [] then ''start'' else start_task dsl),
           wd_dsl = wire_map dsl\<rparr>
      | None \<Rightarrow>
          \<lparr>wd_id = get_string_value dsl ''id'', wd_name = get_string_value dsl ''name'',
           wd_description = get_string_value dsl ''description'',
           wd_version = get_string_value dsl ''version'',
           wd_spec_version = get_string_value dsl ''specVersion'',
           wd_start_state = get_string_value dsl ''start'', wd_dsl = wire_map dsl\<rparr>)"

definition parse_definition ::
  "('b \<Rightarrow> gmap option) \<Rightarrow> ('b \<Rightarrow> gmap option) \<Rightarrow> 'b \<Rightarrow> (string, workflow_definition) result" where
  "parse_definition yaml json data =
     (case yaml data of
        Some dsl \<Rightarrow> Inr (definition_of_dsl dsl)
      | None \<Rightarrow>
          (case json data of
             Some dsl \<Rightarrow> Inr (definition_of_dsl dsl)
           | None \<Rightarrow> Inl ''failed to parse workflow DSL''))"

definition validate_definition :: "workflow_definition \<Rightarrow> string option" where
  "validate_definition d =
     (if wd_id d = [] then Some ''workflow ID is required''
      else if wd_name d = [] then Some ''workflow name is required''
      else if wd_dsl d = None then Some ''workflow DSL definition is required''
      else None)"

subsection \<open>The task list\<close>

definition fallback_tasks :: "string list" where
  "fallback_tasks = [''initialize'', ''processData'', ''waitStep'', ''finalize'']"

fun task_names :: "gval list \<Rightarrow> string list" where
  "task_names [] = []"
| "task_names (GMap t # items) =
     (case first_key t of Some k \<Rightarrow> k # task_names items | None \<Rightarrow> task_names items)"
| "task_names (_ # items) = task_names items"

definition extract_task_list_manual :: "gmap \<Rightarrow> string list" where
  "extract_task_list_manual dsl =
     (case get_list dsl ''do'' of
        Some items \<Rightarrow> if task_names items \<noteq> [] then task_names items else fallback_tasks
      | None \<Rightarrow> fallback_tasks)"

definition extract_ordered_task_list :: "workflow_definition \<Rightarrow> string list" where
  "extract_ordered_task_list d =
     (case wd_dsl d of None \<Rightarrow> fallback_tasks | Some dsl \<Rightarrow> extract_task_list_manual dsl)"

definition extract_task_names_from_dsl :: "workflow_definition \<Rightarrow> (string, string list) result" where
  "extract_task_names_from_dsl d =
     (case wd_dsl d of
        None \<Rightarrow> Inl ''DSL definition is nil''
      | Some dsl \<Rightarrow>
          (case get_list dsl ''do'' of
             Some items \<Rightarrow> Inr (task_names items)
           | None \<Rightarrow> Inr fallback_tasks))"

subsection \<open>The type of a task\<close>

definition has_key :: "gmap \<Rightarrow> string \<Rightarrow> bool" where
  "has_key m k \<longleftrightarrow> map_of m k \<noteq> None"

definition has_task_properties :: "gmap \<Rightarrow> bool" where
  "has_task_properties t \<longleftrightarrow>
     list_ex (has_key t) [''try'', ''call'', ''set'', ''wait'', ''inject'', ''switch'', ''foreach'', ''parallel'']"

text \<open>The type a task definition is recognised as, if any.\<close>

definition recognised_type :: "gmap \<Rightarrow> string option" where
  "recognised_type t =
     (if has_key t ''set'' then Some ''set''
      else if has_key t ''wait'' then Some ''wait''
      else if has_key t ''call'' then Some ''call''
      else (case get_map t ''try'' of
              Some b \<Rightarrow>
                if has_key b ''call'' \<or> has_key b ''set'' \<or> has_key b ''wait'' then Some ''try'' else None
            | None \<Rightarrow> None))"

fun task_type_in :: "gval list \<Rightarrow> string \<Rightarrow> string" where
  "task_type_in [] name = ''set''"
| "task_type_in (item # items) name =
     (case item of
        GMap t \<Rightarrow>
          (case get_map t name of
             Some b \<Rightarrow> (case recognised_type b of Some ty \<Rightarrow> ty | None \<Rightarrow> task_type_in items name)
           | None \<Rightarrow> task_type_in items name)
      | _ \<Rightarrow> task_type_in items name)"

definition get_task_type :: "workflow_definition \<Rightarrow> string \<Rightarrow> string" where
  "get_task_type d name =
     (case wd_dsl d of
        None \<Rightarrow> ''set''
      | Some dsl \<Rightarrow>
          (case get_list dsl ''do'' of Some items \<Rightarrow> task_type_in items name | None \<Rightarrow> ''set''))"

subsection \<open>Durations\<close>

definition iso_to_go_duration :: "string \<Rightarrow> string" where
  "iso_to_go_duration s =
     (if length s < 3 \<or> \<not> has_prefix s ''PT'' then ''1s''
      else let d = drop 2 s
           in if has_suffix d ''S'' then to_lower d
              else if has_suffix d ''M'' then to_lower d
              else if has_suffix d ''H'' then to_lower d
              else ''1s'')"

subsection \<open>Configuration blocks\<close>

text \<open>Copy a \<open>with\<close> block, renaming \<open>operationId\<close>.\<close>

fun copy_renaming :: "gmap \<Rightarrow> gmap \<Rightarrow> gmap" where
  "copy_renaming config [] = config"
| "copy_renaming config ((k, v) # m) =
     copy_renaming (put (if k = ''operationId'' then ''operation_id'' else k) v config) m"

definition build_call_config :: "gmap \<Rightarrow> gval \<Rightarrow> gmap" where
  "build_call_config t call_type =
     (let block = (case get_map t ''with'' of Some m \<Rightarrow> m | None \<Rightarrow> [])
      in case call_type of
           GStr ty \<Rightarrow>
             if ty = ''openapi'' then copy_renaming [(''call_type'', GStr ty)] block
             else merge_into [(''call_type'', GStr ty)] block
         | _ \<Rightarrow> merge_into [(''call_type'', GStr ''http'')] block)"

definition build_call_config_from_try :: "gmap \<Rightarrow> gval \<Rightarrow> gmap" where
  "build_call_config_from_try b call_type =
     (case call_type of
        GStr ty \<Rightarrow>
          if ty = ''openapi'' then
            (let config = copy_renaming [(''call_type'', GStr ty)]
                            (case get_map b ''with'' of Some m \<Rightarrow> m | None \<Rightarrow> [])
             in case map_of b ''output'' of
                  Some v \<Rightarrow> put ''output_config'' v config
                | None \<Rightarrow> config)
          else [(''call_type'', GStr ty)]
      | _ \<Rightarrow> [])"

definition build_try_config :: "gmap \<Rightarrow> gval \<Rightarrow> gmap" where
  "build_try_config t try_block =
     (''try'', try_block) # (case map_of t ''catch'' of Some c \<Rightarrow> [(''catch'', c)] | None \<Rightarrow> [])"

subsection \<open>Laws\<close>

lemma extract_ordered_task_list_nonempty: "extract_ordered_task_list d \<noteq> []"
  by (auto simp: extract_ordered_task_list_def extract_task_list_manual_def fallback_tasks_def
      split: option.splits)

text \<open>A definition whose tasks each stand in a map of one key, under distinct names.\<close>

definition task_items :: "(string \<times> gval) list \<Rightarrow> gval list" where
  "task_items ts = map (\<lambda>(k, b). GMap [(k, b)]) ts"

definition do_definition :: "workflow_definition \<Rightarrow> (string \<times> gval) list \<Rightarrow> bool" where
  "do_definition d ts \<longleftrightarrow>
     (\<exists>dsl. wd_dsl d = Some dsl \<and> get_list dsl ''do'' = Some (task_items ts)) \<and> ts \<noteq> []"

lemma task_names_items: "task_names (task_items ts) = map fst ts"
  by (induction ts) (auto simp: task_items_def first_key_def)

lemma extract_do_definition: "do_definition d ts \<Longrightarrow> extract_ordered_task_list d = map fst ts"
  by (auto simp: do_definition_def extract_ordered_task_list_def extract_task_list_manual_def
      task_names_items)

lemma task_type_items:
  "distinct (map fst ts) \<Longrightarrow> (name, GMap b) \<in> set ts \<Longrightarrow>
   task_type_in (task_items ts) name = (case recognised_type b of Some ty \<Rightarrow> ty | None \<Rightarrow> ''set'')"
proof (induction ts)
  case Nil
  then show ?case by simp
next
  case (Cons p ts)
  have skip: "name \<notin> fst ` set us \<Longrightarrow> task_type_in (task_items us) name = ''set''" for us :: "(string \<times> gval) list"
    by (induction us) (auto simp: task_items_def get_map_def)
  show ?case
  proof (cases "p = (name, GMap b)")
    case True
    with Cons.prems have "name \<notin> fst ` set ts" by auto
    with True skip show ?thesis
      by (auto simp: task_items_def get_map_def split: option.splits)
  next
    case False
    with Cons.prems have mem: "(name, GMap b) \<in> set ts" by auto
    then have "name \<in> fst ` set ts" by force
    with Cons.prems(1) have "fst p \<noteq> name" by auto
    with mem Cons show ?thesis by (cases p) (auto simp: task_items_def get_map_def)
  qed
qed

lemma to_lower_digits: "\<forall>c \<in> set s. is_digit c \<Longrightarrow> to_lower s = s"
  unfolding to_lower_def is_digit_def lower_char_def by (induction s) (auto simp: Let_def)

lemma iso_duration_unit:
  assumes "u \<in> {''S'', ''M'', ''H''}"
  shows "iso_to_go_duration (''PT'' @ nat_digits n @ u) = nat_digits n @ to_lower u"
proof -
  have "to_lower (nat_digits n @ u) = nat_digits n @ to_lower u"
    using to_lower_digits [of "nat_digits n"] nat_digits_are_digits [of n] by (simp add: to_lower_def)
  moreover have "has_suffix (nat_digits n @ u) u" by (auto simp: has_suffix_iff)
  moreover have "\<not> length (''PT'' @ nat_digits n @ u) < 3"
    using assms nat_digits_nonempty [of n] by (cases "nat_digits n") auto
  moreover have "has_prefix (''PT'' @ nat_digits n @ u) ''PT''" by (rule has_prefix_append)
  ultimately show ?thesis using assms by (auto simp: iso_to_go_duration_def Let_def)
qed

end
