(* ===== verification/Cloud_Events.thy ===== *)
theory Cloud_Events
  imports Go_Duration
begin

text \<open>
  The event envelope shared by all services
  (\<^verbatim>\<open>shared/pkg/cloudevents/cloudevents.go\<close>): the \<^verbatim>\<open>CloudEvent\<close> struct, its constructor and
  setters, validation, the copy used for dead letters, and the classification of event
  types.
\<close>

record cloud_event =
  ev_id :: string
  ev_source :: string
  ev_specversion :: string
  ev_type :: string
  ev_datacontenttype :: string
  ev_dataschema :: string
  ev_subject :: string
  ev_time :: time
  ev_ext :: "gmap option"
  ev_data :: gval
  ev_tenant :: string
  ev_workflow :: string
  ev_execution :: string
  ev_task :: string
  ev_correlation :: string

text \<open>The zero value of the struct: \<open>&CloudEvent{}\<close>.\<close>

definition empty_event :: cloud_event where
  "empty_event =
     \<lparr>ev_id = [], ev_source = [], ev_specversion = [], ev_type = [], ev_datacontenttype = [],
      ev_dataschema = [], ev_subject = [], ev_time = zero_time, ev_ext = None, ev_data = GNil,
      ev_tenant = [], ev_workflow = [], ev_execution = [], ev_task = [], ev_correlation = []\<rparr>"

definition new_cloud_event :: "time \<Rightarrow> string \<Rightarrow> string \<Rightarrow> string \<Rightarrow> cloud_event" where
  "new_cloud_event now i source etype =
     empty_event\<lparr>ev_id := i, ev_source := source, ev_specversion := ''1.0'', ev_type := etype,
       ev_time := now, ev_ext := Some []\<rparr>"

definition set_data :: "gval \<Rightarrow> cloud_event \<Rightarrow> cloud_event" where
  "set_data d e = e\<lparr>ev_data := d, ev_datacontenttype := ''application/json''\<rparr>"

definition set_workflow_context :: "string \<Rightarrow> string \<Rightarrow> string \<Rightarrow> cloud_event \<Rightarrow> cloud_event" where
  "set_workflow_context wid eid corr e =
     e\<lparr>ev_workflow := wid, ev_execution := eid, ev_correlation := corr\<rparr>"

definition set_task_context :: "string \<Rightarrow> cloud_event \<Rightarrow> cloud_event" where
  "set_task_context t e = e\<lparr>ev_task := t\<rparr>"

definition add_extension :: "string \<Rightarrow> gval \<Rightarrow> cloud_event \<Rightarrow> cloud_event" where
  "add_extension k v e =
     (let m = (case ev_ext e of None \<Rightarrow> [] | Some m \<Rightarrow> m) in e\<lparr>ev_ext := Some (put k v m)\<rparr>)"

definition get_extension :: "string \<Rightarrow> cloud_event \<Rightarrow> gval option" where
  "get_extension k e = (case ev_ext e of None \<Rightarrow> None | Some m \<Rightarrow> map_of m k)"

text \<open>\<open>e.Extensions[key].(string)\<close>; reading a nil map is reading an empty one.\<close>

definition ext_str :: "cloud_event \<Rightarrow> string \<Rightarrow> string option" where
  "ext_str e k = Option.bind (get_extension k e) as_str"

definition validate_event :: "cloud_event \<Rightarrow> (string \<times> string) option" where
  "validate_event e =
     (if ev_id e = [] then Some (''id'', ''required field is empty'')
      else if ev_source e = [] then Some (''source'', ''required field is empty'')
      else if ev_specversion e = [] then Some (''specversion'', ''required field is empty'')
      else if ev_type e = [] then Some (''type'', ''required field is empty'')
      else None)"

definition validation_message :: "string \<times> string \<Rightarrow> string" where
  "validation_message err =
     ''cloudevents: validation failed for field '' @ [CHR 0x27] @ fst err @ [CHR 0x27] @ '': '' @ snd err"

definition clone_event :: "cloud_event \<Rightarrow> cloud_event" where
  "clone_event e = e\<lparr>ev_ext := map_option (merge_into []) (ev_ext e)\<rparr>"

subsection \<open>Classification\<close>

definition workflow_types :: "string list" where
  "workflow_types = map (\<lambda>s. ''io.flunq.workflow.'' @ s)
     [''created'', ''started'', ''completed'', ''failed'', ''cancelled'', ''paused'', ''resumed'',
      ''deleted'']"

definition execution_types :: "string list" where
  "execution_types = map (\<lambda>s. ''io.flunq.execution.'' @ s)
     [''started'', ''completed'', ''failed'', ''cancelled'', ''paused'', ''resumed'']"

definition task_types :: "string list" where
  "task_types = map (\<lambda>s. ''io.flunq.task.'' @ s)
     [''scheduled'', ''started'', ''completed'', ''failed'', ''cancelled'', ''retried'', ''timedout'']"

definition step_types :: "string list" where
  "step_types = map (\<lambda>s. ''io.flunq.workflow.step.'' @ s)
     [''started'', ''completed'', ''failed'', ''skipped'']"

definition system_types :: "string list" where
  "system_types = map (\<lambda>s. ''io.flunq.system.'' @ s) [''healthcheck'', ''metrics'', ''alert'']"

definition is_workflow_event :: "cloud_event \<Rightarrow> bool" where
  "is_workflow_event e \<longleftrightarrow> ev_type e \<in> set workflow_types"

definition is_execution_event :: "cloud_event \<Rightarrow> bool" where
  "is_execution_event e \<longleftrightarrow> ev_type e \<in> set execution_types"

definition is_task_event :: "cloud_event \<Rightarrow> bool" where
  "is_task_event e \<longleftrightarrow> ev_type e \<in> set task_types"

definition get_event_category :: "cloud_event \<Rightarrow> string" where
  "get_event_category e =
     (if is_workflow_event e then ''workflow''
      else if is_execution_event e then ''execution''
      else if is_task_event e then ''task''
      else if ev_type e \<in> set step_types then ''step''
      else if ev_type e \<in> set system_types then ''system''
      else ''unknown'')"

subsection \<open>Laws\<close>

lemma get_add_extension: "get_extension k' (add_extension k v e) = (if k' = k then Some v else get_extension k' e)"
  by (simp add: get_extension_def add_extension_def map_of_put split: option.splits)

lemma clone_keeps:
  assumes "\<And>m. ev_ext e = Some m \<Longrightarrow> distinct (map fst m)"
  shows "get_extension k (clone_event e) = get_extension k e"
  using assms
  by (cases "ev_ext e") (auto simp: get_extension_def clone_event_def map_of_merge_into split: option.splits)

lemma clone_fields [simp]:
  "ev_id (clone_event e) = ev_id e" "ev_type (clone_event e) = ev_type e"
  "ev_data (clone_event e) = ev_data e" "ev_workflow (clone_event e) = ev_workflow e"
  "ev_execution (clone_event e) = ev_execution e" "ev_task (clone_event e) = ev_task e"
  "ev_tenant (clone_event e) = ev_tenant e" "ev_source (clone_event e) = ev_source e"
  "ev_specversion (clone_event e) = ev_specversion e" "ev_time (clone_event e) = ev_time e"
  by (simp_all add: clone_event_def)

lemma add_extension_fields [simp]:
  "ev_id (add_extension k v e) = ev_id e" "ev_type (add_extension k v e) = ev_type e"
  "ev_data (add_extension k v e) = ev_data e" "ev_workflow (add_extension k v e) = ev_workflow e"
  "ev_execution (add_extension k v e) = ev_execution e" "ev_task (add_extension k v e) = ev_task e"
  "ev_tenant (add_extension k v e) = ev_tenant e" "ev_source (add_extension k v e) = ev_source e"
  "ev_specversion (add_extension k v e) = ev_specversion e" "ev_time (add_extension k v e) = ev_time e"
  by (simp_all add: add_extension_def)

lemma validate_event_None:
  "validate_event e = None \<longleftrightarrow>
     ev_id e \<noteq> [] \<and> ev_source e \<noteq> [] \<and> ev_specversion e \<noteq> [] \<and> ev_type e \<noteq> []"
  by (simp add: validate_event_def)

lemma new_event_valid:
  "i \<noteq> [] \<Longrightarrow> source \<noteq> [] \<Longrightarrow> etype \<noteq> [] \<Longrightarrow> validate_event (new_cloud_event now i source etype) = None"
  by (simp add: validate_event_None new_cloud_event_def)

end
