(* ===== verification/Event_Stream.thy ===== *)
theory Event_Stream
  imports Cloud_Events
begin

text \<open>
  The event stream over Redis Streams (\<^verbatim>\<open>shared/pkg/eventstreaming/redis_stream.go\<close>): the
  stream key of an event, the fields a published event is written as, the two parsers that
  read a message back (one for history, one for subscriptions), the history of a workflow,
  the subscription filter and the acknowledgement keys.

  The Redis server is not part of the repository. Its answers are arguments of the
  definitions that use them: the stream keys that \<^verbatim>\<open>KEYS\<close> returns, the messages that
  \<^verbatim>\<open>XRANGE\<close> returns for a key (or its failure), and whether \<^verbatim>\<open>XADD\<close> succeeds. The locale
  \<open>event_log\<close> (theory \<open>Event_Log\<close>) states what readers of the log rely on.

  The text of the data field is represented by the value it decodes to.
\<close>

datatype json_text = JEmpty | JInvalid | JValue gval

record message =
  msg_id :: string
  msg_fields :: "(string \<times> string) list"
  msg_data :: "json_text option"

subsection \<open>Publishing\<close>

definition get_stream_key :: "cloud_event \<Rightarrow> string" where
  "get_stream_key e =
     (let tenant = (if ev_tenant e = [] then ''default'' else ev_tenant e);
          workflow = (if ev_workflow e \<noteq> [] then ev_workflow e else ''default'')
      in ''tenant:'' @ tenant @ '':workflow:'' @ workflow @ '':events'')"

definition event_fields :: "cloud_event \<Rightarrow> (string \<times> string) list" where
  "event_fields e =
     [(''id'', ev_id e), (''source'', ev_source e), (''specversion'', ev_specversion e),
      (''type'', ev_type e), (''time'', format_rfc3339 (ev_time e))] @
     (if ev_workflow e \<noteq> [] then [(''workflowid'', ev_workflow e)] else []) @
     (if ev_execution e \<noteq> [] then [(''executionid'', ev_execution e)] else []) @
     (if ev_task e \<noteq> [] then [(''taskid'', ev_task e)] else []) @
     (if ev_tenant e \<noteq> [] then [(''tenantid'', ev_tenant e)] else [])"

text \<open>The message an event becomes under the id \<^verbatim>\<open>XADD\<close> gives it.\<close>

definition encode_event :: "string \<Rightarrow> cloud_event \<Rightarrow> (string, message) result" where
  "encode_event mid e =
     (if ev_data e = GNil
      then Inr \<lparr>msg_id = mid, msg_fields = event_fields e, msg_data = None\<rparr>
      else (case to_wire (ev_data e) of
              None \<Rightarrow> Inl ''failed to marshal event data''
            | Some w \<Rightarrow> Inr \<lparr>msg_id = mid, msg_fields = event_fields e, msg_data = Some (JValue w)\<rparr>))"

text \<open>\<open>Publish\<close>: the key and message handed to \<^verbatim>\<open>XADD\<close>, or the error returned.\<close>

definition publish :: "bool \<Rightarrow> string \<Rightarrow> cloud_event \<Rightarrow> (string, string \<times> message) result" where
  "publish xadd_ok mid e =
     bind_res (encode_event mid e) (\<lambda>m.
       if xadd_ok then Inr (get_stream_key e, m)
       else Inl ''failed to publish event to Redis Stream'')"

subsection \<open>Reading\<close>

definition field_or :: "string \<Rightarrow> message \<Rightarrow> string \<Rightarrow> string" where
  "field_or d m k = (case map_of (msg_fields m) k of None \<Rightarrow> d | Some s \<Rightarrow> s)"

definition parse_time_field :: "message \<Rightarrow> time" where
  "parse_time_field m =
     (case Option.bind (map_of (msg_fields m) ''time'') parse_rfc3339 of
        None \<Rightarrow> zero_time | Some t \<Rightarrow> t)"

text \<open>The attributes, as both parsers read them.\<close>

definition parse_attributes :: "message \<Rightarrow> cloud_event" where
  "parse_attributes m =
     empty_event\<lparr>ev_id := field_or [] m ''id'', ev_source := field_or [] m ''source'',
       ev_specversion := field_or [] m ''specversion'', ev_type := field_or [] m ''type'',
       ev_time := parse_time_field m, ev_workflow := field_or [] m ''workflowid'',
       ev_execution := field_or [] m ''executionid'', ev_task := field_or [] m ''taskid'',
       ev_tenant := field_or [] m ''tenantid''\<rparr>"

text \<open>\<open>parseRedisMessage\<close> (history): bad data is an error, any JSON value is data.\<close>

definition parse_redis_message :: "message \<Rightarrow> (string, cloud_event) result" where
  "parse_redis_message m =
     (let e = parse_attributes m
      in case msg_data m of
           None \<Rightarrow> Inr e
         | Some JEmpty \<Rightarrow> Inr e
         | Some JInvalid \<Rightarrow> Inl ''failed to unmarshal event data''
         | Some (JValue v) \<Rightarrow> Inr (e\<lparr>ev_data := v\<rparr>))"

text \<open>\<open>parseMessage\<close> (subscription): data must be an object; anything else is dropped.\<close>

definition parse_message :: "message \<Rightarrow> cloud_event" where
  "parse_message m =
     (let e = parse_attributes m
      in case msg_data m of
           Some (JValue (GMap d)) \<Rightarrow> e\<lparr>ev_data := GMap d\<rparr>
         | Some (JValue GNil) \<Rightarrow> e\<lparr>ev_data := GMap []\<rparr>
         | _ \<Rightarrow> e)"

text \<open>The messages of one stream that are events of the workflow; a message that does not
  parse is skipped.\<close>

fun stream_events :: "string \<Rightarrow> message list \<Rightarrow> cloud_event list" where
  "stream_events wid [] = []"
| "stream_events wid (m # ms) =
     (case parse_redis_message m of
        Inl _ \<Rightarrow> stream_events wid ms
      | Inr e \<Rightarrow> if ev_workflow e = wid then e # stream_events wid ms else stream_events wid ms)"

text \<open>\<open>GetEventHistory\<close>: the answer of \<^verbatim>\<open>KEYS\<close> for the workflow's pattern, then every
  stream in that order; a stream that cannot be read is skipped.\<close>

definition history_pattern :: "string \<Rightarrow> string" where
  "history_pattern wid = ''tenant:*:workflow:'' @ wid @ '':events''"

fun read_streams :: "(string \<Rightarrow> message list option) \<Rightarrow> string \<Rightarrow> string list \<Rightarrow> cloud_event list" where
  "read_streams xrange wid [] = []"
| "read_streams xrange wid (k # ks) =
     (case xrange k of
        None \<Rightarrow> read_streams xrange wid ks
      | Some ms \<Rightarrow> stream_events wid ms @ read_streams xrange wid ks)"

definition get_event_history ::
  "(string \<Rightarrow> string list option) \<Rightarrow> (string \<Rightarrow> message list option) \<Rightarrow> string \<Rightarrow>
   (string, cloud_event list) result" where
  "get_event_history keys xrange wid =
     (case keys (history_pattern wid) of
        None \<Rightarrow> Inl ''failed to discover streams for workflow''
      | Some ks \<Rightarrow> Inr (read_streams xrange wid ks))"

subsection \<open>Subscriptions\<close>

record stream_filters =
  flt_types :: "string list"
  flt_workflows :: "string list"
  flt_sources :: "string list"

definition should_process_event :: "stream_filters \<Rightarrow> cloud_event \<Rightarrow> bool" where
  "should_process_event f e \<longleftrightarrow>
     (flt_types f = [] \<or> list_ex (\<lambda>t. ev_type e = t) (flt_types f)) \<and>
     (flt_workflows f = [] \<or> list_ex (\<lambda>w. ev_workflow e = w) (flt_workflows f)) \<and>
     (flt_sources f = [] \<or> list_ex (\<lambda>s. ev_source e = s) (flt_sources f))"

definition ack_key :: "string \<Rightarrow> string \<Rightarrow> string" where
  "ack_key stream mid = stream @ ''|'' @ mid"

text \<open>What the subscription does with a message: hand the event over with its
  acknowledgement data attached, or acknowledge it at once.\<close>

datatype delivery = Deliver cloud_event | AckNow string string

definition receive_message :: "stream_filters \<Rightarrow> string \<Rightarrow> message \<Rightarrow> delivery" where
  "receive_message f stream m =
     (let e = parse_message m
      in if should_process_event f e
         then Deliver (add_extension ''redis_msg_id'' (GStr (msg_id m))
                (add_extension ''redis_stream'' (GStr stream)
                  (add_extension ''ack_key'' (GStr (ack_key stream (msg_id m))) e)))
         else AckNow stream (msg_id m))"

text \<open>\<open>Acknowledge\<close>: the stream and message id that \<^verbatim>\<open>XACK\<close> is called with.\<close>

definition ack_target :: "string \<Rightarrow> string \<times> string" where
  "ack_target key =
     (if contains key ''|''
      then (case split_n2 (CHR ''|'') key of [s, i] \<Rightarrow> (s, i) | _ \<Rightarrow> (''events:global'', key))
      else (''events:global'', key))"

text \<open>The streams the two maintenance operations work on.\<close>

definition reclaim_stream :: string where "reclaim_stream = ''events:global''"

definition reclaim_pending :: "(string \<Rightarrow> (string, message list) result) \<Rightarrow> (string, nat) result" where
  "reclaim_pending xautoclaim = bind_res (xautoclaim reclaim_stream) (\<lambda>ms. Inr (length ms))"

subsection \<open>What a reader sees of a published event\<close>

text \<open>The event after a trip through the stream: the attributes that have a field, the time
  in whole seconds, the data in wire form, everything else empty.\<close>

definition wire_event :: "gval \<Rightarrow> cloud_event \<Rightarrow> cloud_event" where
  "wire_event w e =
     empty_event\<lparr>ev_id := ev_id e, ev_source := ev_source e, ev_specversion := ev_specversion e,
       ev_type := ev_type e, ev_time := whole_seconds (ev_time e), ev_data := w,
       ev_tenant := ev_tenant e, ev_workflow := ev_workflow e, ev_execution := ev_execution e,
       ev_task := ev_task e\<rparr>"

lemma wire_event_fields [simp]:
  "ev_id (wire_event w e) = ev_id e" "ev_source (wire_event w e) = ev_source e"
  "ev_specversion (wire_event w e) = ev_specversion e" "ev_type (wire_event w e) = ev_type e"
  "ev_time (wire_event w e) = whole_seconds (ev_time e)" "ev_data (wire_event w e) = w"
  "ev_tenant (wire_event w e) = ev_tenant e" "ev_workflow (wire_event w e) = ev_workflow e"
  "ev_execution (wire_event w e) = ev_execution e" "ev_task (wire_event w e) = ev_task e"
  "ev_ext (wire_event w e) = None" "ev_correlation (wire_event w e) = []"
  "ev_datacontenttype (wire_event w e) = []" "ev_dataschema (wire_event w e) = []"
  "ev_subject (wire_event w e) = []"
  by (simp_all add: wire_event_def empty_event_def)

lemma parse_attributes_encoded:
  assumes "rfc3339_range (ev_time e)"
  shows "parse_attributes \<lparr>msg_id = mid, msg_fields = event_fields e, msg_data = x\<rparr> = wire_event GNil e"
  using parse_format_in_range [OF assms]
  by (simp add: parse_attributes_def parse_time_field_def field_or_def event_fields_def
      wire_event_def empty_event_def)

lemma encode_event_Inr:
  "encode_event mid e = Inr m \<longleftrightarrow>
     (\<exists>w. to_wire (ev_data e) = Some w \<and> m =
       \<lparr>msg_id = mid, msg_fields = event_fields e,
        msg_data = (if ev_data e = GNil then None else Some (JValue w))\<rparr>)"
  by (auto simp: encode_event_def split: option.splits)

lemma publish_Inr:
  "publish ok mid e = Inr (k, m) \<longleftrightarrow> ok \<and> k = get_stream_key e \<and> encode_event mid e = Inr m"
  by (auto simp: publish_def bind_res_eq_Inr)

lemma parse_encoded:
  assumes "rfc3339_range (ev_time e)" and "encode_event mid e = Inr m" and "to_wire (ev_data e) = Some w"
  shows "parse_redis_message m = Inr (wire_event w e)"
  using assms parse_attributes_encoded [OF assms(1)]
  by (auto simp: encode_event_Inr parse_redis_message_def wire_event_def empty_event_def)

lemma receive_encoded:
  assumes "rfc3339_range (ev_time e)" and "encode_event mid e = Inr m" and "to_wire (ev_data e) = Some (GMap d)"
  shows "parse_message m = wire_event (GMap d) e"
  using assms parse_attributes_encoded [OF assms(1)]
  by (auto simp: encode_event_Inr parse_message_def wire_event_def empty_event_def)

lemma get_stream_key_inject:
  assumes "get_stream_key a = get_stream_key b" and "ev_workflow a = ev_workflow b"
    and "ev_tenant a \<noteq> []" and "ev_tenant b \<noteq> []"
  shows "ev_tenant a = ev_tenant b"
  using assms by (auto simp: get_stream_key_def Let_def split: if_splits)

lemma ack_target_key: "CHR ''|'' \<notin> set stream \<Longrightarrow> ack_target (ack_key stream mid) = (stream, mid)"
  by (simp add: ack_target_def ack_key_def contains_char split_n2_append)

end
