(* ===== verification/Engine_State.thy ===== *)
theory Engine_State
  imports Engine_DSL Event_Stream
begin

text \<open>
  The state of a running workflow (the protobuf messages of
  \<^verbatim>\<open>worker/proto/workflow_events.proto\<close>) and the event handlers of the engine that only change
  the state (\<^verbatim>\<open>serverless_workflow_engine.go\<close>). The code stores one protobuf struct under two
  names when a task completes (\<^verbatim>\<open>state.Output = state.Variables\<close>), so that later changes of
  the variables show in the output; \<open>OutVars\<close> is that shared pointer.
\<close>

datatype workflow_status =
  WUnspecified | WCreated | WRunning | WCompleted | WFailed | WCancelled | WSuspended | WWaiting

datatype task_status =
  TUnspecified | TPending | TRunning | TCompleted | TFailed | TCancelled | TRetrying

record task_metadata =
  tm_started :: "time option"
  tm_completed :: "time option"
  tm_duration_ms :: int
  tm_status :: task_status
  tm_error :: string
  tm_type :: string
  tm_queue :: string

record task_data =
  td_input :: "gmap option"
  td_output :: "gmap option"
  td_meta :: task_metadata

record completed_task =
  ct_name :: string
  ct_data :: task_data

record pending_task =
  pt_name :: string
  pt_input :: "gmap option"
  pt_type :: string
  pt_queue :: string
  pt_activity :: string
  pt_created :: "time option"

record execution_context =
  ec_execution :: string
  ec_correlation :: string
  ec_trigger :: string
  ec_tenant :: string

datatype output_ref = OutNil | OutVars | OutStruct gmap

record workflow_state =
  ws_workflow :: string
  ws_step :: string
  ws_status :: workflow_status
  ws_vars :: "gmap option"
  ws_input :: "gmap option"
  ws_output :: output_ref
  ws_context :: "execution_context option"
  ws_completed :: "completed_task list"
  ws_pending :: "pending_task list"
  ws_created :: "time option"
  ws_updated :: "time option"

definition output_value :: "workflow_state \<Rightarrow> gmap option" where
  "output_value s =
     (case ws_output s of OutNil \<Rightarrow> None | OutVars \<Rightarrow> ws_vars s | OutStruct m \<Rightarrow> Some m)"

subsection \<open>Struct helpers\<close>

text \<open>\<open>val, _ := structpb.NewValue(v)\<close>: on an error the entry holds a nil value.\<close>

definition value_or_nil :: "gval \<Rightarrow> gval" where
  "value_or_nil v = (case to_wire v of Some w \<Rightarrow> w | None \<Rightarrow> GNil)"

text \<open>The variables, created empty when they are nil.\<close>

definition vars_of :: "workflow_state \<Rightarrow> gmap" where
  "vars_of s = (case ws_vars s of Some m \<Rightarrow> m | None \<Rightarrow> [])"

fun put_values :: "gmap \<Rightarrow> gmap \<Rightarrow> gmap" where
  "put_values dst [] = dst"
| "put_values dst ((k, v) # m) = put_values (put k (value_or_nil v) dst) m"

definition map_to_struct :: "gval \<Rightarrow> gmap option" where
  "map_to_struct v = (case v of GMap m \<Rightarrow> wire_map m | _ \<Rightarrow> None)"

definition str_or_empty :: "string option \<Rightarrow> string" where
  "str_or_empty x = (case x of Some s \<Rightarrow> s | None \<Rightarrow> [])"

subsection \<open>Initial states\<close>

definition initialize_state ::
  "time \<Rightarrow> workflow_definition \<Rightarrow> gmap \<Rightarrow> (string, workflow_state) result" where
  "initialize_state now d input =
     (case wire_map input of
        None \<Rightarrow> Inl ''failed to convert input to protobuf struct''
      | Some m \<Rightarrow> Inr
          \<lparr>ws_workflow = wd_id d, ws_step = wd_start_state d, ws_status = WCreated,
           ws_vars = wire_map (merge_into [] input), ws_input = Some m, ws_output = OutNil,
           ws_context = None, ws_completed = [], ws_pending = [],
           ws_created = Some now, ws_updated = Some now\<rparr>)"

text \<open>The state \<open>RebuildState\<close> starts from.\<close>

definition empty_state :: "workflow_definition \<Rightarrow> workflow_state" where
  "empty_state d =
     \<lparr>ws_workflow = wd_id d, ws_step = [], ws_status = WCreated, ws_vars = None, ws_input = None,
      ws_output = OutNil, ws_context = None, ws_completed = [], ws_pending = [],
      ws_created = None, ws_updated = None\<rparr>"

subsection \<open>Handlers\<close>

definition process_workflow_created :: "workflow_state \<Rightarrow> cloud_event \<Rightarrow> workflow_state" where
  "process_workflow_created s e =
     (let s1 = s\<lparr>ws_status := WCreated, ws_created := Some (ev_time e), ws_updated := Some (ev_time e)\<rparr>
      in case ev_data e of
           GMap d \<Rightarrow>
             (case get_str d ''name'' of
                Some n \<Rightarrow> s1\<lparr>ws_vars := Some (put ''workflow_name'' (GStr n) (vars_of s1))\<rparr>
              | None \<Rightarrow> s1)
         | _ \<Rightarrow> s1)"

definition process_execution_started :: "workflow_state \<Rightarrow> cloud_event \<Rightarrow> workflow_state" where
  "process_execution_started s e =
     (let s1 = s\<lparr>ws_status := WRunning,
                 ws_workflow := (if ev_workflow e \<noteq> [] then ev_workflow e else ws_workflow s)\<rparr>;
          s2 =
            (case ev_data e of
               GMap d \<Rightarrow>
                 (let ctx = \<lparr>ec_execution = ev_execution e,
                             ec_correlation = str_or_empty (get_str d ''correlation_id''),
                             ec_trigger = str_or_empty (get_str d ''started_by''),
                             ec_tenant = ev_tenant e\<rparr>;
                      s' = s1\<lparr>ws_context := Some ctx\<rparr>
                  in case get_map d ''input'' of
                       Some m \<Rightarrow> s'\<lparr>ws_input := wire_map m, ws_vars := Some (put_values (vars_of s') m)\<rparr>
                     | None \<Rightarrow> s')
             | _ \<Rightarrow> s1)
      in s2\<lparr>ws_updated := Some (ev_time e)\<rparr>)"

definition process_task_requested :: "workflow_state \<Rightarrow> cloud_event \<Rightarrow> workflow_state" where
  "process_task_requested s e =
     (let s1 =
            (case ev_data e of
               GMap d \<Rightarrow>
                 s\<lparr>ws_pending := ws_pending s @
                     [\<lparr>pt_name = str_or_empty (get_str d ''task_name''),
                       pt_input = Option.bind (get_map d ''input'') wire_map,
                       pt_type = str_or_empty (get_str d ''task_type''),
                       pt_queue = str_or_empty (get_str d ''queue''),
                       pt_activity = str_or_empty (get_str d ''activity_name''),
                       pt_created = Some (ev_time e)\<rparr>]\<rparr>
             | _ \<Rightarrow> s)
      in s1\<lparr>ws_updated := Some (ev_time e)\<rparr>)"

text \<open>The task name of a completion: top level, then \<open>data\<close>, then \<open>event\<close>; an empty
  string counts as absent.\<close>

definition completed_task_name :: "gmap \<Rightarrow> string" where
  "completed_task_name d =
     (let top = str_or_empty (get_str d ''task_name'');
          nested = (\<lambda>k. case get_map d k of Some m \<Rightarrow> str_or_empty (get_str m ''task_name'') | None \<Rightarrow> [])
      in if top \<noteq> [] then top else if nested ''data'' \<noteq> [] then nested ''data'' else nested ''event'')"

definition task_success :: "gmap \<Rightarrow> bool" where
  "task_success d = (case get_bool d ''success'' of Some b \<Rightarrow> b | None \<Rightarrow> True)"

definition task_data_of_event :: "time \<Rightarrow> gmap \<Rightarrow> task_data" where
  "task_data_of_event t d =
     (let meta = \<lparr>tm_started = None, tm_completed = Some t, tm_duration_ms = 0, tm_status = TCompleted,
                  tm_error = [], tm_type = [], tm_queue = []\<rparr>
      in case get_map d ''data'' of
           Some td \<Rightarrow>
             \<lparr>td_input = map_to_struct (get_any td ''input''),
              td_output = map_to_struct (get_any td ''output''),
              td_meta =
                (case get_map td ''metadata'' of
                   None \<Rightarrow> meta
                 | Some m \<Rightarrow>
                     meta\<lparr>tm_started := Option.bind (get_str m ''started_at'') parse_rfc3339,
                          tm_duration_ms :=
                            (case get_float m ''duration_ms'' of Some r \<Rightarrow> int64_of_f64 r | None \<Rightarrow> 0),
                          tm_type := str_or_empty (get_str m ''task_type'')\<rparr>)\<rparr>
         | None \<Rightarrow> \<lparr>td_input = None, td_output = None, td_meta = meta\<rparr>)"

definition fail_task :: "workflow_state \<Rightarrow> string \<Rightarrow> string \<Rightarrow> workflow_state" where
  "fail_task s name msg =
     s\<lparr>ws_status := WFailed,
       ws_vars := Some (put ''failed_task'' (GStr name) (put ''error_message'' (GStr msg) (vars_of s)))\<rparr>"

definition complete_task :: "workflow_state \<Rightarrow> string \<Rightarrow> task_data \<Rightarrow> workflow_state" where
  "complete_task s name td =
     (let s1 = s\<lparr>ws_pending := remove_first (\<lambda>p. pt_name p = name) (ws_pending s)\<rparr>;
          s2 = (case td_output td of
                  Some out \<Rightarrow> s1\<lparr>ws_vars := Some (merge_into (vars_of s1) out)\<rparr>
                | None \<Rightarrow> s1);
          s3 = (if list_ex (\<lambda>c. ct_name c = name) (ws_completed s2) then s2
                else s2\<lparr>ws_completed := ws_completed s2 @ [\<lparr>ct_name = name, ct_data = td\<rparr>]\<rparr>)
      in if ws_vars s3 \<noteq> None then s3\<lparr>ws_output := OutVars\<rparr> else s3)"

definition process_task_completed :: "workflow_state \<Rightarrow> cloud_event \<Rightarrow> workflow_state" where
  "process_task_completed s e =
     (let s1 =
            (case ev_data e of
               GMap d \<Rightarrow>
                 if task_success d
                 then complete_task s (completed_task_name d) (task_data_of_event (ev_time e) d)
                 else fail_task s (completed_task_name d) (str_or_empty (get_str d ''error''))
             | _ \<Rightarrow> s)
      in s1\<lparr>ws_updated := Some (ev_time e)\<rparr>)"

definition process_step_completed :: "workflow_state \<Rightarrow> cloud_event \<Rightarrow> workflow_state" where
  "process_step_completed s e =
     (let s1 =
            (case ev_data e of
               GMap d \<Rightarrow>
                 (let s' = (case get_str d ''step_name'' of Some n \<Rightarrow> s\<lparr>ws_step := n\<rparr> | None \<Rightarrow> s)
                  in case map_of d ''result'' of
                       Some r \<Rightarrow> s'\<lparr>ws_vars := Some (put ''last_step_result'' (value_or_nil r) (vars_of s'))\<rparr>
                     | None \<Rightarrow> s')
             | _ \<Rightarrow> s)
      in s1\<lparr>ws_updated := Some (ev_time e)\<rparr>)"

definition process_workflow_completed :: "workflow_state \<Rightarrow> cloud_event \<Rightarrow> workflow_state" where
  "process_workflow_completed s e =
     (let s1 = s\<lparr>ws_status := WCompleted\<rparr>;
          s2 =
            (case ev_data e of
               GMap d \<Rightarrow>
                 (case get_map d ''output'' of
                    Some m \<Rightarrow> s1\<lparr>ws_output := (case wire_map m of Some w \<Rightarrow> OutStruct w | None \<Rightarrow> OutNil)\<rparr>
                  | None \<Rightarrow> s1)
             | _ \<Rightarrow> s1)
      in s2\<lparr>ws_updated := Some (ev_time e)\<rparr>)"

definition process_workflow_failed :: "workflow_state \<Rightarrow> cloud_event \<Rightarrow> workflow_state" where
  "process_workflow_failed s e =
     (let s1 = s\<lparr>ws_status := WFailed\<rparr>;
          s2 =
            (case ev_data e of
               GMap d \<Rightarrow>
                 (let v1 = (case map_of d ''error'' of
                              Some x \<Rightarrow> put ''error_message'' (value_or_nil x) (vars_of s1)
                            | None \<Rightarrow> vars_of s1);
                      v2 = (case map_of d ''error_code'' of
                              Some x \<Rightarrow> put ''error_code'' (value_or_nil x) v1
                            | None \<Rightarrow> v1)
                  in s1\<lparr>ws_vars := Some v2\<rparr>)
             | _ \<Rightarrow> s1)
      in s2\<lparr>ws_updated := Some (ev_time e)\<rparr>)"

end
