(* ===== verification/Engine_Events.thy ===== *)
theory Engine_Events
  imports Engine_State
begin

text \<open>
  The event handlers of the engine that publish events (failed tasks, retry timers), the
  dispatch on the event type, and the reconstruction of a state from a history
  (\<^verbatim>\<open>ProcessEvent\<close> and \<^verbatim>\<open>RebuildState\<close> of \<^verbatim>\<open>serverless_workflow_engine.go\<close>).

  Arguments that stand for the environment: \<open>pub\<close> gives the error of publishing an event,
  if any; \<open>now\<close> is the clock (one reading per handler); \<open>fmt\<close> prints a value that is not
  a string (\<^verbatim>\<open>fmt.Sprintf("%v", v)\<close>).
\<close>

type_synonym publisher = "cloud_event \<Rightarrow> string option"
type_synonym 'a effect = "(cloud_event, 'a) eff"

definition context_ids :: "workflow_state \<Rightarrow> string \<times> string" where
  "context_ids s = (case ws_context s of None \<Rightarrow> ([], []) | Some c \<Rightarrow> (ec_tenant c, ec_execution c))"

definition unix_seconds :: "time \<Rightarrow> int" where
  "unix_seconds t = t div second"

subsection \<open>Failed tasks\<close>

definition workflow_failed_event :: "time \<Rightarrow> workflow_state \<Rightarrow> string \<Rightarrow> string \<Rightarrow> cloud_event" where
  "workflow_failed_event now s name msg =
     empty_event\<lparr>ev_type := ''io.flunq.workflow.failed'', ev_source := ''worker-service'',
       ev_workflow := ws_workflow s, ev_time := now,
       ev_data := GMap [(''workflow_id'', GStr (ws_workflow s)), (''failed_task'', GStr name),
                        (''error'', GStr msg), (''final_status'', GStr ''failed'')]\<rparr>"

definition handle_failure_without_try ::
  "publisher \<Rightarrow> time \<Rightarrow> workflow_state \<Rightarrow> cloud_event \<Rightarrow> string \<Rightarrow> string \<Rightarrow> workflow_state effect" where
  "handle_failure_without_try pub now s e name msg =
     (let s1 = s\<lparr>ws_status := WFailed, ws_updated := Some (ev_time e)\<rparr>
      in bind_eff (send pub (workflow_failed_event now s1 name msg)) (\<lambda>_. ret s1))"

definition error_matches_catch :: "gmap \<Rightarrow> int \<Rightarrow> bool" where
  "error_matches_catch catch_config code =
     (case get_map catch_config ''errors'' of
        None \<Rightarrow> True
      | Some errs \<Rightarrow>
          (case Option.bind (get_map errs ''with'') (\<lambda>w. get_float w ''status'') of
             Some expected \<Rightarrow> code = int64_of_f64 expected
           | None \<Rightarrow> False))"

definition current_attempt_count :: "workflow_state \<Rightarrow> string \<Rightarrow> nat" where
  "current_attempt_count s name = length (filter (\<lambda>c. ct_name c = name) (ws_completed s))"

definition retry_timer_event ::
  "time \<Rightarrow> workflow_state \<Rightarrow> string \<Rightarrow> int \<Rightarrow> int \<Rightarrow> string \<Rightarrow> cloud_event" where
  "retry_timer_event now s name attempt delay msg =
     (let tid = ''retry-'' @ name @ ''-'' @ itoa attempt @ ''-'' @ itoa (unix_seconds now)
      in empty_event\<lparr>ev_type := ''io.flunq.timer.requested'', ev_source := ''worker-service'',
           ev_workflow := ws_workflow s, ev_task := tid, ev_time := now,
           ev_data := GMap [(''timer_id'', GStr tid), (''workflow_id'', GStr (ws_workflow s)),
             (''delay_seconds'', GInt delay), (''retry_type'', GStr ''task_retry''),
             (''original_task_name'', GStr name), (''attempt_count'', GInt attempt),
             (''original_error'', GStr msg)]\<rparr>)"

definition schedule_retry_timer ::
  "publisher \<Rightarrow> time \<Rightarrow> workflow_state \<Rightarrow> string \<Rightarrow> int \<Rightarrow> int \<Rightarrow> string \<Rightarrow> workflow_state effect" where
  "schedule_retry_timer pub now s name attempt delay msg =
     bind_eff (send pub (retry_timer_event now s name attempt delay msg)) (\<lambda>_. ret s)"

definition retry_max_attempts :: "gmap \<Rightarrow> int" where
  "retry_max_attempts attempt_config =
     (case get_float attempt_config ''count'' of Some r \<Rightarrow> int64_of_f64 r | None \<Rightarrow> 3)"

definition retry_delay_seconds :: "gmap \<Rightarrow> int" where
  "retry_delay_seconds retry_config =
     (case Option.bind (get_map retry_config ''delay'') (\<lambda>d. get_float d ''seconds'') of
        Some r \<Rightarrow> int64_of_f64 r | None \<Rightarrow> 3)"

definition schedule_task_retry ::
  "publisher \<Rightarrow> time \<Rightarrow> workflow_state \<Rightarrow> cloud_event \<Rightarrow> string \<Rightarrow> gmap \<Rightarrow> string \<Rightarrow> workflow_state effect" where
  "schedule_task_retry pub now s e name retry_config msg =
     (case Option.bind (get_map retry_config ''limit'') (\<lambda>l. get_map l ''attempt'') of
        None \<Rightarrow> handle_failure_without_try pub now s e name msg
      | Some attempt_config \<Rightarrow>
          if retry_max_attempts attempt_config \<le> int (current_attempt_count s name)
          then handle_failure_without_try pub now s e name msg
          else schedule_retry_timer pub now s name (int (current_attempt_count s name) + 1)
                 (retry_delay_seconds retry_config) msg)"

definition handle_failure_with_try ::
  "publisher \<Rightarrow> time \<Rightarrow> workflow_state \<Rightarrow> cloud_event \<Rightarrow> string \<Rightarrow> gmap \<Rightarrow> int \<Rightarrow> string \<Rightarrow>
   workflow_state effect" where
  "handle_failure_with_try pub now s e name config code msg =
     (case get_map config ''catch'' of
        None \<Rightarrow> handle_failure_without_try pub now s e name msg
      | Some catch_config \<Rightarrow>
          if \<not> error_matches_catch catch_config code
          then handle_failure_without_try pub now s e name msg
          else (case get_map catch_config ''retry'' of
                  None \<Rightarrow> handle_failure_without_try pub now s e name msg
                | Some retry_config \<Rightarrow> schedule_task_retry pub now s e name retry_config msg))"

text \<open>The first pending task of that name that carries a try/catch configuration.\<close>

fun try_catch_config_in :: "pending_task list \<Rightarrow> string \<Rightarrow> gmap option" where
  "try_catch_config_in [] name = None"
| "try_catch_config_in (p # ps) name =
     (case (if pt_name p = name then Option.bind (pt_input p) (\<lambda>m. get_map m ''try_catch_config'')
            else None) of
        Some c \<Rightarrow> Some c
      | None \<Rightarrow> try_catch_config_in ps name)"

definition sprint_value :: "(gval \<Rightarrow> string) \<Rightarrow> gval \<Rightarrow> string" where
  "sprint_value fmt v = (case v of GStr s \<Rightarrow> s | _ \<Rightarrow> fmt v)"

definition process_task_failed ::
  "publisher \<Rightarrow> (gval \<Rightarrow> string) \<Rightarrow> time \<Rightarrow> workflow_state \<Rightarrow> cloud_event \<Rightarrow> workflow_state effect" where
  "process_task_failed pub fmt now s e =
     (case ev_data e of
        GMap d \<Rightarrow>
          (case get_str d ''task_name'' of
             None \<Rightarrow> throw ''task failed event missing task_name''
           | Some name \<Rightarrow>
               (let msg = (case map_of d ''error'' of Some v \<Rightarrow> sprint_value fmt v | None \<Rightarrow> []);
                    code = (case get_float d ''status_code'' of Some r \<Rightarrow> int64_of_f64 r | None \<Rightarrow> 0)
                in case try_catch_config_in (ws_pending s) name of
                     None \<Rightarrow> handle_failure_without_try pub now s e name msg
                   | Some config \<Rightarrow> handle_failure_with_try pub now s e name config code msg))
      | _ \<Rightarrow> throw ''invalid task failed event data'')"

subsection \<open>Timers\<close>

definition task_name_of_id :: "string \<Rightarrow> string" where
  "task_name_of_id tid =
     (let t = (if has_prefix tid ''task-'' then drop 5 tid else tid); i = last_index t (CHR ''-'')
      in if 0 < i then take (nat i) t else t)"

definition task_id_of_name :: "string \<Rightarrow> int \<Rightarrow> string" where
  "task_id_of_name name nanos = ''task-'' @ name @ ''-'' @ itoa nanos"

definition retry_task_requested_event ::
  "time \<Rightarrow> workflow_state \<Rightarrow> string \<Rightarrow> string \<Rightarrow> string \<Rightarrow> gmap \<Rightarrow> cloud_event" where
  "retry_task_requested_event now s tid name ty input =
     (let (tenant, execution) = context_ids s
      in empty_event\<lparr>ev_id := ''task-requested-'' @ tid, ev_source := ''workflow-engine'',
           ev_specversion := ''1.0'', ev_type := ''io.flunq.task.requested'', ev_tenant := tenant,
           ev_workflow := ws_workflow s, ev_execution := execution, ev_task := tid, ev_time := now,
           ev_data := GMap [(''task_id'', GStr tid), (''task_name'', GStr name), (''task_type'', GStr ty),
             (''workflow_id'', GStr (ws_workflow s)), (''execution_id'', GStr execution),
             (''input'', GMap input),
             (''context'', GMap [(''workflow_input'', get_any input ''workflow_input''),
                                 (''retry_context'', get_any input ''retry_context'')])]\<rparr>)"

definition retry_task_input :: "time \<Rightarrow> workflow_state \<Rightarrow> gmap \<Rightarrow> string \<Rightarrow> string \<Rightarrow> int \<Rightarrow> gmap" where
  "retry_task_input now s d name original attempt =
     [(''task_name'', GStr name), (''workflow_id'', GStr (ws_workflow s)),
      (''timestamp'', GStr (format_rfc3339 now)),
      (''retry_context'', GMap [(''is_retry'', GBool True), (''attempt_count'', GInt attempt),
                                (''original_task_id'', GStr original)])] @
     (case ws_input s of Some m \<Rightarrow> [(''workflow_input'', GMap m)] | None \<Rightarrow> []) @
     (case map_of d ''original_task_definition'' of
        Some v \<Rightarrow> [(''task_definition'', v)] | None \<Rightarrow> [])"

definition process_retry_timer_fired ::
  "publisher \<Rightarrow> time \<Rightarrow> workflow_state \<Rightarrow> gmap \<Rightarrow> workflow_state effect" where
  "process_retry_timer_fired pub now s d =
     (case get_str d ''original_task_id'' of
        None \<Rightarrow> throw ''retry timer missing original_task_id''
      | Some original \<Rightarrow>
          (case get_float d ''attempt_count'' of
             None \<Rightarrow> throw ''retry timer missing attempt_count''
           | Some attempt \<Rightarrow>
               (let name = task_name_of_id original
                in if name = [] then throw (''could not extract task name from task ID: '' @ original)
                   else bind_eff
                     (wrap_eff ''failed to publish retry task.requested event''
                       (send pub (retry_task_requested_event now s (task_id_of_name name now) name ''try''
                          (retry_task_input now s d name original (int64_of_f64 attempt)))))
                     (\<lambda>_. ret s))))"

definition process_timer_fired ::
  "publisher \<Rightarrow> time \<Rightarrow> workflow_state \<Rightarrow> cloud_event \<Rightarrow> workflow_state effect" where
  "process_timer_fired pub now s e =
     (case ev_data e of
        GMap d \<Rightarrow>
          if get_str d ''retry_type'' = Some ''task_retry''
          then process_retry_timer_fired pub now s d
          else ret (process_task_completed s e)
      | _ \<Rightarrow> ret (process_task_completed s e))"

subsection \<open>Dispatch and reconstruction\<close>

definition process_event ::
  "publisher \<Rightarrow> (gval \<Rightarrow> string) \<Rightarrow> time \<Rightarrow> workflow_state \<Rightarrow> cloud_event \<Rightarrow> workflow_state effect" where
  "process_event pub fmt now s e =
     (if ev_type e = ''io.flunq.workflow.created'' then ret (process_workflow_created s e)
      else if ev_type e = ''io.flunq.execution.started'' then ret (process_execution_started s e)
      else if ev_type e = ''io.flunq.task.requested'' then ret (process_task_requested s e)
      else if ev_type e = ''io.flunq.task.completed'' then ret (process_task_completed s e)
      else if ev_type e = ''io.flunq.task.failed'' then process_task_failed pub fmt now s e
      else if ev_type e = ''io.flunq.timer.fired'' then process_timer_fired pub now s e
      else if ev_type e = ''io.flunq.workflow.step.completed'' then ret (process_step_completed s e)
      else if ev_type e = ''io.flunq.workflow.completed'' then ret (process_workflow_completed s e)
      else if ev_type e = ''io.flunq.workflow.failed'' then ret (process_workflow_failed s e)
      else ret s)"

definition rebuild_state ::
  "publisher \<Rightarrow> (gval \<Rightarrow> string) \<Rightarrow> time \<Rightarrow> workflow_definition \<Rightarrow> cloud_event list \<Rightarrow>
   workflow_state effect" where
  "rebuild_state pub fmt now d es =
     fold_eff (\<lambda>s e. wrap_eff (''failed to process event '' @ ev_id e) (process_event pub fmt now s e))
       (empty_state d) es"

end
