(* ===== verification/Engine_Laws.thy ===== *)
theory Engine_Laws
  imports Engine_Events
begin

text \<open>
  What the event handlers of the engine guarantee. The locale \<open>event_machine\<close> is the
  interface of a handler that reads events one at a time: it keeps an invariant and follows
  an abstract step on a view of its state; its lemmas lift both to whole histories. The
  interpretation \<open>engine\<close> provides it for \<open>process_event\<close> with the view \<open>progress_of\<close>: the
  status, the names of the completed tasks and the pending tasks with their try/catch
  configuration.
\<close>

locale event_machine =
  fixes step :: "'s \<Rightarrow> 'e \<Rightarrow> ('o, 's) eff"
    and inv :: "'s \<Rightarrow> bool"
    and view :: "'s \<Rightarrow> 'v"
    and astep :: "'v \<Rightarrow> 'e \<Rightarrow> 'v"
  assumes step_inv: "inv s \<Longrightarrow> snd (step s e) = Inr s' \<Longrightarrow> inv s'"
    and step_view: "inv s \<Longrightarrow> snd (step s e) = Inr s' \<Longrightarrow> view s' = astep (view s) e"
begin

definition run :: "('e \<Rightarrow> string) \<Rightarrow> 's \<Rightarrow> 'e list \<Rightarrow> ('o, 's) eff" where
  "run ctx s es = fold_eff (\<lambda>s e. wrap_eff (ctx e) (step s e)) s es"

lemma run_Cons: "snd (run ctx s (e # es)) = Inr t \<longleftrightarrow>
    (\<exists>s'. snd (step s e) = Inr s' \<and> snd (run ctx s' es) = Inr t)"
  by (simp add: run_def snd_bind_eff_Inr snd_wrap_eff_Inr)

lemma run_inv: "inv s \<Longrightarrow> snd (run ctx s es) = Inr t \<Longrightarrow> inv t"
proof (induction es arbitrary: s)
  case Nil
  then show ?case by (simp add: run_def)
next
  case (Cons e es)
  then show ?case using step_inv run_Cons by blast
qed

lemma run_view: "inv s \<Longrightarrow> snd (run ctx s es) = Inr t \<Longrightarrow> view t = foldl astep (view s) es"
proof (induction es arbitrary: s)
  case Nil
  then show ?case by (simp add: run_def)
next
  case (Cons e es)
  then obtain s' where "snd (step s e) = Inr s'" "snd (run ctx s' es) = Inr t"
    by (auto simp: run_Cons)
  with Cons step_inv [of s e s'] step_view [of s e s'] show ?case by simp
qed

end

subsection \<open>The invariant\<close>

definition opt_ok :: "('a \<Rightarrow> bool) \<Rightarrow> 'a option \<Rightarrow> bool" where
  "opt_ok p x = (case x of None \<Rightarrow> True | Some a \<Rightarrow> p a)"

definition state_ok :: "workflow_state \<Rightarrow> bool" where
  "state_ok s \<longleftrightarrow>
     opt_ok is_wire_map (ws_vars s) \<and> opt_ok is_wire_map (ws_input s) \<and>
     opt_ok is_wire_map (output_value s) \<and> (ws_output s = OutVars \<longrightarrow> ws_vars s \<noteq> None) \<and>
     distinct (map ct_name (ws_completed s)) \<and>
     list_all (\<lambda>c. opt_ok is_wire_map (td_output (ct_data c))) (ws_completed s) \<and>
     list_all (\<lambda>p. opt_ok is_wire_map (pt_input p)) (ws_pending s)"

lemma opt_ok_simps [simp]: "opt_ok p None" "opt_ok p (Some a) = p a"
  by (simp_all add: opt_ok_def)

lemma opt_ok_wire_map [simp]: "opt_ok is_wire_map (wire_map m)"
  using to_wire_is_wire(3) [of m] by (cases "wire_map m") simp_all

lemma opt_ok_map_to_struct [simp]: "opt_ok is_wire_map (map_to_struct v)"
  by (cases v) (simp_all add: map_to_struct_def)

lemma is_wire_value_or_nil [simp]: "is_wire (value_or_nil v)"
  using to_wire_is_wire(1) [of v] by (cases "to_wire v") (simp_all add: value_or_nil_def)

lemma is_wire_put_values: "is_wire_map d \<Longrightarrow> is_wire_map (put_values d m)"
  by (induction d m rule: put_values.induct) (simp_all add: is_wire_map_put)

lemma is_wire_vars_of: "state_ok s \<Longrightarrow> is_wire_map (vars_of s)"
  by (auto simp: state_ok_def vars_of_def opt_ok_def split: option.splits)

lemma td_output_wire [simp]: "opt_ok is_wire_map (td_output (task_data_of_event t d))"
  by (simp add: task_data_of_event_def Let_def split: option.splits)

lemma vars_of_simps [simp]:
  "vars_of (s\<lparr>ws_status := a\<rparr>) = vars_of s" "vars_of (s\<lparr>ws_pending := b\<rparr>) = vars_of s"
  "vars_of (s\<lparr>ws_step := c\<rparr>) = vars_of s" "vars_of (s\<lparr>ws_context := d\<rparr>) = vars_of s"
  "vars_of (s\<lparr>ws_workflow := f\<rparr>) = vars_of s" "vars_of (s\<lparr>ws_updated := u\<rparr>) = vars_of s"
  "vars_of (s\<lparr>ws_created := u\<rparr>) = vars_of s" "vars_of (s\<lparr>ws_vars := Some v\<rparr>) = v"
  by (simp_all add: vars_of_def)

lemma state_ok_set_vars:
  "state_ok s \<Longrightarrow> is_wire_map m \<Longrightarrow> state_ok (s\<lparr>ws_vars := Some m\<rparr>)"
  by (auto simp: state_ok_def output_value_def split: output_ref.splits)

lemma state_ok_simps [simp]:
  "state_ok (s\<lparr>ws_status := a\<rparr>) = state_ok s" "state_ok (s\<lparr>ws_step := c\<rparr>) = state_ok s"
  "state_ok (s\<lparr>ws_context := d\<rparr>) = state_ok s" "state_ok (s\<lparr>ws_workflow := f\<rparr>) = state_ok s"
  "state_ok (s\<lparr>ws_updated := u\<rparr>) = state_ok s" "state_ok (s\<lparr>ws_created := u\<rparr>) = state_ok s"
  by (simp_all add: state_ok_def output_value_def cong: output_ref.case_cong)

lemma state_ok_empty [wf_intros]: "state_ok (empty_state d)"
  by (simp add: state_ok_def empty_state_def output_value_def)

lemma state_ok_created [wf_intros]: "state_ok s \<Longrightarrow> state_ok (process_workflow_created s e)"
  by (auto simp: process_workflow_created_def Let_def is_wire_vars_of
      intro!: state_ok_set_vars is_wire_map_put split: gval.splits option.splits)

lemma state_ok_set_input:
  "state_ok s \<Longrightarrow> state_ok (s\<lparr>ws_input := wire_map m\<rparr>)"
  by (simp add: state_ok_def output_value_def cong: output_ref.case_cong)

lemma state_ok_started [wf_intros]: "state_ok s \<Longrightarrow> state_ok (process_execution_started s e)"
  using state_ok_set_vars [OF state_ok_set_input]
  by (auto simp: process_execution_started_def Let_def is_wire_vars_of is_wire_put_values
      split: gval.splits option.splits)

lemma state_ok_requested [wf_intros]: "state_ok s \<Longrightarrow> state_ok (process_task_requested s e)"
  by (auto simp: process_task_requested_def Let_def state_ok_def output_value_def opt_ok_def
      bind_eq_Some_conv dest: to_wire_is_wire split: gval.splits option.splits output_ref.splits)

lemma state_ok_step_completed [wf_intros]: "state_ok s \<Longrightarrow> state_ok (process_step_completed s e)"
  by (auto simp: process_step_completed_def Let_def is_wire_vars_of
      intro!: state_ok_set_vars is_wire_map_put split: gval.splits option.splits)

lemma state_ok_set_output:
  "state_ok s \<Longrightarrow>
   state_ok (s\<lparr>ws_output := (case wire_map m of Some w \<Rightarrow> OutStruct w | None \<Rightarrow> OutNil)\<rparr>)"
  by (auto simp: state_ok_def output_value_def dest: to_wire_is_wire split: option.splits)

lemma state_ok_workflow_completed [wf_intros]:
  "state_ok s \<Longrightarrow> state_ok (process_workflow_completed s e)"
  using state_ok_set_output [of "s\<lparr>ws_status := WCompleted\<rparr>"]
  by (auto simp: process_workflow_completed_def Let_def split: gval.splits option.split)

lemma state_ok_workflow_failed [wf_intros]: "state_ok s \<Longrightarrow> state_ok (process_workflow_failed s e)"
  by (auto simp: process_workflow_failed_def Let_def is_wire_vars_of
      intro!: state_ok_set_vars is_wire_map_put split: gval.splits option.splits)

lemma state_ok_fail [wf_intros]: "state_ok s \<Longrightarrow> state_ok (fail_task s name msg)"
  using state_ok_set_vars [of "s\<lparr>ws_status := WFailed\<rparr>"]
  by (simp add: fail_task_def is_wire_vars_of is_wire_map_put)

lemma state_ok_remove_pending:
  "state_ok s \<Longrightarrow> state_ok (s\<lparr>ws_pending := remove_first p (ws_pending s)\<rparr>)"
  using set_remove_first_subset [of p "ws_pending s"]
  by (auto simp: state_ok_def output_value_def list_all_iff split: output_ref.splits)

lemma state_ok_add_completed:
  "state_ok s \<Longrightarrow> name \<notin> ct_name ` set (ws_completed s) \<Longrightarrow> opt_ok is_wire_map (td_output td) \<Longrightarrow>
   state_ok (s\<lparr>ws_completed := ws_completed s @ [\<lparr>ct_name = name, ct_data = td\<rparr>]\<rparr>)"
  by (auto simp: state_ok_def output_value_def split: output_ref.splits)

lemma state_ok_out_vars:
  "state_ok s \<Longrightarrow> ws_vars s \<noteq> None \<Longrightarrow> state_ok (s\<lparr>ws_output := OutVars\<rparr>)"
  by (auto simp: state_ok_def output_value_def)

lemma state_ok_complete [wf_intros]:
  assumes "state_ok s" and "opt_ok is_wire_map (td_output td)"
  shows "state_ok (complete_task s name td)"
proof -
  define s1 where "s1 = s\<lparr>ws_pending := remove_first (\<lambda>p. pt_name p = name) (ws_pending s)\<rparr>"
  define s2 where "s2 = (case td_output td of
    Some out \<Rightarrow> s1\<lparr>ws_vars := Some (merge_into (vars_of s1) out)\<rparr> | None \<Rightarrow> s1)"
  define s3 where "s3 = (if list_ex (\<lambda>c. ct_name c = name) (ws_completed s2) then s2
    else s2\<lparr>ws_completed := ws_completed s2 @ [\<lparr>ct_name = name, ct_data = td\<rparr>]\<rparr>)"
  have "state_ok s1" unfolding s1_def using assms(1) by (rule state_ok_remove_pending)
  then have "state_ok s2" using assms(2)
    by (auto simp: s2_def is_wire_vars_of intro!: state_ok_set_vars is_wire_map_merge_into
        split: option.splits)
  then have "state_ok s3" using assms(2)
    by (auto simp: s3_def list_ex_iff intro!: state_ok_add_completed)
  then show ?thesis
    unfolding complete_task_def Let_def s1_def [symmetric] s2_def [symmetric] s3_def [symmetric]
    using state_ok_out_vars [of s3] by auto
qed

lemma state_ok_completed [wf_intros]: "state_ok s \<Longrightarrow> state_ok (process_task_completed s e)"
  by (auto simp: process_task_completed_def Let_def state_ok_fail state_ok_complete split: gval.splits)

subsection \<open>Handlers that publish\<close>

lemma failure_without_try_Inr:
  "snd (handle_failure_without_try pub now s e name msg) = Inr t \<longleftrightarrow>
     pub (workflow_failed_event now (s\<lparr>ws_status := WFailed, ws_updated := Some (ev_time e)\<rparr>) name msg) = None \<and>
     t = s\<lparr>ws_status := WFailed, ws_updated := Some (ev_time e)\<rparr>"
  by (auto simp: handle_failure_without_try_def Let_def snd_bind_eff_Inr send_def split: option.splits)

lemma schedule_retry_timer_Inr:
  "snd (schedule_retry_timer pub now s name k delay msg) = Inr t \<longleftrightarrow>
     pub (retry_timer_event now s name k delay msg) = None \<and> t = s"
  by (auto simp: schedule_retry_timer_def snd_bind_eff_Inr send_def split: option.splits)

text \<open>A failed task either leaves the state as it is (a retry timer is published) or fails
  the workflow; nothing else of the state changes.\<close>

definition failed_state :: "workflow_state \<Rightarrow> cloud_event \<Rightarrow> workflow_state" where
  "failed_state s e = s\<lparr>ws_status := WFailed, ws_updated := Some (ev_time e)\<rparr>"

lemma failure_with_try_result:
  "snd (handle_failure_with_try pub now s e name config code msg) = Inr t \<Longrightarrow>
   t = failed_state s e \<or> t = s"
  by (auto simp: handle_failure_with_try_def schedule_task_retry_def failure_without_try_Inr
      schedule_retry_timer_Inr failed_state_def split: option.splits if_splits)

lemma task_failed_result:
  "snd (process_task_failed pub fmt now s e) = Inr t \<Longrightarrow> t = failed_state s e \<or> t = s"
  by (auto simp: process_task_failed_def Let_def failure_without_try_Inr failed_state_def
      dest!: failure_with_try_result split: gval.splits option.splits)

lemma retry_timer_fired_result:
  "snd (process_retry_timer_fired pub now s d) = Inr t \<Longrightarrow> t = s"
  by (auto simp: process_retry_timer_fired_def Let_def snd_bind_eff_Inr snd_wrap_eff_Inr
      split: option.splits if_splits)

lemma timer_fired_result:
  "snd (process_timer_fired pub now s e) = Inr t \<Longrightarrow> t = s \<or> t = process_task_completed s e"
  by (auto simp: process_timer_fired_def dest: retry_timer_fired_result split: gval.splits if_splits)

lemma state_ok_failed_state [wf_intros]: "state_ok s \<Longrightarrow> state_ok (failed_state s e)"
  by (simp add: failed_state_def)

lemma state_ok_process_event:
  assumes "state_ok s" and "snd (process_event pub fmt now s e) = Inr t"
  shows "state_ok t"
  using assms
  by (auto simp: process_event_def wf_intros dest!: task_failed_result timer_fired_result
      split: if_splits)

subsection \<open>The abstract progress of a workflow\<close>

record progress =
  pg_status :: workflow_status
  pg_done :: "string list"
  pg_waiting :: "(string \<times> gmap option) list"

definition catch_config :: "gmap option \<Rightarrow> gmap option" where
  "catch_config input = Option.bind input (\<lambda>m. get_map m ''try_catch_config'')"

definition progress_of :: "workflow_state \<Rightarrow> progress" where
  "progress_of s =
     \<lparr>pg_status = ws_status s, pg_done = map ct_name (ws_completed s),
      pg_waiting = map (\<lambda>p. (pt_name p, catch_config (pt_input p))) (ws_pending s)\<rparr>"

definition note_done :: "string \<Rightarrow> string list \<Rightarrow> string list" where
  "note_done n ns = (if n \<in> set ns then ns else ns @ [n])"

fun config_of_task :: "(string \<times> gmap option) list \<Rightarrow> string \<Rightarrow> gmap option" where
  "config_of_task [] n = None"
| "config_of_task ((k, c) # ws) n =
     (if k = n \<and> c \<noteq> None then c else config_of_task ws n)"

text \<open>Whether a failure with this status code, after this many attempts, is retried.\<close>

definition retries :: "gmap \<Rightarrow> int \<Rightarrow> nat \<Rightarrow> bool" where
  "retries config code attempts =
     (case get_map config ''catch'' of
        None \<Rightarrow> False
      | Some c \<Rightarrow>
          error_matches_catch c code \<and>
          (case Option.bind (get_map c ''retry'')
                  (\<lambda>r. Option.bind (get_map r ''limit'') (\<lambda>l. get_map l ''attempt'')) of
             None \<Rightarrow> False
           | Some a \<Rightarrow> int attempts < retry_max_attempts a))"

definition outcome :: "progress \<Rightarrow> gmap \<Rightarrow> progress" where
  "outcome p d =
     (if task_success d
      then p\<lparr>pg_done := note_done (completed_task_name d) (pg_done p),
             pg_waiting := remove_first (\<lambda>w. fst w = completed_task_name d) (pg_waiting p)\<rparr>
      else p\<lparr>pg_status := WFailed\<rparr>)"

definition failure :: "progress \<Rightarrow> gmap \<Rightarrow> progress" where
  "failure p d =
     (let n = str_or_empty (get_str d ''task_name'');
          code = (case get_float d ''status_code'' of Some r \<Rightarrow> int64_of_f64 r | None \<Rightarrow> 0)
      in case config_of_task (pg_waiting p) n of
           Some c \<Rightarrow> if retries c code (count_list (pg_done p) n) then p else p\<lparr>pg_status := WFailed\<rparr>
         | None \<Rightarrow> p\<lparr>pg_status := WFailed\<rparr>)"

definition progress_step :: "progress \<Rightarrow> cloud_event \<Rightarrow> progress" where
  "progress_step p e =
     (if ev_type e = ''io.flunq.workflow.created'' then p\<lparr>pg_status := WCreated\<rparr>
      else if ev_type e = ''io.flunq.execution.started'' then p\<lparr>pg_status := WRunning\<rparr>
      else if ev_type e = ''io.flunq.workflow.completed'' then p\<lparr>pg_status := WCompleted\<rparr>
      else if ev_type e = ''io.flunq.workflow.failed'' then p\<lparr>pg_status := WFailed\<rparr>
      else case as_map (ev_data e) of
             None \<Rightarrow> p
           | Some d \<Rightarrow>
               if ev_type e = ''io.flunq.task.requested''
               then p\<lparr>pg_waiting := pg_waiting p @ [(str_or_empty (get_str d ''task_name''),
                       catch_config (Option.bind (get_map d ''input'') wire_map))]\<rparr>
               else if ev_type e = ''io.flunq.task.failed'' then failure p d
               else if ev_type e = ''io.flunq.task.completed'' \<or>
                       ev_type e = ''io.flunq.timer.fired'' \<and> get_str d ''retry_type'' \<noteq> Some ''task_retry''
               then outcome p d
               else p)"

lemma progress_of_simps [simp]:
  "pg_status (progress_of s) = ws_status s" "pg_done (progress_of s) = map ct_name (ws_completed s)"
  "progress_of (s\<lparr>ws_status := a\<rparr>) = (progress_of s)\<lparr>pg_status := a\<rparr>"
  "progress_of (s\<lparr>ws_step := b\<rparr>) = progress_of s" "progress_of (s\<lparr>ws_vars := v\<rparr>) = progress_of s"
  "progress_of (s\<lparr>ws_input := v\<rparr>) = progress_of s" "progress_of (s\<lparr>ws_output := x\<rparr>) = progress_of s"
  "progress_of (s\<lparr>ws_context := c\<rparr>) = progress_of s" "progress_of (s\<lparr>ws_workflow := w\<rparr>) = progress_of s"
  "progress_of (s\<lparr>ws_updated := u\<rparr>) = progress_of s" "progress_of (s\<lparr>ws_created := u\<rparr>) = progress_of s"
  by (simp_all add: progress_of_def)

lemma progress_step_completed: "progress_of (process_step_completed s e) = progress_of s"
  by (simp add: process_step_completed_def Let_def split: gval.splits option.splits)

lemma progress_created:
  "progress_of (process_workflow_created s e) = (progress_of s)\<lparr>pg_status := WCreated\<rparr>"
  by (simp add: process_workflow_created_def Let_def split: gval.splits option.splits)

lemma progress_started:
  "progress_of (process_execution_started s e) = (progress_of s)\<lparr>pg_status := WRunning\<rparr>"
  by (simp add: process_execution_started_def Let_def split: gval.splits option.splits)

lemma progress_workflow_completed:
  "progress_of (process_workflow_completed s e) = (progress_of s)\<lparr>pg_status := WCompleted\<rparr>"
  by (simp add: process_workflow_completed_def Let_def split: gval.splits option.splits)

lemma progress_workflow_failed:
  "progress_of (process_workflow_failed s e) = (progress_of s)\<lparr>pg_status := WFailed\<rparr>"
  by (simp add: process_workflow_failed_def Let_def split: gval.splits option.splits)

lemma progress_requested:
  "ev_data e = GMap d \<Longrightarrow> progress_of (process_task_requested s e) =
   (progress_of s)\<lparr>pg_waiting := pg_waiting (progress_of s) @ [(str_or_empty (get_str d ''task_name''),
      catch_config (Option.bind (get_map d ''input'') wire_map))]\<rparr>"
  by (simp add: process_task_requested_def Let_def progress_of_def)

lemma map_remove_first: "(\<And>x. p x = q (f x)) \<Longrightarrow> map f (remove_first p xs) = remove_first q (map f xs)"
  by (induction xs) auto

lemma progress_complete_task:
  "progress_of (complete_task s n td) =
   (progress_of s)\<lparr>pg_done := note_done n (pg_done (progress_of s)),
     pg_waiting := remove_first (\<lambda>w. fst w = n) (pg_waiting (progress_of s))\<rparr>"
proof -
  have rm: "map (\<lambda>p. (pt_name p, catch_config (pt_input p))) (remove_first (\<lambda>p. pt_name p = n) ps) =
    remove_first (\<lambda>w. fst w = n) (map (\<lambda>p. (pt_name p, catch_config (pt_input p))) ps)" for ps
    by (rule map_remove_first) simp
  have "list_ex (\<lambda>c. ct_name c = n) (ws_completed s) = (n \<in> ct_name ` set (ws_completed s))"
    by (auto simp: list_ex_iff)
  then show ?thesis
    by (cases "n \<in> ct_name ` set (ws_completed s)")
      (simp_all add: complete_task_def Let_def progress_of_def note_done_def rm split: option.splits)
qed

lemma progress_completed:
  "ev_data e = GMap d \<Longrightarrow> progress_of (process_task_completed s e) = outcome (progress_of s) d"
  by (simp add: process_task_completed_def Let_def outcome_def progress_complete_task fail_task_def)

lemma try_catch_config_in_progress:
  "try_catch_config_in ps n = config_of_task (map (\<lambda>p. (pt_name p, catch_config (pt_input p))) ps) n"
  by (induction ps) (auto simp: catch_config_def split: option.splits)

lemma attempts_progress: "current_attempt_count s n = count_list (pg_done (progress_of s)) n"
proof -
  have "length (filter (\<lambda>c. ct_name c = n) cs) = count_list (map ct_name cs) n" for cs
    by (induction cs) auto
  then show ?thesis by (simp add: current_attempt_count_def)
qed

lemma failure_with_try_progress:
  assumes "snd (handle_failure_with_try pub now s e n c code msg) = Inr t"
  shows "progress_of t =
    (if retries c code (current_attempt_count s n) then progress_of s
     else (progress_of s)\<lparr>pg_status := WFailed\<rparr>)"
  using assms
  by (auto simp: handle_failure_with_try_def schedule_task_retry_def failure_without_try_Inr
      schedule_retry_timer_Inr retries_def split: option.splits if_splits)

lemma task_failed_progress:
  assumes "snd (process_task_failed pub fmt now s e) = Inr t" and "ev_data e = GMap d"
  shows "progress_of t = failure (progress_of s) d"
proof -
  obtain n where n: "get_str d ''task_name'' = Some n"
    using assms by (auto simp: process_task_failed_def split: option.splits)
  have "try_catch_config_in (ws_pending s) n = config_of_task (pg_waiting (progress_of s)) n"
    by (simp add: try_catch_config_in_progress progress_of_def)
  with assms n show ?thesis
    by (auto simp: process_task_failed_def Let_def failure_def str_or_empty_def attempts_progress
        failure_without_try_Inr dest!: failure_with_try_progress split: option.splits if_splits)
qed

lemma progress_step_correct:
  assumes "snd (process_event pub fmt now s e) = Inr t"
  shows "progress_of t = progress_step (progress_of s) e"
proof (cases "as_map (ev_data e)")
  case None
  then have "\<And>d. ev_data e \<noteq> GMap d" by (metis as_map.simps(1) option.simps(3))
  with assms None show ?thesis
    by (auto simp: process_event_def progress_step_def progress_created progress_started
        progress_step_completed progress_workflow_completed progress_workflow_failed
        process_task_requested_def process_task_completed_def process_task_failed_def
        process_timer_fired_def split: if_splits gval.splits)
next
  case (Some d)
  then have d: "ev_data e = GMap d" by (cases "ev_data e") auto
  with assms show ?thesis
    by (auto simp: process_event_def progress_step_def progress_created progress_started
        progress_step_completed progress_workflow_completed progress_workflow_failed
        progress_requested progress_completed task_failed_progress process_timer_fired_def
        dest!: retry_timer_fired_result split: if_splits)
qed

interpretation engine: event_machine "process_event pub fmt now" state_ok progress_of progress_step
  for pub fmt now
  by unfold_locales (rule state_ok_process_event progress_step_correct; assumption)+

lemma rebuild_run: "rebuild_state pub fmt now d es =
    engine.run pub fmt now (\<lambda>e. ''failed to process event '' @ ev_id e) (empty_state d) es"
  by (simp add: rebuild_state_def engine.run_def)

lemma progress_empty [simp]:
  "progress_of (empty_state d) = \<lparr>pg_status = WCreated, pg_done = [], pg_waiting = []\<rparr>"
  by (simp add: progress_of_def empty_state_def)

subsection \<open>Completed tasks of a history\<close>

text \<open>The task an event completes, if it does.\<close>

definition success_name :: "cloud_event \<Rightarrow> string option" where
  "success_name e =
     (case as_map (ev_data e) of
        None \<Rightarrow> None
      | Some d \<Rightarrow>
          if (ev_type e = ''io.flunq.task.completed'' \<or>
              ev_type e = ''io.flunq.timer.fired'' \<and> get_str d ''retry_type'' \<noteq> Some ''task_retry'') \<and>
             task_success d
          then Some (completed_task_name d) else None)"

lemma done_step:
  "pg_done (progress_step p e) =
     (case success_name e of None \<Rightarrow> pg_done p | Some n \<Rightarrow> note_done n (pg_done p))"
  by (simp add: progress_step_def success_name_def outcome_def failure_def Let_def split: option.splits)

lemma done_run:
  "pg_done (foldl progress_step p es) =
   foldl (\<lambda>ns n. note_done n ns) (pg_done p) (List.map_filter success_name es)"
  by (induction es arbitrary: p) (simp_all add: done_step map_filter_simps split: option.splits)

lemma note_done_remdups: "foldl (\<lambda>ns n. note_done n ns) [] xs = rev (remdups (rev xs))"
  by (induction xs rule: rev_induct) (simp_all add: note_done_def)

lemma status_failed_kept:
  "pg_status (progress_step p e) = WFailed" if "pg_status p = WFailed"
    "ev_type e \<notin> {''io.flunq.workflow.created'', ''io.flunq.execution.started'', ''io.flunq.workflow.completed''}"
  using that by (simp add: progress_step_def outcome_def failure_def Let_def split: option.splits)

lemma attempts_le_1: "state_ok s \<Longrightarrow> current_attempt_count s n \<le> 1"
proof -
  assume "state_ok s"
  then have "distinct (map ct_name (ws_completed s))" by (simp add: state_ok_def)
  moreover have "distinct xs \<Longrightarrow> count_list xs n \<le> 1" for xs :: "string list"
    by (induction xs) auto
  ultimately show ?thesis by (simp add: attempts_progress)
qed

lemma rebuild_ok: "snd (rebuild_state pub fmt now d es) = Inr s \<Longrightarrow> state_ok s"
  unfolding rebuild_run by (rule engine.run_inv [OF state_ok_empty])

lemma rebuild_progress:
  "snd (rebuild_state pub fmt now d es) = Inr s \<Longrightarrow>
   progress_of s = foldl progress_step \<lparr>pg_status = WCreated, pg_done = [], pg_waiting = []\<rparr> es"
  unfolding rebuild_run using engine.run_view [OF state_ok_empty] by simp

lemma rebuild_append:
  "rebuild_state pub fmt now d (es @ [e]) =
   bind_eff (rebuild_state pub fmt now d es)
     (\<lambda>s. wrap_eff (''failed to process event '' @ ev_id e) (process_event pub fmt now s e))"
  by (simp add: rebuild_state_def fold_eff_append)

lemma put_triv: "map_of m k = Some v \<Longrightarrow> put k v m = m"
  by (induction m) (auto split: if_splits)

lemma merge_into_triv:
  "(\<And>k v. (k, v) \<in> set src \<Longrightarrow> map_of dst k = Some v) \<Longrightarrow> merge_into dst src = dst"
  by (induction dst src rule: merge_into.induct) (simp_all add: put_triv)

lemma merge_into_twice:
  "distinct (map fst src) \<Longrightarrow> merge_into (merge_into dst src) src = merge_into dst src"
  by (rule merge_into_triv) (simp add: map_of_merge_into)

text \<open>The fields of a state after a completion.\<close>

lemma complete_task_fields:
  "ws_pending (complete_task s n td) = remove_first (\<lambda>p. pt_name p = n) (ws_pending s)"
  "ws_vars (complete_task s n td) =
     (case td_output td of Some out \<Rightarrow> Some (merge_into (vars_of s) out) | None \<Rightarrow> ws_vars s)"
  "ws_completed (complete_task s n td) =
     (if list_ex (\<lambda>c. ct_name c = n) (ws_completed s) then ws_completed s
      else ws_completed s @ [\<lparr>ct_name = n, ct_data = td\<rparr>])"
  "ws_output (complete_task s n td) =
     (if td_output td \<noteq> None \<or> ws_vars s \<noteq> None then OutVars else ws_output s)"
  "ws_workflow (complete_task s n td) = ws_workflow s" "ws_step (complete_task s n td) = ws_step s"
  "ws_status (complete_task s n td) = ws_status s" "ws_input (complete_task s n td) = ws_input s"
  "ws_context (complete_task s n td) = ws_context s" "ws_created (complete_task s n td) = ws_created s"
  "ws_updated (complete_task s n td) = ws_updated s"
  by (cases "td_output td"; cases "list_ex (\<lambda>c. ct_name c = n) (ws_completed s)"; cases "ws_vars s";
      simp add: complete_task_def)+

text \<open>Completing a task again changes nothing when it is not pending any more.\<close>

lemma complete_task_twice:
  assumes "\<And>out. td_output td = Some out \<Longrightarrow> distinct (map fst out)"
    and "\<not> list_ex (\<lambda>p. pt_name p = n) (remove_first (\<lambda>p. pt_name p = n) (ws_pending s))"
  shows "complete_task (complete_task s n td) n td = complete_task s n td"
proof (rule workflow_state.equality)
  show "ws_vars (complete_task (complete_task s n td) n td) = ws_vars (complete_task s n td)"
    using assms(1)
    by (auto simp: complete_task_fields vars_of_def merge_into_twice split: option.splits)
qed (use assms(2) in \<open>simp_all add: complete_task_fields remove_first_none split: option.split\<close>)

lemma fail_task_twice: "fail_task (fail_task s n msg) n msg = fail_task s n msg"
  by (simp add: fail_task_def put_triv map_of_put)

lemma process_task_completed_updated:
  "process_task_completed (s\<lparr>ws_updated := u\<rparr>) e = process_task_completed s e"
  by (rule workflow_state.equality)
    (auto simp: process_task_completed_def Let_def fail_task_def complete_task_fields vars_of_def
      split: gval.splits option.splits)

subsection \<open>Properties\<close>

text \<open>A small definition and history the concrete instances below run on.\<close>

definition demo_definition :: workflow_definition where
  "demo_definition = definition_of_dsl
     [(''document'', GMap [(''name'', GStr ''demo''), (''version'', GStr ''1.0.0'')]),
      (''do'', GList [GMap [(''first'', GMap [(''set'', GMap [(''x'', GStr ''1'')])])],
                     GMap [(''second'', GMap [(''wait'', GMap [(''duration'', GStr ''PT2S'')])])]])]"

definition demo_event :: "string \<Rightarrow> gmap \<Rightarrow> cloud_event" where
  "demo_event ty d = empty_event\<lparr>ev_id := ''1'', ev_source := ''executor-service'',
     ev_specversion := ''1.0'', ev_type := ty, ev_tenant := ''t'', ev_workflow := ''demo'',
     ev_execution := ''x1'', ev_data := GMap d\<rparr>"

lemma demo_event_fields [simp]:
  "ev_type (demo_event ty d) = ty" "ev_data (demo_event ty d) = GMap d"
  "ev_execution (demo_event ty d) = ''x1''" "ev_workflow (demo_event ty d) = ''demo''"
  "ev_tenant (demo_event ty d) = ''t''" "ev_source (demo_event ty d) = ''executor-service''"
  by (simp_all add: demo_event_def)

definition demo_history :: "cloud_event list" where
  "demo_history =
     [demo_event ''io.flunq.execution.started'' [(''input'', GMap [(''k'', GStr ''v'')])],
      demo_event ''io.flunq.task.completed''
        [(''task_name'', GStr ''first''), (''success'', GBool True),
         (''data'', GMap [(''output'', GMap [(''x'', GStr ''1'')])])]]"

lemma demo_rebuild:
  "\<exists>s. snd (rebuild_state (\<lambda>_. None) (\<lambda>_. []) 0 demo_definition demo_history) = Inr s"
  by (simp add: rebuild_state_def demo_history_def demo_event_def process_event_def)

text \<open>C6: Rebuilding the state of an execution from any history, when it succeeds, gives a state
  in which the names of the completed tasks are distinct, the output is never a dangling alias
  of absent variables, and the variables, the input, the outputs and the inputs of the pending
  tasks are all in protobuf (wire) form: no Go integer and no function value is stored.\<close>

theorem rebuild_invariant:
  assumes "snd (rebuild_state pub fmt now d es) = Inr s"
  shows "state_ok s"
  using assms by (rule rebuild_ok)

theorem rebuild_invariant_witness:
  "\<exists>s. snd (rebuild_state (\<lambda>_. None) (\<lambda>_. []) 0 demo_definition demo_history) = Inr s \<and> state_ok s"
  using demo_rebuild rebuild_invariant by blast

text \<open>C1: Event sourcing refines an abstract machine: the status, the completed task names and
  the pending tasks (with their try/catch configuration) of the rebuilt state are those of the
  abstract progress machine run over the same history. Everything else in an event is
  irrelevant to what the worker does next.\<close>

theorem rebuild_refines_progress:
  assumes "snd (rebuild_state pub fmt now d es) = Inr s"
  shows "progress_of s =
    foldl progress_step \<lparr>pg_status = WCreated, pg_done = [], pg_waiting = []\<rparr> es"
  using assms by (rule rebuild_progress)

theorem rebuild_refines_progress_witness:
  "\<exists>s. snd (rebuild_state (\<lambda>_. None) (\<lambda>_. []) 0 demo_definition demo_history) = Inr s \<and>
     progress_of s = \<lparr>pg_status = WRunning, pg_done = [''first''], pg_waiting = []\<rparr>"
proof -
  obtain s where s: "snd (rebuild_state (\<lambda>_. None) (\<lambda>_. []) 0 demo_definition demo_history) = Inr s"
    using demo_rebuild by blast
  from rebuild_refines_progress [OF s] show ?thesis using s
    by (simp add: demo_history_def demo_event_def progress_step_def outcome_def task_success_def
        completed_task_name_def get_defs str_or_empty_def note_done_def)
qed

text \<open>C5: The completed tasks of a rebuilt state are exactly the tasks named by the successful
  completions of the history (completed tasks and fired wait timers), each once, in the order
  of their first completion. Redelivered or duplicated completions do not count twice.\<close>

theorem rebuild_completed_tasks:
  assumes "snd (rebuild_state pub fmt now d es) = Inr s"
  shows "map ct_name (ws_completed s) = rev (remdups (rev (List.map_filter success_name es)))"
proof -
  have "map ct_name (ws_completed s) = pg_done (progress_of s)" by simp
  also have "\<dots> = foldl (\<lambda>ns n. note_done n ns) [] (List.map_filter success_name es)"
    by (simp only: rebuild_progress [OF assms] done_run progress.simps)
  finally show ?thesis by (simp only: note_done_remdups)
qed

theorem rebuild_completed_tasks_witness:
  "\<exists>s. snd (rebuild_state (\<lambda>_. None) (\<lambda>_. []) 0 demo_definition demo_history) = Inr s \<and>
     map ct_name (ws_completed s) = [''first'']"
proof -
  obtain s where s: "snd (rebuild_state (\<lambda>_. None) (\<lambda>_. []) 0 demo_definition demo_history) = Inr s"
    using demo_rebuild by blast
  from rebuild_completed_tasks [OF s] show ?thesis using s
    by (simp add: demo_history_def demo_event_def success_name_def task_success_def
        completed_task_name_def get_defs str_or_empty_def map_filter_simps)
qed

text \<open>Applying the same completion event twice is the same as applying it once, provided the
  task was pending at most once and the output is a map. The worker depends on it: the event it
  handles is usually part of the history it has just replayed, so it is applied twice.\<close>

theorem completion_idempotent:
  assumes d: "ev_data e = GMap d"
    and once: "\<not> list_ex (\<lambda>p. pt_name p = completed_task_name d)
      (remove_first (\<lambda>p. pt_name p = completed_task_name d) (ws_pending s))"
    and out: "\<forall>out. td_output (task_data_of_event (ev_time e) d) = Some out \<longrightarrow> distinct (map fst out)"
  shows "process_task_completed (process_task_completed s e) e = process_task_completed s e"
proof -
  let ?f = "\<lambda>s. if task_success d
    then complete_task s (completed_task_name d) (task_data_of_event (ev_time e) d)
    else fail_task s (completed_task_name d) (str_or_empty (get_str d ''error''))"
  have p: "process_task_completed t e = (?f t)\<lparr>ws_updated := Some (ev_time e)\<rparr>" for t
    by (simp add: process_task_completed_def d)
  have "?f (?f s) = ?f s"
    using complete_task_twice [OF _ once] out by (simp add: fail_task_twice)
  moreover have "process_task_completed (process_task_completed s e) e = process_task_completed (?f s) e"
    by (simp only: p [of s] process_task_completed_updated)
  ultimately show ?thesis by (simp only: p)
qed

theorem completion_idempotent_witness:
  "\<exists>s. ws_vars s = Some [(''x'', GStr ''1'')] \<and>
     process_task_completed s (demo_history ! 1) = s"
proof -
  let ?s = "process_task_completed (empty_state demo_definition) (demo_history ! 1)"
  have "process_task_completed ?s (demo_history ! 1) = ?s"
    by (rule completion_idempotent [where d = "[(''task_name'', GStr ''first''), (''success'', GBool True),
         (''data'', GMap [(''output'', GMap [(''x'', GStr ''1'')])])]"])
      (simp_all add: demo_history_def empty_state_def task_data_of_event_def Let_def get_defs
        map_to_struct_def)
  moreover have "ws_vars ?s = Some [(''x'', GStr ''1'')]"
    by (simp add: demo_history_def demo_event_def process_task_completed_def complete_task_fields
        task_success_def task_data_of_event_def get_defs map_to_struct_def empty_state_def vars_of_def)
  ultimately show ?thesis by blast
qed

text \<open>The retry limit of a try/catch block is not enforced by the engine once it is two or
  more. In any rebuilt state, a failure that the catch block matches is always followed by
  another retry timer, however often the task has failed before: attempts are counted over the
  completed tasks, which hold each name at most once.\<close>

theorem retry_limit_not_reached:
  assumes s: "snd (rebuild_state pub fmt now def es) = Inr s"
    and d: "ev_data e = GMap d" "get_str d ''task_name'' = Some n"
    and code: "code = (case get_float d ''status_code'' of Some r \<Rightarrow> int64_of_f64 r | None \<Rightarrow> 0)"
    and c: "try_catch_config_in (ws_pending s) n = Some c" "get_map c ''catch'' = Some cc"
      "error_matches_catch cc code" "get_map cc ''retry'' = Some r"
    and limit: "get_map r ''limit'' = Some l" "get_map l ''attempt'' = Some a" "2 \<le> retry_max_attempts a"
    and up: "\<forall>x. pub x = None"
  shows "\<exists>k msg. process_task_failed pub fmt now s e =
    ([retry_timer_event now s n k (retry_delay_seconds r) msg], Inr s)"
proof -
  have "int (current_attempt_count s n) < retry_max_attempts a"
    using attempts_le_1 [OF rebuild_ok [OF s], of n] limit(3) by simp
  with d code c limit(1,2) up show ?thesis
    by (simp add: process_task_failed_def Let_def handle_failure_with_try_def schedule_task_retry_def
        schedule_retry_timer_def bind_eff_def ret_def) blast
qed

definition retry_input :: gmap where
  "retry_input =
     [(''task_name'', GStr ''call''), (''input'', GMap [(''try_catch_config'', GMap [(''catch'', GMap
        [(''retry'', GMap [(''limit'', GMap [(''attempt'', GMap [(''count'', GFloat 2)])])])])])])]"

theorem retry_limit_not_reached_witness:
  "\<exists>s k msg. snd (rebuild_state (\<lambda>_. None) (\<lambda>_. []) 0 demo_definition
       [demo_event ''io.flunq.task.requested'' retry_input]) = Inr s \<and>
     process_task_failed (\<lambda>_. None) (\<lambda>_. []) 0 s
       (demo_event ''io.flunq.task.failed'' [(''task_name'', GStr ''call'')]) =
     ([retry_timer_event 0 s ''call'' k 3 msg], Inr s)"
proof -
  let ?e = "demo_event ''io.flunq.task.requested'' retry_input"
  let ?s = "process_task_requested (empty_state demo_definition) ?e"
  have s: "snd (rebuild_state (\<lambda>_. None) (\<lambda>_. []) 0 demo_definition [?e]) = Inr ?s"
    by (simp add: rebuild_state_def process_event_def)
  have c: "try_catch_config_in (ws_pending ?s) ''call'' = get_map (the (get_map retry_input ''input'')) ''try_catch_config''"
    by (simp add: process_task_requested_def Let_def retry_input_def get_defs empty_state_def
        str_or_empty_def)
  have "\<exists>k msg. process_task_failed (\<lambda>_. None) (\<lambda>_. []) 0 ?s
       (demo_event ''io.flunq.task.failed'' [(''task_name'', GStr ''call'')]) =
     ([retry_timer_event 0 ?s ''call'' k (retry_delay_seconds
        [(''limit'', GMap [(''attempt'', GMap [(''count'', GFloat 2)])])]) msg], Inr ?s)"
    by (rule retry_limit_not_reached [OF s, where a = "[(''count'', GFloat 2)]"
          and d = "[(''task_name'', GStr ''call'')]"
          and l = "[(''attempt'', GMap [(''count'', GFloat 2)])]"
          and c = "[(''catch'', GMap [(''retry'', GMap [(''limit'', GMap [(''attempt'', GMap [(''count'', GFloat 2)])])])])]"
          and cc = "[(''retry'', GMap [(''limit'', GMap [(''attempt'', GMap [(''count'', GFloat 2)])])])]"])
      (use c in \<open>simp_all add: retry_input_def get_defs error_matches_catch_def
         retry_max_attempts_def int64_of_f64_def trunc_rat_def\<close>)
  with s show ?thesis by (auto simp: retry_delay_seconds_def get_defs)
qed

text \<open>The retry timer the engine publishes can never start a retry. Its payload names the
  task under \<open>original_task_name\<close>, while the handler of a fired retry timer needs
  \<open>original_task_id\<close>: whatever event carries that payload, it is refused with an error.\<close>

theorem engine_retry_timer_rejected:
  assumes "ev_data (retry_timer_event now s n k delay msg) = GMap m" and "wire_map m = Some d"
    and "ev_data e = GMap d"
  shows "process_timer_fired pub now' s' e = throw ''retry timer missing original_task_id''"
  using assms(1,3) get_str_wire [OF assms(2)]
  by (auto simp: process_timer_fired_def process_retry_timer_fired_def retry_timer_event_def Let_def get_defs)

theorem engine_retry_timer_rejected_witness:
  "\<exists>d. wire_map [(''timer_id'', GStr ''retry-call-1-0''), (''workflow_id'', GStr []),
       (''delay_seconds'', GInt 3), (''retry_type'', GStr ''task_retry''),
       (''original_task_name'', GStr ''call''), (''attempt_count'', GInt 1), (''original_error'', GStr [])] = Some d \<and>
     process_timer_fired (\<lambda>_. None) 0 (empty_state (definition_of_dsl []))
       (demo_event ''io.flunq.timer.fired'' d) = throw ''retry timer missing original_task_id''"
proof -
  obtain m where m: "ev_data (retry_timer_event 0 (empty_state (definition_of_dsl [])) ''call'' 1 3 []) = GMap m"
    by (simp add: retry_timer_event_def Let_def)
  then obtain d where d: "wire_map m = Some d" by (auto simp: retry_timer_event_def Let_def)
  have "process_timer_fired (\<lambda>_. None) 0 (empty_state (definition_of_dsl []))
       (demo_event ''io.flunq.timer.fired'' d) = throw ''retry timer missing original_task_id''"
    by (rule engine_retry_timer_rejected [OF m d]) (simp add: demo_event_def)
  moreover have "itoa 1 = ''1''" "itoa 0 = ''0''" by code_simp+
  ultimately show ?thesis using m d
    by (auto simp: retry_timer_event_def Let_def unix_seconds_def empty_state_def definition_of_dsl_def
        get_map_def get_string_value_def get_str_def)
qed

end
