(* ===== verification/Engine_Tasks.thy ===== *)
theory Engine_Tasks
  imports Engine_Laws
begin

text \<open>
  The task side of the engine (\<^verbatim>\<open>serverless_workflow_engine.go\<close>): the workflow context for
  expressions, the input of a task, the choice of the next task, the tasks the engine runs
  itself (set, wait), and the test for a finished workflow.
\<close>

subsection \<open>Expressions in set tasks\<close>

text \<open>The variables, then the input where it does not clash, then \<open>now\<close> (a function value),
  then the nested form.\<close>

fun add_missing :: "gmap \<Rightarrow> gmap \<Rightarrow> gmap" where
  "add_missing dst [] = dst"
| "add_missing dst ((k, v) # m) = add_missing (if has_key dst k then dst else put k v dst) m"

definition build_workflow_context :: "workflow_state \<Rightarrow> gmap" where
  "build_workflow_context s =
     (let c1 = merge_into [] (vars_of s);
          c2 = (case ws_input s of Some m \<Rightarrow> add_missing c1 m | None \<Rightarrow> c1);
          c3 = put ''now'' GFunc c2
      in put ''workflow'' (GMap
           ((case ws_input s of Some m \<Rightarrow> [(''input'', GMap m)] | None \<Rightarrow> []) @
            (case ws_vars s of Some m \<Rightarrow> [(''variables'', GMap m)] | None \<Rightarrow> []))) c3)"

definition evaluate_set_task_data :: "string \<Rightarrow> gval \<Rightarrow> workflow_state \<Rightarrow> (string, gval) result" where
  "evaluate_set_task_data now config s =
     (case config of
        GMap m \<Rightarrow>
          (case evaluate_map now (build_workflow_context s) m of
             Inr r \<Rightarrow> Inr (GMap r)
           | Inl e \<Rightarrow> Inl (''failed to evaluate JQ expressions: '' @ e))
      | _ \<Rightarrow> Inl ''set config is not a map'')"

subsection \<open>The input of a task\<close>

text \<open>The definition under that name in the first item that has one.\<close>

fun task_definition :: "gval list \<Rightarrow> string \<Rightarrow> gval option" where
  "task_definition [] name = None"
| "task_definition (item # items) name =
     (case Option.bind (as_map item) (\<lambda>t. map_of t name) of
        Some d \<Rightarrow> Some d
      | None \<Rightarrow> task_definition items name)"

definition wait_duration :: "gmap \<Rightarrow> string option" where
  "wait_duration t = Option.bind (get_map t ''wait'') (\<lambda>w. get_str w ''duration'')"

text \<open>Set data that does not evaluate is passed on as it is written.\<close>

definition set_data_for :: "string \<Rightarrow> gval \<Rightarrow> workflow_state \<Rightarrow> gval" where
  "set_data_for now config s =
     (case evaluate_set_task_data now config s of Inr v \<Rightarrow> v | Inl _ \<Rightarrow> config)"

definition task_parameters :: "string \<Rightarrow> gmap \<Rightarrow> workflow_state \<Rightarrow> gmap" where
  "task_parameters now t s =
     (case wait_duration t of Some d \<Rightarrow> [(''duration'', GStr (iso_to_go_duration d))] | None \<Rightarrow> []) @
     (case map_of t ''set'' of Some c \<Rightarrow> [(''set_data'', set_data_for now c s)] | None \<Rightarrow> []) @
     (case map_of t ''call'' of
        Some c \<Rightarrow> [(''call_config'', GMap (build_call_config t c))]
      | None \<Rightarrow>
          (case map_of t ''try'' of
             Some b \<Rightarrow>
               [(''try_catch_config'', GMap [(''try'', b), (''catch'', get_any t ''catch'')]),
                (''try_config'', GMap [(''try'', b), (''catch'', get_any t ''catch'')])]
           | None \<Rightarrow> []))"

definition build_task_input :: "time \<Rightarrow> workflow_definition \<Rightarrow> string \<Rightarrow> workflow_state \<Rightarrow> gmap" where
  "build_task_input now d name s =
     [(''task_name'', GStr name), (''workflow_id'', GStr (ws_workflow s)),
      (''timestamp'', GStr (format_rfc3339 now))] @
     (case Option.bind (wd_dsl d) (\<lambda>dsl.
             Option.bind (get_list dsl ''do'') (\<lambda>items. task_definition items name)) of
        None \<Rightarrow> []
      | Some td \<Rightarrow>
          (''task_definition'', td) #
          (case td of GMap t \<Rightarrow> task_parameters (format_rfc3339 now) t s | _ \<Rightarrow> []))"

subsection \<open>The next task\<close>

definition new_task :: "time \<Rightarrow> workflow_definition \<Rightarrow> string \<Rightarrow> workflow_state \<Rightarrow> pending_task" where
  "new_task now d name s =
     \<lparr>pt_name = name, pt_input = wire_map (build_task_input now d name s),
      pt_type = get_task_type d name, pt_queue = ''local-queue'', pt_activity = [],
      pt_created = Some now\<rparr>"

definition get_next_task ::
  "time \<Rightarrow> workflow_state \<Rightarrow> workflow_definition \<Rightarrow> workflow_state \<times> pending_task option" where
  "get_next_task now s d =
     (let tasks = extract_ordered_task_list d;
          s1 = (if ws_step s = [] then s\<lparr>ws_step := wd_start_state d\<rparr> else s);
          k = length (ws_completed s1)
      in if length tasks \<le> k then (s1, None)
         else if list_ex (\<lambda>p. pt_name p = tasks ! k) (ws_pending s1) then (s1, None)
         else if list_ex (\<lambda>c. ct_name c = tasks ! k) (ws_completed s1) then (s1, None)
         else (s1, Some (new_task now d (tasks ! k) s1)))"

subsection \<open>Tasks the engine runs\<close>

text \<open>The execution of a set task: the variables take the entries of \<open>set_data\<close>, and the
  recorded output is the input of the task.\<close>

definition execute_set_task ::
  "time \<Rightarrow> time \<Rightarrow> pending_task \<Rightarrow> workflow_state \<Rightarrow> (string, workflow_state \<times> task_data) result" where
  "execute_set_task start fin p s =
     (case map_of (case pt_input p of Some m \<Rightarrow> m | None \<Rightarrow> []) ''set_data'' of
        None \<Rightarrow> Inl ''no set_data found in set task input''
      | Some v \<Rightarrow>
          Inr (s\<lparr>ws_vars := Some (case v of GMap m \<Rightarrow> put_values (vars_of s) m | _ \<Rightarrow> vars_of s)\<rparr>,
               \<lparr>td_input = pt_input p, td_output = pt_input p,
                td_meta = \<lparr>tm_started = Some start, tm_completed = Some fin,
                           tm_duration_ms = milliseconds (fin - start), tm_status = TCompleted,
                           tm_error = [], tm_type = pt_type p, tm_queue = pt_queue p\<rparr>\<rparr>))"

definition wait_scheduled_event :: "time \<Rightarrow> pending_task \<Rightarrow> workflow_state \<Rightarrow> int \<Rightarrow> cloud_event" where
  "wait_scheduled_event now p s dur =
     (let (tenant, execution) = context_ids s
      in empty_event\<lparr>ev_id := ''timer-scheduled-'' @ pt_name p @ ''-'' @ itoa (unix_seconds now),
           ev_source := ''workflow-engine'', ev_specversion := ''1.0'',
           ev_type := ''io.flunq.timer.scheduled'', ev_tenant := tenant, ev_workflow := ws_workflow s,
           ev_execution := execution, ev_task := pt_name p, ev_time := now,
           ev_data := GMap [(''tenant_id'', GStr tenant), (''workflow_id'', GStr (ws_workflow s)),
             (''execution_id'', GStr execution), (''task_id'', GStr (pt_name p)),
             (''task_name'', GStr (pt_name p)), (''duration_ms'', GInt (milliseconds dur)),
             (''fire_at'', GStr (format_rfc3339 (now + dur)))]\<rparr>)"

definition execute_wait_task ::
  "publisher \<Rightarrow> time \<Rightarrow> pending_task \<Rightarrow> workflow_state \<Rightarrow> (workflow_state \<times> task_data) effect" where
  "execute_wait_task pub now p s =
     (case get_str (case pt_input p of Some m \<Rightarrow> m | None \<Rightarrow> []) ''duration'' of
        None \<Rightarrow> throw ''no duration found in wait task input''
      | Some str \<Rightarrow>
          (case parse_duration str of
             None \<Rightarrow> throw ''invalid duration format''
           | Some dur \<Rightarrow>
               bind_eff
                 (wrap_eff ''failed to schedule wait completion event''
                   (wrap_eff ''failed to publish timer.scheduled''
                     (send pub (wait_scheduled_event now p s dur))))
                 (\<lambda>_. ret (s,
                   \<lparr>td_input = pt_input p,
                    td_output = Some [(''wait_duration'', GStr (duration_string dur)),
                      (''scheduled_at'', GStr (format_rfc3339 now)),
                      (''resume_at'', GStr (format_rfc3339 (now + dur))),
                      (''status'', GStr ''waiting'')],
                    td_meta = \<lparr>tm_started = Some now, tm_completed = None, tm_duration_ms = 0,
                               tm_status = TPending, tm_error = [], tm_type = pt_type p,
                               tm_queue = pt_queue p\<rparr>\<rparr>))))"

definition execute_task ::
  "publisher \<Rightarrow> time \<Rightarrow> pending_task \<Rightarrow> workflow_state \<Rightarrow> (workflow_state \<times> task_data) effect" where
  "execute_task pub now p s =
     (if pt_type p = ''set'' then lift_res (execute_set_task now now p s)
      else if pt_type p = ''wait'' then execute_wait_task pub now p s
      else if pt_type p = ''call'' then throw ''call tasks must be executed by external executor service''
      else throw (''unsupported task type: '' @ pt_type p))"

subsection \<open>Completion\<close>

text \<open>A state of the older format that ends the workflow.\<close>

definition end_state :: "string \<Rightarrow> gval \<Rightarrow> bool" where
  "end_state step v \<longleftrightarrow>
     (case v of
        GMap m \<Rightarrow> map_of m ''name'' = Some (GStr step) \<and> get_bool m ''end'' = Some True
      | _ \<Rightarrow> False)"

definition dsl_map :: "workflow_definition \<Rightarrow> gmap" where
  "dsl_map d = (case wd_dsl d of Some m \<Rightarrow> m | None \<Rightarrow> [])"

definition is_workflow_complete :: "workflow_state \<Rightarrow> workflow_definition \<Rightarrow> bool" where
  "is_workflow_complete s d \<longleftrightarrow>
     (if has_key (dsl_map d) ''do'' then ws_status s = WFailed
      else ws_status s = WCompleted \<or> ws_status s = WFailed \<or>
           (case get_list (dsl_map d) ''states'' of
              Some xs \<Rightarrow> list_ex (end_state (ws_step s)) xs
            | None \<Rightarrow> False))"

end
