(* ===== verification/Event_Log.thy ===== *)
theory Event_Log
  imports Event_Stream
begin

text \<open>
  The event log the services share, as an interface. \<open>event_log\<close> states what publishing
  promises to a reader of histories: an event shows up in the history of its workflow, after
  every event of the same tenant, and in no other history. Its clients (the worker's
  per-execution history, the end-to-end runs) are proved from these laws alone.

  The provider is the code of \<^verbatim>\<open>redis_stream.go\<close> as modelled in \<open>Event_Stream\<close>, over a Redis
  server whose streams are a key-value list: \<^verbatim>\<open>XADD\<close> appends to the stream of a key,
  \<^verbatim>\<open>XRANGE\<close> returns it, \<^verbatim>\<open>KEYS\<close> lists the keys that match a glob pattern.
\<close>

definition tenant_of :: "cloud_event \<Rightarrow> string" where
  "tenant_of e = (if ev_tenant e = [] then ''default'' else ev_tenant e)"

locale event_log =
  fixes pub :: "'s \<Rightarrow> cloud_event \<Rightarrow> 's"
    and hist :: "'s \<Rightarrow> string \<Rightarrow> cloud_event list"
    and seen :: "cloud_event \<Rightarrow> cloud_event"
    and publishable :: "cloud_event \<Rightarrow> bool"
    and inv :: "'s \<Rightarrow> bool"
  assumes inv_pub: "inv s \<Longrightarrow> publishable e \<Longrightarrow> inv (pub s e)"
    and hist_other: "inv s \<Longrightarrow> publishable e \<Longrightarrow> ev_workflow e \<noteq> wid \<Longrightarrow>
      hist (pub s e) wid = hist s wid"
    and hist_same: "inv s \<Longrightarrow> publishable e \<Longrightarrow> ev_workflow e = wid \<Longrightarrow>
      \<exists>xs ys. hist s wid = xs @ ys \<and> hist (pub s e) wid = xs @ seen e # ys \<and>
        (\<forall>y \<in> set ys. tenant_of y \<noteq> tenant_of e)"
    and seen_fields: "tenant_of (seen e) = tenant_of e" "ev_execution (seen e) = ev_execution e"
begin

definition hist_tenant :: "'s \<Rightarrow> string \<Rightarrow> string \<Rightarrow> cloud_event list" where
  "hist_tenant s wid t = filter (\<lambda>e. tenant_of e = t) (hist s wid)"

lemma hist_tenant_pub:
  assumes "inv s" and "publishable e"
  shows "hist_tenant (pub s e) wid t =
    hist_tenant s wid t @ (if ev_workflow e = wid \<and> tenant_of e = t then [seen e] else [])"
proof (cases "ev_workflow e = wid")
  case True
  with hist_same [OF assms] obtain xs ys where
    h: "hist s wid = xs @ ys" "hist (pub s e) wid = xs @ seen e # ys"
       "\<forall>y \<in> set ys. tenant_of y \<noteq> tenant_of e" by blast
  have "tenant_of e = t \<Longrightarrow> filter (\<lambda>e. tenant_of e = t) ys = []"
    using h(3) by (auto simp: filter_empty_conv)
  with True h(1,2) show ?thesis by (auto simp: hist_tenant_def seen_fields)
next
  case False
  with hist_other [OF assms] show ?thesis by (simp add: hist_tenant_def)
qed

lemma hist_tenant_run:
  assumes "inv s" and "\<forall>e \<in> set es. publishable e"
  shows "hist_tenant (foldl pub s es) wid t =
    hist_tenant s wid t @ map seen (filter (\<lambda>e. ev_workflow e = wid \<and> tenant_of e = t) es)"
  using assms
proof (induction es arbitrary: s)
  case Nil
  then show ?case by simp
next
  case (Cons e es)
  then have "inv (pub s e)" by (auto intro: inv_pub)
  with Cons show ?case by (simp add: hist_tenant_pub)
qed

lemma inv_run: "inv s \<Longrightarrow> \<forall>e \<in> set es. publishable e \<Longrightarrow> inv (foldl pub s es)"
  by (induction es arbitrary: s) (auto intro: inv_pub)

lemma hist_length_pub:
  "inv s \<Longrightarrow> publishable e \<Longrightarrow>
   length (hist (pub s e) wid) = length (hist s wid) + (if ev_workflow e = wid then 1 else 0)"
  using hist_same [of s e wid] hist_other [of s e wid] by (cases "ev_workflow e = wid") auto

lemma hist_filter_irrelevant:
  assumes "inv s" and "publishable e" and "\<not> p (seen e)"
  shows "filter p (hist (pub s e) wid) = filter p (hist s wid)"
  using hist_same [OF assms(1,2), of wid] hist_other [OF assms(1,2), of wid] assms(3)
  by (cases "ev_workflow e = wid") auto

end

subsection \<open>The Redis streams behind the code\<close>

text \<open>Glob patterns without character classes and escapes; \<open>plain_id\<close> keeps both out of the
  patterns the program builds.\<close>

fun glob :: "string \<Rightarrow> string \<Rightarrow> bool" where
  "glob [] s \<longleftrightarrow> s = []"
| "glob (p # ps) s \<longleftrightarrow>
     (if p = CHR ''*'' then glob ps s \<or> (case s of [] \<Rightarrow> False | _ # t \<Rightarrow> glob (p # ps) t)
      else (case s of [] \<Rightarrow> False | c # t \<Rightarrow> (p = CHR ''?'' \<or> c = p) \<and> glob ps t))"

type_synonym streams = "(string \<times> message list) list"

definition redis_keys :: "streams \<Rightarrow> string \<Rightarrow> string list option" where
  "redis_keys s pat = Some (filter (glob pat) (map fst s))"

definition redis_xadd :: "streams \<Rightarrow> string \<times> message \<Rightarrow> streams" where
  "redis_xadd s km =
     put (fst km) ((case map_of s (fst km) of None \<Rightarrow> [] | Some ms \<Rightarrow> ms) @ [snd km]) s"

definition redis_publish :: "streams \<Rightarrow> cloud_event \<Rightarrow> streams" where
  "redis_publish s e =
     (case publish True (nat_digits (length s)) e of Inl _ \<Rightarrow> s | Inr km \<Rightarrow> redis_xadd s km)"

definition redis_history :: "streams \<Rightarrow> string \<Rightarrow> cloud_event list" where
  "redis_history s wid =
     (case get_event_history (redis_keys s) (map_of s) wid of Inl _ \<Rightarrow> [] | Inr es \<Rightarrow> es)"

definition plain_id :: "string \<Rightarrow> bool" where
  "plain_id w \<longleftrightarrow>
     w \<noteq> [] \<and> CHR ''*'' \<notin> set w \<and> CHR ''?'' \<notin> set w \<and> CHR ''['' \<notin> set w \<and> CHR 0x5C \<notin> set w"

definition redis_publishable :: "cloud_event \<Rightarrow> bool" where
  "redis_publishable e \<longleftrightarrow>
     rfc3339_range (ev_time e) \<and> to_wire (ev_data e) \<noteq> None \<and> plain_id (ev_workflow e)"

definition redis_seen :: "cloud_event \<Rightarrow> cloud_event" where
  "redis_seen e = wire_event (case to_wire (ev_data e) of None \<Rightarrow> GNil | Some w \<Rightarrow> w) e"

text \<open>Every message lies in the stream its event belongs to.\<close>

definition redis_inv :: "streams \<Rightarrow> bool" where
  "redis_inv s \<longleftrightarrow> distinct (map fst s) \<and>
     (\<forall>(k, ms) \<in> set s. \<forall>m \<in> set ms. \<forall>e. parse_redis_message m = Inr e \<longrightarrow> get_stream_key e = k)"

lemma glob_literal: "CHR ''*'' \<notin> set p \<Longrightarrow> CHR ''?'' \<notin> set p \<Longrightarrow> glob (p @ q) (p @ s) \<longleftrightarrow> glob q s"
  by (induction p) auto

lemma glob_refl: "CHR ''*'' \<notin> set p \<Longrightarrow> CHR ''?'' \<notin> set p \<Longrightarrow> glob p p"
  using glob_literal [of p "[]" "[]"] by simp

lemma glob_star: "glob ps s \<Longrightarrow> glob (CHR ''*'' # ps) (t @ s)"
  by (induction t) (auto split: list.splits)

lemma stream_key_cong:
  "tenant_of a = tenant_of b \<Longrightarrow> ev_workflow a = ev_workflow b \<Longrightarrow> get_stream_key a = get_stream_key b"
proof -
  have "get_stream_key e = ''tenant:'' @ tenant_of e @ '':workflow:'' @
      (if ev_workflow e \<noteq> [] then ev_workflow e else ''default'') @ '':events''" for e
    by (simp only: get_stream_key_def tenant_of_def Let_def)
  then show "tenant_of a = tenant_of b \<Longrightarrow> ev_workflow a = ev_workflow b \<Longrightarrow> ?thesis"
    by (simp only:)
qed

lemma glob_history_pattern:
  assumes "plain_id (ev_workflow e)"
  shows "glob (history_pattern (ev_workflow e)) (get_stream_key e)"
proof -
  let ?rest = "'':workflow:'' @ ev_workflow e @ '':events''"
  have "glob ?rest ?rest" using assms by (intro glob_refl) (auto simp: plain_id_def)
  then have "glob (CHR ''*'' # ?rest) (tenant_of e @ ?rest)" by (rule glob_star)
  then have "glob (''tenant:'' @ CHR ''*'' # ?rest) (''tenant:'' @ tenant_of e @ ?rest)"
    by (subst glob_literal) simp_all
  then show ?thesis
    using assms by (simp add: history_pattern_def get_stream_key_def plain_id_def tenant_of_def Let_def)
qed

lemma stream_events_append: "stream_events wid (a @ b) = stream_events wid a @ stream_events wid b"
  by (induction a) (auto split: sum.splits)

lemma set_stream_events:
  "e \<in> set (stream_events wid ms) \<longleftrightarrow> ev_workflow e = wid \<and> (\<exists>m \<in> set ms. parse_redis_message m = Inr e)"
  by (induction ms) (auto split: sum.splits)

text \<open>The history, stream by stream.\<close>

definition entry_events :: "string \<Rightarrow> string \<times> message list \<Rightarrow> cloud_event list" where
  "entry_events wid km = (if glob (history_pattern wid) (fst km) then stream_events wid (snd km) else [])"

lemma read_streams_sub:
  "distinct (map fst s) \<Longrightarrow> set ps \<subseteq> set s \<Longrightarrow>
   read_streams (map_of s) wid (filter (glob (history_pattern wid)) (map fst ps)) =
   concat (map (entry_events wid) ps)"
proof (induction ps)
  case Nil
  then show ?case by simp
next
  case (Cons p ps)
  then have m: "map_of s (fst p) = Some (snd p)" by (cases p) auto
  from Cons show ?case by (simp add: entry_events_def m)
qed

lemma redis_history_entries:
  "distinct (map fst s) \<Longrightarrow> redis_history s wid = concat (map (entry_events wid) s)"
  using read_streams_sub [of s s wid]
  by (simp add: redis_history_def get_event_history_def redis_keys_def)

lemma put_split:
  assumes "distinct (map fst s)"
  obtains (new) "k \<notin> fst ` set s" "put k v s = s @ [(k, v)]" "map_of s k = None"
  | (old) a w b where "s = a @ (k, w) # b" "put k v s = a @ (k, v) # b" "map_of s k = Some w"
proof (cases "k \<in> fst ` set s")
  case False
  then have "put k v s = s @ [(k, v)]" by (induction s) auto
  with False new show ?thesis by (simp add: map_of_eq_None_iff)
next
  case True
  then obtain w where "(k, w) \<in> set s" by auto
  then obtain a b where s: "s = a @ (k, w) # b" by (meson split_list)
  with assms have "k \<notin> fst ` set a" by auto
  then have "put k v s = a @ (k, v) # b" unfolding s by (induction a) auto
  moreover have "(k, w) \<in> set s" using s by simp
  then have "map_of s k = Some w" using assms by simp
  ultimately show ?thesis using old s by blast
qed

lemma redis_publish_eq:
  assumes "redis_publishable e"
  obtains m where "redis_publish s e = redis_xadd s (get_stream_key e, m)"
    "parse_redis_message m = Inr (redis_seen e)"
proof -
  from assms obtain w where w: "to_wire (ev_data e) = Some w" and t: "rfc3339_range (ev_time e)"
    by (auto simp: redis_publishable_def)
  then obtain m where m: "encode_event (nat_digits (length s)) e = Inr m" by (auto simp: encode_event_Inr)
  then have "publish True (nat_digits (length s)) e = Inr (get_stream_key e, m)" by (simp add: publish_Inr)
  moreover have "parse_redis_message m = Inr (redis_seen e)"
    using parse_encoded [OF t m w] w by (simp add: redis_seen_def)
  ultimately show ?thesis using that by (simp add: redis_publish_def)
qed

lemma redis_seen_fields [simp]:
  "ev_workflow (redis_seen e) = ev_workflow e" "ev_tenant (redis_seen e) = ev_tenant e"
  "ev_execution (redis_seen e) = ev_execution e" "ev_type (redis_seen e) = ev_type e"
  "ev_source (redis_seen e) = ev_source e" "ev_id (redis_seen e) = ev_id e"
  "tenant_of (redis_seen e) = tenant_of e" "get_stream_key (redis_seen e) = get_stream_key e"
  by (simp_all add: redis_seen_def tenant_of_def get_stream_key_def)

lemma redis_inv_publish:
  assumes "redis_inv s" and "redis_publishable e"
  shows "redis_inv (redis_publish s e)"
proof -
  obtain m where m: "redis_publish s e = redis_xadd s (get_stream_key e, m)"
    "parse_redis_message m = Inr (redis_seen e)" using assms(2) by (rule redis_publish_eq)
  have d: "distinct (map fst s)" using assms(1) by (simp add: redis_inv_def)
  from d show ?thesis
    by (rule put_split [of s "get_stream_key e"
        "(case map_of s (get_stream_key e) of None \<Rightarrow> [] | Some ms \<Rightarrow> ms) @ [m]"])
      (use assms(1) d m in \<open>auto simp: redis_inv_def redis_xadd_def\<close>)
qed

lemma redis_history_publish:
  assumes i: "redis_inv s" and p: "redis_publishable e"
  obtains xs ys where "redis_history s wid = xs @ ys"
    "redis_history (redis_publish s e) wid = xs @ (if ev_workflow e = wid then [redis_seen e] else []) @ ys"
    "\<forall>y \<in> set ys. ev_workflow y = wid \<and> get_stream_key y \<noteq> get_stream_key e"
proof -
  obtain m where m: "redis_publish s e = redis_xadd s (get_stream_key e, m)"
    "parse_redis_message m = Inr (redis_seen e)" using p by (rule redis_publish_eq)
  have d: "distinct (map fst s)" using i by (simp add: redis_inv_def)
  have d': "distinct (map fst (redis_publish s e))"
    using redis_inv_publish [OF i p] by (simp add: redis_inv_def)
  have g: "ev_workflow e = wid \<Longrightarrow> glob (history_pattern wid) (get_stream_key e)"
    using p glob_history_pattern by (auto simp: redis_publishable_def)
  let ?k = "get_stream_key e"
  let ?v = "(case map_of s ?k of None \<Rightarrow> [] | Some ms \<Rightarrow> ms) @ [m]"
  have e1: "stream_events wid [m] = (if ev_workflow e = wid then [redis_seen e] else [])"
    using m(2) by simp
  from d show ?thesis
  proof (cases rule: put_split [of s ?k ?v])
    case new
    then have "redis_publish s e = s @ [(?k, [m])]" using m(1) by (simp add: redis_xadd_def)
    then have "redis_history (redis_publish s e) wid = redis_history s wid @ entry_events wid (?k, [m])"
      using d d' by (simp add: redis_history_entries)
    then show ?thesis using that [of "redis_history s wid" "[]"] g e1 by (auto simp: entry_events_def)
  next
    case (old a w b)
    then have pub: "redis_publish s e = a @ (?k, w @ [m]) # b" using m(1) by (simp add: redis_xadd_def)
    let ?H = "\<lambda>ps. concat (map (entry_events wid) ps)"
    have h: "redis_history s wid = (?H a @ entry_events wid (?k, w)) @ ?H b"
      using d old(1) by (simp add: redis_history_entries)
    have h': "redis_history (redis_publish s e) wid =
        (?H a @ entry_events wid (?k, w)) @ (if ev_workflow e = wid then [redis_seen e] else []) @ ?H b"
      using d' pub g e1 by (simp add: redis_history_entries entry_events_def stream_events_append)
    have "\<forall>y \<in> set (?H b). ev_workflow y = wid \<and> get_stream_key y \<noteq> ?k"
    proof
      fix y assume "y \<in> set (?H b)"
      then obtain k' ms where k': "(k', ms) \<in> set b" and y: "y \<in> set (stream_events wid ms)"
        by (auto simp: entry_events_def split: if_splits)
      then obtain mm where "mm \<in> set ms" "parse_redis_message mm = Inr y" "ev_workflow y = wid"
        by (auto simp: set_stream_events)
      moreover have "?k \<notin> fst ` set b" using d old(1) by simp
      then have "k' \<noteq> ?k" using k' by (metis fst_conv image_eqI)
      moreover have "(k', ms) \<in> set s" using k' old(1) by simp
      then have "\<forall>m \<in> set ms. \<forall>e. parse_redis_message m = Inr e \<longrightarrow> get_stream_key e = k'"
        using i unfolding redis_inv_def by blast
      ultimately show "ev_workflow y = wid \<and> get_stream_key y \<noteq> ?k" by blast
    qed
    with h h' that show ?thesis by blast
  qed
qed

interpretation rlog: event_log redis_publish redis_history redis_seen redis_publishable redis_inv
proof unfold_locales
  fix s e wid
  assume i: "redis_inv s" and p: "redis_publishable e"
  show "redis_inv (redis_publish s e)" using i p by (rule redis_inv_publish)
  show "redis_history (redis_publish s e) wid = redis_history s wid" if "ev_workflow e \<noteq> wid"
    using redis_history_publish [OF i p, of wid] that by force
  show "\<exists>xs ys. redis_history s wid = xs @ ys \<and>
      redis_history (redis_publish s e) wid = xs @ redis_seen e # ys \<and>
      (\<forall>y \<in> set ys. tenant_of y \<noteq> tenant_of e)" if w: "ev_workflow e = wid"
  proof -
    obtain xs ys where h: "redis_history s wid = xs @ ys"
      "redis_history (redis_publish s e) wid = xs @ (if ev_workflow e = wid then [redis_seen e] else []) @ ys"
      "\<forall>y \<in> set ys. ev_workflow y = wid \<and> get_stream_key y \<noteq> get_stream_key e"
      using i p by (rule redis_history_publish)
    have "\<forall>y \<in> set ys. tenant_of y \<noteq> tenant_of e" using h(3) w stream_key_cong by blast
    with h(1,2) w show ?thesis by (intro exI [of _ xs] exI [of _ ys]) simp
  qed
qed simp_all

end
