(* ===== verification/Workflow_Database.thy ===== *)
theory Workflow_Database
  imports Event_Log
begin

text \<open>
  The database of workflow definitions and executions
  (\<^verbatim>\<open>shared/pkg/storage/redis_database.go\<close>). Redis is a key-value list; a value is stored as
  JSON, so a stored record comes back with its maps in wire form, and one that does not
  marshal is refused. \<open>faults\<close> names the Redis commands that fail. The keys of
  \<^verbatim>\<open>SCAN\<close> come in the order of the list. Definitions and executions live under keys with
  different prefixes and are kept in two lists.
\<close>

datatype exec_status = EPending | ERunning | ECompleted | EFailed | ECancelled

record execution =
  ex_id :: string
  ex_workflow :: string
  ex_status :: exec_status
  ex_input :: "gmap option"
  ex_output :: "gmap option"
  ex_started_by :: string
  ex_started :: time
  ex_completed :: "time option"
  ex_duration :: int
  ex_tenant :: string

record stored_definition =
  sd_id :: string
  sd_name :: string
  sd_description :: string
  sd_version :: string
  sd_spec_version :: string
  sd_definition :: "gmap option"
  sd_created :: time
  sd_updated :: time
  sd_created_by :: string
  sd_tenant :: string

type_synonym 'v store = "(string \<times> 'v) list"

subsection \<open>Keys\<close>

definition workflow_key :: "string \<Rightarrow> string" where
  "workflow_key wid = ''workflow:definition:'' @ wid"

definition workflow_key_with_tenant :: "bool \<Rightarrow> string \<Rightarrow> string \<Rightarrow> string" where
  "workflow_key_with_tenant mode tenant wid =
     (if mode \<and> tenant \<noteq> [] then ''tenant:'' @ tenant @ '':workflow:definition:'' @ wid
      else ''workflow:definition:'' @ wid)"

definition execution_key :: "string \<Rightarrow> string" where
  "execution_key eid = ''execution:'' @ eid"

definition execution_key_with_tenant :: "bool \<Rightarrow> string \<Rightarrow> string \<Rightarrow> string" where
  "execution_key_with_tenant mode tenant eid =
     (if mode \<and> tenant \<noteq> [] then ''tenant:'' @ tenant @ '':execution:'' @ eid
      else ''execution:'' @ eid)"

subsection \<open>Stored form\<close>

fun wire_opt :: "gmap option \<Rightarrow> gmap option option" where
  "wire_opt None = Some None"
| "wire_opt (Some m) = map_option Some (wire_map m)"

definition marshal_definition :: "stored_definition \<Rightarrow> stored_definition option" where
  "marshal_definition w = map_option (\<lambda>m. w\<lparr>sd_definition := m\<rparr>) (wire_opt (sd_definition w))"

definition marshal_execution :: "execution \<Rightarrow> execution option" where
  "marshal_execution x =
     Option.bind (wire_opt (ex_input x)) (\<lambda>i.
       map_option (\<lambda>out. x\<lparr>ex_input := i, ex_output := out\<rparr>) (wire_opt (ex_output x)))"

subsection \<open>Workflow definitions\<close>

definition create_workflow ::
  "faults \<Rightarrow> bool \<Rightarrow> time \<Rightarrow> stored_definition store \<Rightarrow> stored_definition \<Rightarrow>
   stored_definition store \<times> (string, unit) result" where
  "create_workflow faults mode now st w =
     (let key = workflow_key_with_tenant mode (sd_tenant w) (sd_id w)
      in case marshal_definition (w\<lparr>sd_created := now, sd_updated := now\<rparr>) of
           None \<Rightarrow> (st, Inl ''failed to marshal workflow'')
         | Some v \<Rightarrow>
             if faults ''EXISTS'' then (st, Inl ''failed to check workflow existence'')
             else if map_of st key \<noteq> None
             then (st, Inl (''workflow with ID '' @ sd_id w @ '' already exists''))
             else if faults ''SET'' then (st, Inl ''failed to store workflow'')
             else (put key v st, Inr ()))"

definition get_workflow_definition ::
  "faults \<Rightarrow> stored_definition store \<Rightarrow> string \<Rightarrow> (string, stored_definition) result" where
  "get_workflow_definition faults st wid =
     (if faults ''GET'' then Inl ''failed to get workflow''
      else case map_of st (workflow_key wid) of
             None \<Rightarrow> Inl (''workflow not found: '' @ wid) | Some v \<Rightarrow> Inr v)"

definition get_workflow_definition_with_tenant ::
  "faults \<Rightarrow> bool \<Rightarrow> stored_definition store \<Rightarrow> string \<Rightarrow> string \<Rightarrow>
   (string, stored_definition) result" where
  "get_workflow_definition_with_tenant faults mode st tenant wid =
     (if faults ''GET'' then Inl ''failed to get workflow''
      else case map_of st (workflow_key_with_tenant mode tenant wid) of
             None \<Rightarrow> Inl (''workflow not found: '' @ wid @ '' (tenant: '' @ tenant @ '')'')
           | Some v \<Rightarrow> Inr v)"

definition update_workflow_definition ::
  "faults \<Rightarrow> bool \<Rightarrow> time \<Rightarrow> stored_definition store \<Rightarrow> string \<Rightarrow> stored_definition \<Rightarrow>
   stored_definition store \<times> (string, unit) result" where
  "update_workflow_definition faults mode now st wid w =
     (let key = workflow_key_with_tenant mode (sd_tenant w) wid
      in if faults ''EXISTS'' then (st, Inl ''failed to check workflow existence'')
         else if map_of st key = None then (st, Inl (''workflow not found: '' @ wid))
         else case marshal_definition (w\<lparr>sd_updated := now, sd_id := wid\<rparr>) of
                None \<Rightarrow> (st, Inl ''failed to marshal workflow'')
              | Some v \<Rightarrow>
                  if faults ''SET'' then (st, Inl ''failed to update workflow'')
                  else (put key v st, Inr ()))"

text \<open>The keys of a store that match a pattern; nothing when \<^verbatim>\<open>SCAN\<close> fails.\<close>

definition scan_keys :: "faults \<Rightarrow> 'v store \<Rightarrow> string \<Rightarrow> string list" where
  "scan_keys faults st pat = (if faults ''SCAN'' then [] else filter (glob pat) (map fst st))"

definition delete_keys :: "string list \<Rightarrow> 'v store \<Rightarrow> 'v store" where
  "delete_keys ks st = filter (\<lambda>(k, _). k \<notin> set ks) st"

definition delete_workflow ::
  "faults \<Rightarrow> bool \<Rightarrow> stored_definition store \<Rightarrow> string \<Rightarrow>
   stored_definition store \<times> (string, unit) result" where
  "delete_workflow faults mode st wid =
     (let ks = workflow_key wid #
            (if mode then scan_keys faults st (''tenant:*:workflow:definition:'' @ wid) else [])
      in if faults ''DEL'' \<or> \<not> list_ex (\<lambda>k. map_of st k \<noteq> None) ks
         then (st, Inl (''workflow not found: '' @ wid))
         else (delete_keys ks st, Inr ()))"

definition delete_workflow_with_tenant ::
  "faults \<Rightarrow> bool \<Rightarrow> stored_definition store \<Rightarrow> string \<Rightarrow> string \<Rightarrow>
   stored_definition store \<times> (string, unit) result" where
  "delete_workflow_with_tenant faults mode st tenant wid =
     (let key = workflow_key_with_tenant mode tenant wid
      in if faults ''DEL'' then (st, Inl ''failed to delete workflow'')
         else if map_of st key = None
         then (st, Inl (''workflow not found: '' @ wid @ '' (tenant: '' @ tenant @ '')''))
         else (delete_keys [key] st, Inr ()))"

record workflow_filters =
  wf_name :: string
  wf_version :: string
  wf_tenant :: string

definition matches_filters :: "stored_definition \<Rightarrow> workflow_filters \<Rightarrow> bool" where
  "matches_filters w f \<longleftrightarrow>
     (wf_tenant f = [] \<or> sd_tenant w = wf_tenant f) \<and> (wf_name f = [] \<or> sd_name w = wf_name f) \<and>
     (wf_version f = [] \<or> sd_version w = wf_version f)"

definition scan_patterns :: "bool \<Rightarrow> string \<Rightarrow> string \<Rightarrow> string list" where
  "scan_patterns mode tenant kind =
     (if mode \<and> tenant \<noteq> [] then [''tenant:'' @ tenant @ '':'' @ kind @ ''*'']
      else (kind @ ''*'') # (if mode then [''tenant:*:'' @ kind @ ''*''] else []))"

text \<open>The values under the keys of the patterns; a value that cannot be read is skipped.\<close>

definition scan_values :: "faults \<Rightarrow> 'v store \<Rightarrow> string list \<Rightarrow> 'v list" where
  "scan_values faults st pats =
     (if faults ''GET'' then []
      else List.map_filter (map_of st) (concat (map (scan_keys faults st) pats)))"

definition list_workflows ::
  "faults \<Rightarrow> bool \<Rightarrow> stored_definition store \<Rightarrow> workflow_filters \<Rightarrow>
   (string, stored_definition list) result" where
  "list_workflows faults mode st f =
     (if faults ''SCAN'' then Inl ''failed to scan workflows''
      else Inr (filter (\<lambda>w. matches_filters w f)
             (scan_values faults st (scan_patterns mode (wf_tenant f) ''workflow:definition:''))))"

subsection \<open>Executions\<close>

definition terminal :: "exec_status \<Rightarrow> bool" where
  "terminal s \<longleftrightarrow> s = ECompleted \<or> s = EFailed \<or> s = ECancelled"

definition create_execution ::
  "faults \<Rightarrow> bool \<Rightarrow> time \<Rightarrow> execution store \<Rightarrow> execution \<Rightarrow>
   execution store \<times> (string, unit) result" where
  "create_execution faults mode now st x =
     (let key = execution_key_with_tenant mode (ex_tenant x) (ex_id x);
          x1 = (if ex_started x = zero_time then x\<lparr>ex_started := now\<rparr> else x);
          x2 = (if terminal (ex_status x1) then x1 else x1\<lparr>ex_completed := None\<rparr>)
      in case marshal_execution x2 of
           None \<Rightarrow> (st, Inl ''failed to marshal execution'')
         | Some v \<Rightarrow>
             if faults ''EXISTS'' then (st, Inl ''failed to check execution existence'')
             else if map_of st key \<noteq> None
             then (st, Inl (''execution with ID '' @ ex_id x @ '' already exists''))
             else if faults ''SET'' then (st, Inl ''failed to store execution'')
             else (put key v st, Inr ()))"

text \<open>Where an execution of that id is stored: under the plain key, or, in tenant mode, under
  the first tenant key that the scan finds.\<close>

definition find_execution_key :: "faults \<Rightarrow> bool \<Rightarrow> execution store \<Rightarrow> string \<Rightarrow> string option" where
  "find_execution_key faults mode st eid =
     (if map_of st (execution_key eid) \<noteq> None then Some (execution_key eid)
      else if mode
      then (case scan_keys faults st (''tenant:*:execution:'' @ eid) of [] \<Rightarrow> None | k # _ \<Rightarrow> Some k)
      else None)"

definition get_execution ::
  "faults \<Rightarrow> bool \<Rightarrow> execution store \<Rightarrow> string \<Rightarrow> (string, execution) result" where
  "get_execution faults mode st eid =
     (if faults ''GET'' then Inl ''failed to get execution''
      else if mode \<and> map_of st (execution_key eid) = None \<and> faults ''SCAN''
      then Inl ''failed to scan for tenant execution keys''
      else case Option.bind (find_execution_key faults mode st eid) (map_of st) of
             None \<Rightarrow> Inl (''execution not found: '' @ eid)
           | Some v \<Rightarrow> Inr v)"

text \<open>What is written: the start is kept, a completion time of a non-terminal status is
  dropped, a missing start becomes now.\<close>

definition normalize_execution :: "time \<Rightarrow> execution option \<Rightarrow> execution \<Rightarrow> execution" where
  "normalize_execution now existing x =
     (let x1 = (case existing of
                  Some y \<Rightarrow> if ex_started x = zero_time \<and> ex_started y \<noteq> zero_time
                            then x\<lparr>ex_started := ex_started y\<rparr> else x
                | None \<Rightarrow> x);
          x2 = (if ex_status x1 = EPending \<or> ex_status x1 = ERunning then x1\<lparr>ex_completed := None\<rparr> else x1)
      in if ex_started x2 = zero_time then x2\<lparr>ex_started := now\<rparr> else x2)"

definition update_execution ::
  "faults \<Rightarrow> bool \<Rightarrow> time \<Rightarrow> execution store \<Rightarrow> string \<Rightarrow> execution \<Rightarrow>
   execution store \<times> (string, unit) result" where
  "update_execution faults mode now st eid x =
     (if faults ''EXISTS'' then (st, Inl ''failed to check execution existence'')
      else if mode \<and> map_of st (execution_key eid) = None \<and> faults ''SCAN''
      then (st, Inl ''failed to scan for tenant execution keys'')
      else case find_execution_key faults mode st eid of
             None \<Rightarrow> (st, Inl (''execution not found: '' @ eid))
           | Some key \<Rightarrow>
               (case marshal_execution
                       (normalize_execution now (if faults ''GET'' then None else map_of st key)
                          (x\<lparr>ex_id := eid\<rparr>)) of
                  None \<Rightarrow> (st, Inl ''failed to marshal execution'')
                | Some v \<Rightarrow>
                    if faults ''SET'' then (st, Inl ''failed to update execution'')
                    else (put key v st, Inr ())))"

record execution_filters =
  ef_status :: exec_status
  ef_started_by :: string
  ef_from :: time
  ef_to :: time
  ef_tenant :: string

definition matches_execution_filters :: "bool \<Rightarrow> execution \<Rightarrow> execution_filters \<Rightarrow> bool" where
  "matches_execution_filters mode x f \<longleftrightarrow>
     (ef_status f = EPending \<or> ex_status x = ef_status f) \<and>
     (ef_started_by f = [] \<or> ex_started_by x = ef_started_by f) \<and>
     (\<not> mode \<or> ef_tenant f = [] \<or> ex_tenant x = ef_tenant f) \<and>
     (ef_from f = zero_time \<or> ef_from f \<le> ex_started x) \<and>
     (ef_to f = zero_time \<or> ex_started x \<le> ef_to f)"

definition list_executions ::
  "faults \<Rightarrow> bool \<Rightarrow> execution store \<Rightarrow> string \<Rightarrow> execution_filters \<Rightarrow>
   (string, execution list) result" where
  "list_executions faults mode st wid f =
     (if faults ''SCAN'' then Inl ''failed to scan executions''
      else Inr (filter (\<lambda>x. (wid = [] \<or> ex_workflow x = wid) \<and> matches_execution_filters mode x f)
             (scan_values faults st (scan_patterns mode (ef_tenant f) ''execution:''))))"

definition database_stats ::
  "faults \<Rightarrow> bool \<Rightarrow> stored_definition store \<Rightarrow> execution store \<Rightarrow> (string, nat \<times> nat) result" where
  "database_stats faults mode ds xs =
     (if faults ''SCAN'' then Inl ''failed to count workflows''
      else Inr (length (concat (map (scan_keys faults ds) (scan_patterns mode [] ''workflow:definition:''))),
                length (concat (map (scan_keys faults xs) (scan_patterns mode [] ''execution:'')))))"

end
