(* ===== verification/Event_Loop.thy ===== *)
theory Event_Loop
  imports Event_Stream
begin

text \<open>
  What the event loops of the three services share: attempts until one succeeds, the id a
  message is acknowledged under, the dead-letter copy of an event. The locale \<open>consumer\<close> is
  their contract (an event that is handled is acknowledged; one that is not goes to the dead
  letters and is acknowledged too); each service interprets it on its own loop.
\<close>

text \<open>Run the attempts in order until one succeeds: everything they put out, and the error of
  the last one if all fail.\<close>

fun try_each :: "('o, 'a) eff list \<Rightarrow> string \<Rightarrow> 'o list \<times> string option" where
  "try_each [] err = ([], Some err)"
| "try_each (x # xs) err =
     (case x of
        (outs, Inr _) \<Rightarrow> (outs, None)
      | (outs, Inl err') \<Rightarrow> (let (outs', r) = try_each xs err' in (outs @ outs', r)))"

text \<open>The acknowledgement id of a message: its \<open>ack_key\<close>, else stream and message id.\<close>

definition ack_id :: "cloud_event \<Rightarrow> string" where
  "ack_id e =
     (case ext_str e ''ack_key'' of
        Some k \<Rightarrow> k
      | None \<Rightarrow>
          (case (ext_str e ''redis_stream'', ext_str e ''redis_msg_id'') of
             (Some st, Some mid) \<Rightarrow> st @ ''|'' @ mid | _ \<Rightarrow> []))"

definition dlq_event :: "string \<Rightarrow> string \<Rightarrow> cloud_event \<Rightarrow> cloud_event" where
  "dlq_event ty reason e =
     add_extension ''reason'' (GStr reason) ((clone_event e)\<lparr>ev_type := ty\<rparr>)"

lemma dlq_event_fields [simp]:
  "ev_type (dlq_event ty r e) = ty" "ev_id (dlq_event ty r e) = ev_id e"
  "ev_data (dlq_event ty r e) = ev_data e" "ev_workflow (dlq_event ty r e) = ev_workflow e"
  "ev_execution (dlq_event ty r e) = ev_execution e" "ev_tenant (dlq_event ty r e) = ev_tenant e"
  "ext_str (dlq_event ty r e) ''reason'' = Some r"
  by (simp_all add: dlq_event_def ext_str_def get_add_extension)

lemma try_each_failed:
  "snd (try_each xs err) \<noteq> None \<longleftrightarrow> (\<forall>x \<in> set xs. \<exists>m. snd x = Inl m)"
proof (induction xs arbitrary: err)
  case Nil
  show ?case by simp
next
  case (Cons x xs)
  obtain outs r where x: "x = (outs, r)" by force
  show ?case by (cases r) (use Cons x in \<open>simp_all add: split_beta\<close>)
qed

lemma try_each_all:
  "snd (try_each xs err) \<noteq> None \<Longrightarrow> fst (try_each xs err) = concat (map fst xs)"
proof (induction xs arbitrary: err)
  case Nil
  show ?case by simp
next
  case (Cons x xs)
  obtain outs r where x: "x = (outs, r)" by force
  show ?case by (cases r) (use Cons x in \<open>simp_all add: split_beta\<close>)
qed

locale consumer =
  fixes handle :: "cloud_event \<Rightarrow> 'o list \<times> string option"
    and emit :: "cloud_event \<Rightarrow> 'o list"
    and ack :: "string \<Rightarrow> 'o list"
    and dead :: "string \<Rightarrow> cloud_event \<Rightarrow> cloud_event"
    and consume :: "cloud_event \<Rightarrow> 'o list"
  assumes consume_ok: "snd (handle e) = None \<Longrightarrow> ack_id e \<noteq> [] \<Longrightarrow>
      consume e = fst (handle e) @ ack (ack_id e)"
    and consume_dead: "snd (handle e) = Some err \<Longrightarrow> ext_str e ''ack_key'' = Some k \<Longrightarrow> k \<noteq> [] \<Longrightarrow>
      consume e = fst (handle e) @ emit (dead err e) @ ack k"
begin

lemma acked:
  assumes "ext_str e ''ack_key'' = Some k" and "k \<noteq> []"
  shows "\<exists>outs. consume e = outs @ ack k"
proof (cases "snd (handle e)")
  case None
  have "ack_id e = k" using assms(1) by (simp add: ack_id_def)
  with None assms(2) consume_ok [of e] show ?thesis by auto
next
  case (Some err)
  from consume_dead [OF this assms] have "consume e = (fst (handle e) @ emit (dead err e)) @ ack k"
    by simp
  then show ?thesis by blast
qed

lemma dead_lettered:
  assumes "snd (handle e) = Some err" and "ext_str e ''ack_key'' = Some k" and "k \<noteq> []"
  shows "consume e = fst (handle e) @ emit (dead err e) @ ack k"
  using assms by (rule consume_dead)

end

text \<open>A consumer whose handler may also bring the process down: then nothing more happens to the
  message, and the other promises hold of the events that do not crash it.\<close>

locale crashing_consumer =
  fixes handle :: "cloud_event \<Rightarrow> 'o list \<times> string option"
    and emit :: "cloud_event \<Rightarrow> 'o list"
    and ack :: "string \<Rightarrow> 'o list"
    and dead :: "string \<Rightarrow> cloud_event \<Rightarrow> cloud_event"
    and crashes :: "cloud_event \<Rightarrow> bool"
    and consume :: "cloud_event \<Rightarrow> 'o list"
  assumes consume_ok: "\<not> crashes e \<Longrightarrow> snd (handle e) = None \<Longrightarrow> ack_id e \<noteq> [] \<Longrightarrow>
      consume e = fst (handle e) @ ack (ack_id e)"
    and consume_dead: "\<not> crashes e \<Longrightarrow> snd (handle e) = Some err \<Longrightarrow> ext_str e ''ack_key'' = Some k \<Longrightarrow>
      k \<noteq> [] \<Longrightarrow> consume e = fst (handle e) @ emit (dead err e) @ ack k"
    and consume_crash: "crashes e \<Longrightarrow> consume e = fst (handle e)"
begin

lemma acked_unless_crash:
  assumes "\<not> crashes e" and "ext_str e ''ack_key'' = Some k" and "k \<noteq> []"
  shows "\<exists>outs. consume e = outs @ ack k"
proof (cases "snd (handle e)")
  case None
  have "ack_id e = k" using assms(2) by (simp add: ack_id_def)
  with None assms consume_ok [of e] show ?thesis by auto
next
  case (Some err)
  from consume_dead [OF assms(1) this assms(2,3)]
  have "consume e = (fst (handle e) @ emit (dead err e)) @ ack k" by simp
  then show ?thesis by blast
qed

end

sublocale consumer \<subseteq> steady: crashing_consumer handle emit ack dead "\<lambda>_. False" consume
  by unfold_locales (simp_all add: consume_ok consume_dead)

end
