(* ===== verification/Worker_Processor.thy ===== *)
theory Worker_Processor
  imports Engine_Tasks Workflow_Database Event_Loop
begin

text \<open>
  The worker (\<^verbatim>\<open>worker/internal/processor/workflow_processor.go\<close>, \<^verbatim>\<open>wait_scheduler.go\<close>): what it
  does with one event (skip it, or fetch the history, rebuild the state, apply the event,
  take the next step, save the record), and the loop around it (three attempts, dead letter,
  acknowledgement).

  The environment of a run is a record: the history and definition the worker reads, the
  execution record it reads, the clock and the id generator, and \<open>we_fault\<close>, which gives
  the error of an outgoing operation, if any. What the worker does to the outside is the
  list of its outputs, in order.
\<close>

datatype worker_out =
  Emit cloud_event
| StoreExecution string execution
| StoreState string workflow_state
| AckMessage string

record worker_env =
  we_history :: "string \<Rightarrow> (string, cloud_event list) result"
  we_definition :: "string \<Rightarrow> string \<Rightarrow> (string, workflow_definition) result"
  we_execution :: "(string \<Rightarrow> (string, execution) result) option"
  we_fault :: "worker_out \<Rightarrow> string option"
  we_fmt :: "gval \<Rightarrow> string"
  we_now :: time
  we_uuid :: string

type_synonym 'a work = "(worker_out, 'a) eff"

abbreviation we_pub :: "worker_env \<Rightarrow> publisher" where
  "we_pub env \<equiv> (\<lambda>e. we_fault env (Emit e))"

definition perform :: "worker_env \<Rightarrow> worker_out \<Rightarrow> unit work" where
  "perform env x = send (we_fault env) x"

subsection \<open>Settings from the environment\<close>

definition get_env_default :: "(string \<Rightarrow> string) \<Rightarrow> string \<Rightarrow> string \<Rightarrow> string" where
  "get_env_default env k d = (if env k \<noteq> [] then env k else d)"

definition get_env_int_default :: "(string \<Rightarrow> string) \<Rightarrow> string \<Rightarrow> int \<Rightarrow> int" where
  "get_env_int_default env k d =
     (if env k \<noteq> [] then (case atoi (env k) of Some n \<Rightarrow> n | None \<Rightarrow> d) else d)"

definition get_env_duration_default :: "(string \<Rightarrow> string) \<Rightarrow> string \<Rightarrow> int \<Rightarrow> int" where
  "get_env_duration_default env k d =
     (if env k \<noteq> [] then (case parse_duration (env k) of Some n \<Rightarrow> n | None \<Rightarrow> d) else d)"

definition get_env_bool_default :: "(string \<Rightarrow> string) \<Rightarrow> string \<Rightarrow> bool \<Rightarrow> bool" where
  "get_env_bool_default env k d =
     (let v = env k
      in if v = [] then d
         else if v = ''1'' \<or> to_lower v = ''true'' \<or> to_lower v = ''yes'' then True
         else if v = ''0'' \<or> to_lower v = ''false'' \<or> to_lower v = ''no'' then False
         else d)"

definition max_concurrency :: "(string \<Rightarrow> string) \<Rightarrow> int" where
  "max_concurrency env =
     (case (if env ''WORKER_CONCURRENCY'' \<noteq> [] then atoi (env ''WORKER_CONCURRENCY'') else None) of
        Some n \<Rightarrow> if 0 < n then n else 4 | None \<Rightarrow> 4)"

definition worker_filters :: stream_filters where
  "worker_filters =
     \<lparr>flt_types = [''io.flunq.workflow.created'', ''io.flunq.execution.started'',
                   ''io.flunq.task.completed'', ''io.flunq.timer.fired''],
      flt_workflows = [], flt_sources = []\<rparr>"

subsection \<open>Locks\<close>

text \<open>The lock of a workflow, created on first use. Locks are numbered.\<close>

definition get_workflow_lock :: "(string \<times> nat) list \<Rightarrow> string \<Rightarrow> (string \<times> nat) list \<times> nat" where
  "get_workflow_lock locks wid =
     (case map_of locks wid of
        Some l \<Rightarrow> (locks, l) | None \<Rightarrow> (put wid (length locks) locks, length locks))"

subsection \<open>History\<close>

definition skips :: "cloud_event \<Rightarrow> bool" where
  "skips e \<longleftrightarrow>
     ev_type e = ''io.flunq.workflow.created'' \<or>
     ev_source e = ''worker-service'' \<and> ev_type e = ''io.flunq.task.completed'' \<or>
     ev_type e = ''io.flunq.task.completed'' \<and> ev_source e \<noteq> ''executor-service'' \<and>
       ev_source e \<noteq> ''workflow-engine''"

definition fetch_complete_history :: "worker_env \<Rightarrow> string \<Rightarrow> (string, cloud_event list) result" where
  "fetch_complete_history env wid =
     (case we_history env wid of
        Inl e \<Rightarrow> Inl (''failed to fetch event history: '' @ e) | Inr es \<Rightarrow> Inr es)"

definition of_execution :: "string \<Rightarrow> cloud_event list \<Rightarrow> cloud_event list" where
  "of_execution eid es = filter (\<lambda>e. ev_execution e \<noteq> [] \<and> ev_execution e = eid) es"

definition fetch_history_for_execution ::
  "worker_env \<Rightarrow> string \<Rightarrow> string \<Rightarrow> (string, cloud_event list) result" where
  "fetch_history_for_execution env wid eid =
     bind_res (fetch_complete_history env wid) (\<lambda>es. Inr (of_execution eid es))"

definition history_for :: "worker_env \<Rightarrow> cloud_event \<Rightarrow> (string, cloud_event list) result" where
  "history_for env e =
     (if ev_execution e \<noteq> [] then fetch_history_for_execution env (ev_workflow e) (ev_execution e)
      else fetch_complete_history env (ev_workflow e))"

subsection \<open>Waits\<close>

definition timer_scheduled_event ::
  "time \<Rightarrow> string \<Rightarrow> string \<Rightarrow> string \<Rightarrow> string \<Rightarrow> string \<Rightarrow> int \<Rightarrow> cloud_event" where
  "timer_scheduled_event now uuid tenant wid execution task dur =
     empty_event\<lparr>ev_id := uuid, ev_source := ''worker-service'', ev_specversion := ''1.0'',
       ev_type := ''io.flunq.timer.scheduled'', ev_tenant := tenant, ev_workflow := wid,
       ev_execution := execution, ev_task := task, ev_time := now,
       ev_data := GMap [(''tenant_id'', GStr tenant), (''workflow_id'', GStr wid),
         (''execution_id'', GStr execution), (''task_id'', GStr task), (''task_name'', GStr task),
         (''duration_ms'', GInt (milliseconds dur)), (''fire_at'', GStr (format_rfc3339 (now + dur)))]\<rparr>"

definition schedule_wait ::
  "worker_env \<Rightarrow> string \<Rightarrow> string \<Rightarrow> string \<Rightarrow> string \<Rightarrow> int \<Rightarrow> unit work" where
  "schedule_wait env tenant wid execution task dur =
     perform env (Emit (timer_scheduled_event (we_now env) (we_uuid env) tenant wid execution task dur))"

subsection \<open>Requesting a task\<close>

definition request_parameters :: "pending_task \<Rightarrow> gmap \<Rightarrow> gmap" where
  "request_parameters p input =
     (let sets = (if pt_type p = ''set''
                  then (case map_of input ''set_data'' of Some v \<Rightarrow> [(''set_data'', v)] | None \<Rightarrow> [])
                  else []);
          calls = (if pt_type p = ''call''
                   then (case get_map input ''call_config'' of Some m \<Rightarrow> merge_into sets m | None \<Rightarrow> sets)
                   else sets)
      in if pt_type p = ''try''
         then (case get_map input ''try_config'' of Some m \<Rightarrow> merge_into calls m | None \<Rightarrow> calls)
         else calls)"

definition request_input :: "gmap \<Rightarrow> gmap" where
  "request_input input =
     filter (\<lambda>(k, _). k \<noteq> ''set_data'' \<and> k \<noteq> ''call_config'' \<and> k \<noteq> ''task_definition'') input"

fun task_outputs :: "gmap \<Rightarrow> completed_task list \<Rightarrow> gmap" where
  "task_outputs acc [] = acc"
| "task_outputs acc (c # cs) =
     task_outputs (case td_output (ct_data c) of Some m \<Rightarrow> put (ct_name c) (GMap m) acc | None \<Rightarrow> acc) cs"

definition request_context :: "workflow_state \<Rightarrow> gmap" where
  "request_context s =
     (case ws_input s of Some m \<Rightarrow> [(''workflow_input'', GMap m)] | None \<Rightarrow> []) @
     (case ws_vars s of Some m \<Rightarrow> [(''variables'', GMap m)] | None \<Rightarrow> []) @
     (let outs = task_outputs [] (ws_completed s) in if outs \<noteq> [] then [(''task_outputs'', GMap outs)] else [])"

definition task_requested_event :: "time \<Rightarrow> pending_task \<Rightarrow> workflow_state \<Rightarrow> cloud_event" where
  "task_requested_event now p s =
     (let tid = task_id_of_name (pt_name p) now;
          (tenant, execution) = context_ids s;
          params = (case pt_input p of Some m \<Rightarrow> request_parameters p m | None \<Rightarrow> []);
          input = (case pt_input p of Some m \<Rightarrow> request_input m | None \<Rightarrow> [])
      in empty_event\<lparr>ev_id := ''task-requested-'' @ tid, ev_source := ''worker-service'',
           ev_specversion := ''1.0'', ev_type := ''io.flunq.task.requested'', ev_tenant := tenant,
           ev_workflow := ws_workflow s, ev_execution := execution, ev_task := tid, ev_time := now,
           ev_data := GMap [(''task_id'', GStr tid), (''task_name'', GStr (pt_name p)),
             (''task_type'', GStr (pt_type p)), (''tenant_id'', GStr tenant),
             (''workflow_id'', GStr (ws_workflow s)), (''execution_id'', GStr execution),
             (''input'', GMap input), (''context'', GMap (request_context s)),
             (''config'', GMap [(''timeout'', GInt 300), (''retries'', GInt 3),
                                (''parameters'', GMap params)])]\<rparr>)"

definition publish_task_requested :: "worker_env \<Rightarrow> pending_task \<Rightarrow> workflow_state \<Rightarrow> unit work" where
  "publish_task_requested env p s =
     (if pt_type p = ''wait'' then
        (case pt_input p of
           None \<Rightarrow> throw ''wait task missing input''
         | Some m \<Rightarrow>
             (case get_str m ''duration'' of
                None \<Rightarrow> throw ''wait task missing duration''
              | Some str \<Rightarrow>
                  if str = [] then throw ''wait task missing duration''
                  else (case parse_duration str of
                          None \<Rightarrow> throw ''invalid wait duration''
                        | Some dur \<Rightarrow>
                            wrap_eff ''failed to schedule wait via timer service''
                              (schedule_wait env (fst (context_ids s)) (ws_workflow s)
                                 (snd (context_ids s)) (pt_name p) dur))))
      else wrap_eff ''failed to publish task requested event''
             (perform env (Emit (task_requested_event (we_now env) p s))))"

subsection \<open>Completing a workflow\<close>

definition completed_execution :: "time \<Rightarrow> workflow_state \<Rightarrow> execution \<Rightarrow> execution" where
  "completed_execution now s x =
     (let started = (if ex_started x = zero_time
                     then (case ws_created s of Some t \<Rightarrow> t | None \<Rightarrow> now) else ex_started x);
          x1 = x\<lparr>ex_started := started, ex_status := ECompleted, ex_completed := Some now,
                 ex_duration := now - started\<rparr>
      in case output_value s of Some m \<Rightarrow> x1\<lparr>ex_output := Some m\<rparr> | None \<Rightarrow> x1)"

definition update_execution_status :: "worker_env \<Rightarrow> string \<Rightarrow> workflow_state \<Rightarrow> unit work" where
  "update_execution_status env eid s =
     (if eid = [] then throw ''execution ID is empty''
      else case we_execution env of
             None \<Rightarrow> ret ()
           | Some get \<Rightarrow>
               (case get eid of
                  Inl e \<Rightarrow> throw (''failed to get execution '' @ eid @ '': '' @ e)
                | Inr x \<Rightarrow> wrap_eff (''failed to update execution '' @ eid)
                             (perform env (StoreExecution eid (completed_execution (we_now env) s x)))))"

text \<open>Run a computation whose error is only logged.\<close>

definition logged :: "unit work \<Rightarrow> unit work" where
  "logged x = (fst x, Inr ())"

definition workflow_completed_event :: "time \<Rightarrow> string \<Rightarrow> workflow_state \<Rightarrow> cloud_event" where
  "workflow_completed_event now uuid s =
     empty_event\<lparr>ev_id := uuid, ev_source := ''worker-service'', ev_specversion := ''1.0'',
       ev_type := ''io.flunq.workflow.completed'', ev_tenant := fst (context_ids s),
       ev_workflow := ws_workflow s, ev_execution := snd (context_ids s), ev_time := now,
       ev_data := GMap [(''workflow_id'', GStr (ws_workflow s)), (''status'', GStr ''completed''),
         (''output'', GMap (case output_value s of Some m \<Rightarrow> m | None \<Rightarrow> [])),
         (''completed_at'', GStr (format_rfc3339 now))]\<rparr>"

definition publish_workflow_completed :: "worker_env \<Rightarrow> workflow_state \<Rightarrow> workflow_state work" where
  "publish_workflow_completed env s =
     bind_eff (wrap_eff ''failed to publish workflow completed event''
                 (perform env (Emit (workflow_completed_event (we_now env) (we_uuid env) s)))) (\<lambda>_.
     let s1 = s\<lparr>ws_status := WCompleted, ws_updated := Some (we_now env)\<rparr>
     in bind_eff (logged (update_execution_status env (snd (context_ids s)) s1)) (\<lambda>_. ret s1))"

subsection \<open>Tasks the worker runs\<close>

definition time_or_epoch :: "time option \<Rightarrow> time" where
  "time_or_epoch t = (case t of Some x \<Rightarrow> x | None \<Rightarrow> 0)"

definition task_completed_event ::
  "time \<Rightarrow> string \<Rightarrow> pending_task \<Rightarrow> task_data \<Rightarrow> workflow_state \<Rightarrow> cloud_event" where
  "task_completed_event now uuid p td s =
     (let tid = task_id_of_name (pt_name p) now; (tenant, execution) = context_ids s
      in empty_event\<lparr>ev_id := uuid, ev_source := ''workflow-engine'', ev_specversion := ''1.0'',
           ev_type := ''io.flunq.task.completed'', ev_tenant := tenant, ev_workflow := ws_workflow s,
           ev_execution := execution, ev_task := tid, ev_time := now,
           ev_data := GMap [(''task_id'', GStr tid), (''task_name'', GStr (pt_name p)),
             (''task_type'', GStr (pt_type p)), (''tenant_id'', GStr tenant),
             (''workflow_id'', GStr (ws_workflow s)), (''execution_id'', GStr execution),
             (''success'', GBool True),
             (''input'', GMap (case pt_input p of Some m \<Rightarrow> m | None \<Rightarrow> [])),
             (''output'', GMap (case td_output td of Some m \<Rightarrow> m | None \<Rightarrow> [])),
             (''started_at'', GStr (format_rfc3339 (time_or_epoch (tm_started (td_meta td))))),
             (''completed_at'', GStr (format_rfc3339 (time_or_epoch (tm_completed (td_meta td))))),
             (''duration_ms'', GInt (tm_duration_ms (td_meta td)))]\<rparr>)"

definition publish_task_completed ::
  "worker_env \<Rightarrow> pending_task \<Rightarrow> task_data \<Rightarrow> workflow_state \<Rightarrow> unit work" where
  "publish_task_completed env p td s =
     wrap_eff ''failed to publish task completed event''
       (perform env (Emit (task_completed_event (we_now env) (we_uuid env) p td s)))"

subsection \<open>The next step\<close>

definition has_do :: "workflow_definition \<Rightarrow> bool" where
  "has_do d \<longleftrightarrow> has_key (dsl_map d) ''do''"

text \<open>No next task, but some are pending or not completed: not the end yet.\<close>

definition must_wait :: "workflow_state \<Rightarrow> workflow_definition \<Rightarrow> bool" where
  "must_wait s d \<longleftrightarrow>
     (case get_list (dsl_map d) ''do'' of
        Some items \<Rightarrow> ws_pending s \<noteq> [] \<or> length (ws_completed s) < length items
      | None \<Rightarrow> False)"

definition request_next :: "worker_env \<Rightarrow> workflow_state \<Rightarrow> pending_task \<Rightarrow> workflow_state work" where
  "request_next env s p =
     (if pt_type p = ''set'' then
        bind_eff (wrap_eff ''failed to execute set task''
                    (map_out Emit (execute_task (we_pub env) (we_now env) p s))) (\<lambda>(s', td).
        bind_eff (publish_task_completed env p td s') (\<lambda>_. ret s'))
      else bind_eff (wrap_eff ''failed to publish task requested event'' (publish_task_requested env p s))
             (\<lambda>_. ret s))"

definition execute_next_sdl_step ::
  "worker_env \<Rightarrow> workflow_state \<Rightarrow> workflow_definition \<Rightarrow> workflow_state work" where
  "execute_next_sdl_step env s d =
     (if \<not> has_do d \<and> is_workflow_complete s d
      then (if ws_status s \<noteq> WCompleted
            then wrap_eff ''failed to publish workflow completed event'' (publish_workflow_completed env s)
            else ret s)
      else case get_next_task (we_now env) s d of
             (s1, Some p) \<Rightarrow> request_next env s1 p
           | (s1, None) \<Rightarrow> if must_wait s1 d then ret s1 else publish_workflow_completed env s1)"

subsection \<open>One event\<close>

text \<open>The steps around the engine only log.\<close>

definition read_definition :: "worker_env \<Rightarrow> string \<Rightarrow> string \<Rightarrow> workflow_definition work" where
  [simp]: "read_definition env tenant wid = lift_res (we_definition env tenant wid)"

definition rebuild_complete_workflow_state ::
  "worker_env \<Rightarrow> workflow_definition \<Rightarrow> cloud_event list \<Rightarrow> workflow_state work" where
  [simp]: "rebuild_complete_workflow_state env d es =
     map_out Emit (rebuild_state (we_pub env) (we_fmt env) (we_now env) d es)"

definition process_new_event :: "worker_env \<Rightarrow> workflow_state \<Rightarrow> cloud_event \<Rightarrow> workflow_state work" where
  [simp]: "process_new_event env s e = map_out Emit (process_event (we_pub env) (we_fmt env) (we_now env) s e)"

definition update_workflow_record :: "worker_env \<Rightarrow> workflow_state \<Rightarrow> unit work" where
  [simp]: "update_workflow_record env s = perform env (StoreState (ws_workflow s) s)"

definition handle_event :: "worker_env \<Rightarrow> cloud_event \<Rightarrow> workflow_state work" where
  "handle_event env e =
     bind_eff (wrap_eff (if ev_execution e \<noteq> [] then ''failed to fetch execution-specific event history''
                         else ''failed to fetch complete event history'')
                 (lift_res (history_for env e))) (\<lambda>es.
     bind_eff (wrap_eff ''failed to get workflow definition''
                 (read_definition env (ev_tenant e) (ev_workflow e))) (\<lambda>d.
     bind_eff (wrap_eff ''failed to rebuild workflow state'' (rebuild_complete_workflow_state env d es)) (\<lambda>s.
     bind_eff (wrap_eff ''failed to process new event'' (process_new_event env s e)) (\<lambda>s1.
     bind_eff (wrap_eff ''failed to execute next SDL step'' (execute_next_sdl_step env s1 d)) (\<lambda>s2.
     bind_eff (wrap_eff ''failed to update workflow record'' (update_workflow_record env s2)) (\<lambda>_. ret s2))))))"

definition process_workflow_event :: "worker_env \<Rightarrow> cloud_event \<Rightarrow> workflow_state option work" where
  "process_workflow_event env e =
     (if skips e then ret None else bind_eff (handle_event env e) (\<lambda>s. ret (Some s)))"

subsection \<open>The event loop\<close>

text \<open>Three attempts, each in the environment of its time. The acknowledgement and the dead letter
  run in the environment of the last attempt.\<close>

definition worker_handle ::
  "worker_env \<Rightarrow> worker_env \<Rightarrow> worker_env \<Rightarrow> cloud_event \<Rightarrow> worker_out list \<times> string option" where
  "worker_handle env1 env2 env3 e =
     try_each (map (\<lambda>env. process_workflow_event env e) [env1, env2, env3]) []"

definition worker_dead_letter :: "string \<Rightarrow> cloud_event \<Rightarrow> cloud_event" where
  "worker_dead_letter err e = dlq_event ''io.flunq.event.dlq'' (''max_retries_exceeded:'' @ err) e"

definition consume :: "worker_env \<Rightarrow> worker_env \<Rightarrow> worker_env \<Rightarrow> cloud_event \<Rightarrow> worker_out list" where
  "consume env1 env2 env3 e =
     (case worker_handle env1 env2 env3 e of
        (outs, None) \<Rightarrow>
          outs @ (if ack_id e = [] then [] else fst (perform env3 (AckMessage (ack_id e))))
      | (outs, Some err) \<Rightarrow>
          outs @ fst (perform env3 (Emit (worker_dead_letter err e))) @
          (case ext_str e ''ack_key'' of Some k \<Rightarrow> fst (perform env3 (AckMessage k)) | None \<Rightarrow> []))"

interpretation worker: consumer "worker_handle env1 env2 env3" "\<lambda>e. fst (perform env3 (Emit e))"
    "\<lambda>k. fst (perform env3 (AckMessage k))" worker_dead_letter "consume env1 env2 env3"
  for env1 env2 env3
  by unfold_locales (simp_all add: consume_def split_beta split: option.split)

end
