(* ===== verification/Worker_Laws.thy ===== *)
theory Worker_Laws
  imports Worker_Processor
begin

text \<open>
  What the worker does with an event: the step it takes refines a decision on the progress of
  the workflow, histories of other executions do not matter, a wait becomes a timer of the
  right length, every message ends up acknowledged.
\<close>

subsection \<open>The next step as a decision\<close>

datatype decision = Wait | Finish | Request string

text \<open>From the ordered tasks, the number of items of the \<open>do\<close> list, the completed and the
  pending names.\<close>

definition decide :: "string list \<Rightarrow> nat \<Rightarrow> string list \<Rightarrow> string list \<Rightarrow> decision" where
  "decide tasks items finished waiting =
     (if length tasks \<le> length finished
      then (if waiting \<noteq> [] \<or> length finished < items then Wait else Finish)
      else if tasks ! length finished \<in> set waiting \<union> set finished then Wait
      else Request (tasks ! length finished))"

definition current_step_set :: "workflow_state \<Rightarrow> workflow_definition \<Rightarrow> workflow_state" where
  "current_step_set s d = (if ws_step s = [] then s\<lparr>ws_step := wd_start_state d\<rparr> else s)"

lemma current_step_set_simps [simp]:
  "ws_pending (current_step_set s d) = ws_pending s" "ws_completed (current_step_set s d) = ws_completed s"
  "progress_of (current_step_set s d) = progress_of s" "state_ok (current_step_set s d) = state_ok s"
  "ws_context (current_step_set s d) = ws_context s" "ws_workflow (current_step_set s d) = ws_workflow s"
  "ws_vars (current_step_set s d) = ws_vars s" "ws_input (current_step_set s d) = ws_input s"
  by (simp_all add: current_step_set_def)

lemma length_task_names: "length (task_names items) \<le> length items"
  by (induction items rule: task_names.induct) (auto split: option.splits)

lemma get_next_task_cases:
  "get_next_task now s d =
     (current_step_set s d,
      if length (ws_completed s) < length (extract_ordered_task_list d) \<and>
         extract_ordered_task_list d ! length (ws_completed s) \<notin>
           pt_name ` set (ws_pending s) \<union> ct_name ` set (ws_completed s)
      then Some (new_task now d (extract_ordered_task_list d ! length (ws_completed s)) (current_step_set s d))
      else None)"
  unfolding get_next_task_def current_step_set_def [symmetric] by (simp add: Let_def list_ex_image)

lemma do_definition_dsl:
  assumes "do_definition d ts"
  shows "has_do d" and "get_list (dsl_map d) ''do'' = Some (task_items ts)" and
    "extract_ordered_task_list d = map fst ts" and "length (task_items ts) = length ts"
  using assms extract_do_definition [OF assms]
  by (auto simp: do_definition_def has_do_def dsl_map_def has_key_def get_list_def task_items_def
      bind_eq_Some_conv)

lemma next_step_decision:
  assumes "do_definition d ts"
  shows "execute_next_sdl_step env s d =
    (case decide (map fst ts) (length ts) (pg_done (progress_of s)) (map fst (pg_waiting (progress_of s))) of
       Wait \<Rightarrow> ret (current_step_set s d)
     | Finish \<Rightarrow> publish_workflow_completed env (current_step_set s d)
     | Request n \<Rightarrow> request_next env (current_step_set s d) (new_task (we_now env) d n (current_step_set s d)))"
proof -
  note dd = do_definition_dsl [OF assms]
  have w: "map fst (pg_waiting (progress_of s)) = map pt_name (ws_pending s)"
    by (simp add: progress_of_def)
  have "must_wait (current_step_set s d) d \<longleftrightarrow>
      ws_pending s \<noteq> [] \<or> length (ws_completed s) < length ts"
    using dd by (simp add: must_wait_def)
  then show ?thesis
    using dd by (auto simp: execute_next_sdl_step_def get_next_task_cases decide_def w)
qed

lemma workflow_completed_outputs:
  assumes "we_fault env (Emit (workflow_completed_event (we_now env) (we_uuid env) s)) = None"
  shows "publish_workflow_completed env s =
    (Emit (workflow_completed_event (we_now env) (we_uuid env) s) #
       fst (update_execution_status env (snd (context_ids s))
              (s\<lparr>ws_status := WCompleted, ws_updated := Some (we_now env)\<rparr>)),
     Inr (s\<lparr>ws_status := WCompleted, ws_updated := Some (we_now env)\<rparr>))"
  using assms
  by (simp add: publish_workflow_completed_def perform_def logged_def ret_def Let_def)

subsection \<open>Waits\<close>

lemma wire_map_append:
  "wire_map (a @ b) = Option.bind (wire_map a) (\<lambda>x. map_option ((@) x) (wire_map b))"
proof (induction a)
  case Nil
  then show ?case by (cases "wire_map b") simp_all
next
  case (Cons p a)
  obtain k v where "p = (k, v)" by force
  with Cons show ?case
    by (cases "to_wire v"; cases "wire_map a"; cases "wire_map b") simp_all
qed

lemma is_wire_list_member: "is_wire_list xs \<Longrightarrow> x \<in> set xs \<Longrightarrow> is_wire x"
  by (induction xs) auto

lemma task_definition_items:
  "distinct (map fst ts) \<Longrightarrow> (name, b) \<in> set ts \<Longrightarrow> task_definition (task_items ts) name = Some b"
proof (induction ts)
  case Nil
  then show ?case by simp
next
  case (Cons p ts)
  then show ?case by (cases p) (force simp: task_items_def)
qed

lemma do_definition_input:
  assumes "do_definition d ts" and "distinct (map fst ts)" and "(name, GMap b) \<in> set ts"
  shows "build_task_input now d name s =
    [(''task_name'', GStr name), (''workflow_id'', GStr (ws_workflow s)),
     (''timestamp'', GStr (format_rfc3339 now)), (''task_definition'', GMap b)] @
    task_parameters (format_rfc3339 now) b s"
    and "get_task_type d name = (case recognised_type b of Some ty \<Rightarrow> ty | None \<Rightarrow> ''set'')"
  using assms task_definition_items [OF assms(2,3)] task_type_items [OF assms(2,3)]
  by (auto simp: do_definition_def build_task_input_def get_task_type_def)

lemma do_definition_wire:
  assumes "do_definition d ts" and "is_wire_map (dsl_map d)" and "(name, b) \<in> set ts"
  shows "is_wire b"
proof -
  from assms(1) obtain dsl where dsl: "wd_dsl d = Some dsl" "get_list dsl ''do'' = Some (task_items ts)"
    by (auto simp: do_definition_def)
  then obtain v where v: "map_of dsl ''do'' = Some v" "as_list v = Some (task_items ts)"
    by (auto simp: get_list_def bind_eq_Some_conv)
  with assms(2) dsl have "is_wire v" by (auto simp: dsl_map_def dest: is_wire_map_get)
  with v(2) have "is_wire_list (task_items ts)" by (cases v) auto
  moreover have "GMap [(name, b)] \<in> set (task_items ts)" using assms(3) by (force simp: task_items_def)
  ultimately have "is_wire (GMap [(name, b)])" by (blast intro: is_wire_list_member)
  then show ?thesis by simp
qed

text \<open>A task definition that only waits.\<close>

definition wait_task :: "gmap \<Rightarrow> string \<Rightarrow> bool" where
  "wait_task b dur \<longleftrightarrow> wait_duration b = Some dur \<and> map_of b ''set'' = None \<and>
     map_of b ''call'' = None \<and> map_of b ''try'' = None"

lemma wait_task_new:
  assumes d: "do_definition d ts" "distinct (map fst ts)" "(name, GMap b) \<in> set ts"
    and w: "is_wire_map (dsl_map d)" and b: "wait_task b dur"
  shows "pt_type (new_task now d name s) = ''wait''"
    and "\<exists>m. pt_input (new_task now d name s) = Some m \<and>
       get_str m ''duration'' = Some (iso_to_go_duration dur)"
proof -
  have "map_of b ''wait'' \<noteq> None"
    using b by (auto simp: wait_task_def wait_duration_def get_map_def bind_eq_Some_conv)
  with b have "recognised_type b = Some ''wait''"
    by (simp add: wait_task_def recognised_type_def has_key_def)
  then show "pt_type (new_task now d name s) = ''wait''"
    using do_definition_input(2) [OF d] by (simp add: new_task_def)
  have "is_wire_map b" using do_definition_wire [OF d(1) w d(3)] by simp
  then have "wire_map b = Some b" by (rule wire_fixed)
  moreover have "task_parameters (format_rfc3339 now) b s = [(''duration'', GStr (iso_to_go_duration dur))]"
    using b by (simp add: task_parameters_def wait_task_def)
  ultimately show "\<exists>m. pt_input (new_task now d name s) = Some m \<and>
       get_str m ''duration'' = Some (iso_to_go_duration dur)"
    using do_definition_input(1) [OF d] by (simp add: new_task_def get_str_def)
qed

lemma wait_request:
  assumes d: "do_definition d ts" "distinct (map fst ts)" "(name, GMap b) \<in> set ts"
    and w: "is_wire_map (dsl_map d)" and b: "wait_task b dur"
    and p: "parse_duration (iso_to_go_duration dur) = Some ns" "iso_to_go_duration dur \<noteq> []"
    and up: "\<And>x. we_fault env x = None"
  shows "request_next env s (new_task now d name s) =
    ([Emit (timer_scheduled_event (we_now env) (we_uuid env) (fst (context_ids s)) (ws_workflow s)
       (snd (context_ids s)) name ns)], Inr s)"
proof -
  obtain m where "pt_input (new_task now d name s) = Some m"
    "get_str m ''duration'' = Some (iso_to_go_duration dur)"
    using wait_task_new(2) [OF d w b] by blast
  moreover have "pt_name (new_task now d name s) = name" by (simp add: new_task_def)
  ultimately show ?thesis
    using wait_task_new(1) [OF d w b] p up
    by (simp add: request_next_def publish_task_requested_def schedule_wait_def perform_def
        bind_eff_def wrap_eff_def ret_def)
qed

subsection \<open>Set tasks\<close>

lemma set_task_request:
  assumes p: "pt_type p = ''set''" "pt_input p = Some m" "map_of m ''set_data'' = Some (GMap v)"
    and up: "\<And>x. we_fault env x = None"
  shows "\<exists>e. request_next env s p = ([Emit e], Inr (s\<lparr>ws_vars := Some (put_values (vars_of s) v)\<rparr>)) \<and>
    ev_type e = ''io.flunq.task.completed'' \<and>
    (\<exists>d. ev_data e = GMap d \<and> map_of d ''data'' = None \<and> get_bool d ''success'' = Some True \<and>
      map_of d ''output'' = Some (GMap m))"
proof -
  obtain s' td where x: "execute_set_task (we_now env) (we_now env) p s = Inr (s', td)"
    "s' = s\<lparr>ws_vars := Some (put_values (vars_of s) v)\<rparr>" "td_output td = Some m"
    using p by (simp add: execute_set_task_def)
  let ?e = "task_completed_event (we_now env) (we_uuid env) p td s'"
  have "request_next env s p = ([Emit ?e], Inr s')"
    using p(1) x(1) up by (simp add: request_next_def execute_task_def publish_task_completed_def
        perform_def bind_eff_def wrap_eff_def ret_def lift_res_def)
  moreover have "ev_type ?e = ''io.flunq.task.completed''"
    "\<exists>d. ev_data ?e = GMap d \<and> map_of d ''data'' = None \<and> get_bool d ''success'' = Some True \<and>
      map_of d ''output'' = Some (GMap m)"
    using x(3) by (simp_all add: task_completed_event_def Let_def get_bool_def split: prod.split)
  ultimately show ?thesis using x(2) by blast
qed

text \<open>A completion without a \<open>data\<close> block has no output for the engine.\<close>

lemma completed_without_data:
  assumes "ev_data e = GMap d" and "map_of d ''data'' = None" and "task_success d"
  shows "ws_vars (process_task_completed s e) = ws_vars s"
    and "\<forall>c \<in> set (ws_completed (process_task_completed s e)).
      c \<in> set (ws_completed s) \<or> td_output (ct_data c) = None"
  using assms
  by (auto simp: process_task_completed_def complete_task_fields task_data_of_event_def get_map_def Let_def)

text \<open>A set task whose data mentions \<^verbatim>\<open>${now}\<close> without parentheses.\<close>

lemma evaluate_now_field:
  "evaluate_expression now ''${now}'' (build_workflow_context s) = Inr GFunc"
proof -
  have "trim_space (take (length ''${now}'' - 3) (drop 2 ''${now}'')) = ''now''" by code_simp
  moreover have "\<not> has_prefix ''now'' ''$workflow.input.''" "\<not> has_prefix ''now'' ''$workflow.''"
    "\<not> has_prefix ''now'' ''$.''" "\<not> has_prefix ''now'' ''.''" "\<not> contains ''now'' ''.''"
    "\<not> contains ''now'' ''(''" "has_prefix ''${now}'' ''${''" "has_suffix ''${now}'' ''}''"
    by code_simp+
  ultimately show ?thesis
    by (simp add: evaluate_expression_def evaluate_builtin_def build_workflow_context_def Let_def map_of_put)
qed

lemma now_task_input:
  assumes d: "do_definition d ts" "distinct (map fst ts)" "(name, GMap b) \<in> set ts"
    and b: "map_of b ''set'' = Some (GMap [(k, GStr ''${now}'')])"
  shows "pt_input (new_task now d name s) = None" and "pt_type (new_task now d name s) = ''set''"
proof -
  have "set_data_for (format_rfc3339 now) (GMap [(k, GStr ''${now}'')]) s = GMap [(k, GFunc)]"
    using evaluate_now_field [of "format_rfc3339 now" s]
    by (simp add: set_data_for_def evaluate_set_task_data_def)
  with b have "wire_map (task_parameters (format_rfc3339 now) b s) = None"
    by (simp add: task_parameters_def wire_map_append split: option.split)
  then show "pt_input (new_task now d name s) = None"
    using do_definition_input(1) [OF d, of now s] by (simp add: new_task_def split: Option.bind_splits)
  show "pt_type (new_task now d name s) = ''set''"
    using do_definition_input(2) [OF d] b by (simp add: new_task_def recognised_type_def has_key_def)
qed

text \<open>What a request publishes: one of three kinds of event.\<close>

lemma send_mem: "y \<in> set (fst (send f x)) \<Longrightarrow> y = x"
  using fst_send_subset [of f x] by auto

lemma request_next_types:
  assumes "Emit x \<in> set (fst (request_next env s p))"
  shows "ev_type x \<in> {''io.flunq.task.completed'', ''io.flunq.task.requested'', ''io.flunq.timer.scheduled''}"
proof -
  have c: "ev_type (task_completed_event t u p td s') = ''io.flunq.task.completed''" for t u td s'
    by (simp add: task_completed_event_def Let_def split: prod.split)
  have r: "ev_type (task_requested_event t p s') = ''io.flunq.task.requested''" for t s'
    by (simp add: task_requested_event_def Let_def split: prod.split)
  have w: "ev_type (timer_scheduled_event t u a b cc dd n) = ''io.flunq.timer.scheduled''" for t u a b cc dd n
    by (simp add: timer_scheduled_event_def)
  show ?thesis
  proof (cases "pt_type p = ''set''")
    case True
    then have quiet: "fst (execute_task pub t p s) = []" for pub t by (simp add: execute_task_def)
    with assms True show ?thesis
      by (auto simp: request_next_def bind_eff_def publish_task_completed_def perform_def c
          split: sum.splits dest!: send_mem)
  next
    case False
    with assms show ?thesis
      by (auto simp: request_next_def bind_eff_def publish_task_requested_def schedule_wait_def
          perform_def r w split: sum.splits option.splits if_splits dest!: send_mem)
  qed
qed

subsection \<open>Histories\<close>

lemma of_execution_filter: "eid \<noteq> [] \<Longrightarrow> of_execution eid es = filter (\<lambda>e. ev_execution e = eid) es"
  by (auto simp: of_execution_def intro: filter_cong)

lemma handle_event_history:
  assumes "history_for env1 e = history_for env2 e"
    and "we_definition env1 = we_definition env2" "we_execution env1 = we_execution env2"
    "we_fault env1 = we_fault env2" "we_fmt env1 = we_fmt env2" "we_now env1 = we_now env2"
    "we_uuid env1 = we_uuid env2"
  shows "process_workflow_event env1 e = process_workflow_event env2 e"
proof -
  have pf: "perform env1 = perform env2" using assms(4) by (intro ext) (simp add: perform_def)
  have sw: "schedule_wait env1 = schedule_wait env2"
    using assms(6,7) by (intro ext) (simp add: schedule_wait_def pf)
  have ue: "update_execution_status env1 = update_execution_status env2"
    using assms(3,6) by (intro ext) (simp add: update_execution_status_def pf split: option.split sum.split)
  have pc: "publish_workflow_completed env1 = publish_workflow_completed env2"
    using assms(6,7) by (intro ext) (simp add: publish_workflow_completed_def pf ue)
  have tc: "publish_task_completed env1 = publish_task_completed env2"
    using assms(6,7) by (intro ext) (simp add: publish_task_completed_def pf)
  have tr: "publish_task_requested env1 = publish_task_requested env2"
    using assms(6) by (intro ext) (simp add: publish_task_requested_def pf sw split: option.split)
  have rn: "request_next env1 = request_next env2"
    using assms(4,6) by (intro ext) (simp add: request_next_def tc tr)
  have step: "execute_next_sdl_step env1 = execute_next_sdl_step env2"
    using assms(6) by (intro ext) (simp add: execute_next_sdl_step_def pc rn split: prod.split option.split)
  show ?thesis
    using assms by (simp add: process_workflow_event_def handle_event_def step pf)
qed

subsection \<open>Properties\<close>

definition demo_tasks :: "(string \<times> gval) list" where
  "demo_tasks = [(''first'', GMap [(''set'', GMap [(''x'', GStr ''1'')])]),
                 (''second'', GMap [(''wait'', GMap [(''duration'', GStr ''PT2S'')])])]"

definition demo_env :: worker_env where
  "demo_env =
     \<lparr>we_history = \<lambda>_. Inr demo_history, we_definition = \<lambda>_ _. Inr demo_definition,
      we_execution = None, we_fault = \<lambda>_. None, we_fmt = \<lambda>_. [], we_now = 0, we_uuid = ''u''\<rparr>"

lemma demo_env_simps [simp]:
  "we_history demo_env w = Inr demo_history" "we_definition demo_env t w = Inr demo_definition"
  "we_execution demo_env = None" "we_fault demo_env x = None" "we_fmt demo_env v = []"
  "we_now demo_env = 0" "we_uuid demo_env = ''u''"
  by (simp_all add: demo_env_def)

lemma demo_do: "do_definition demo_definition demo_tasks"
  by (simp add: do_definition_def demo_definition_def definition_of_dsl_def demo_tasks_def
      task_items_def get_defs)

lemma demo_wire: "is_wire_map (dsl_map demo_definition)"
  by (simp add: dsl_map_def demo_definition_def definition_of_dsl_def get_defs)

text \<open>C2: The step the worker takes for a workflow with a \<open>do\<close> list is a function of the
  workflow's progress alone: wait, publish the completion of the workflow, or request one task,
  as \<open>decide\<close> says from the ordered task names, the completed names and the pending names. The
  status of the workflow (a failure included) plays no part.\<close>

theorem next_step_refines_decision:
  assumes "do_definition d ts"
  shows "execute_next_sdl_step env s d =
    (case decide (map fst ts) (length ts) (pg_done (progress_of s)) (map fst (pg_waiting (progress_of s))) of
       Wait \<Rightarrow> ret (current_step_set s d)
     | Finish \<Rightarrow> publish_workflow_completed env (current_step_set s d)
     | Request n \<Rightarrow> request_next env (current_step_set s d) (new_task (we_now env) d n (current_step_set s d)))"
  using assms by (rule next_step_decision)

theorem next_step_refines_decision_witness:
  "do_definition demo_definition demo_tasks \<and>
   execute_next_sdl_step demo_env (empty_state demo_definition) demo_definition =
   request_next demo_env (current_step_set (empty_state demo_definition) demo_definition)
     (new_task 0 demo_definition ''first'' (current_step_set (empty_state demo_definition) demo_definition))"
  using next_step_refines_decision [OF demo_do, of demo_env "empty_state demo_definition"] demo_do
  by (simp add: decide_def demo_tasks_def)

text \<open>C7: Tasks are requested in the order of the \<open>do\<close> list. When the history completes exactly
  the first \<open>k\<close> tasks, in order, and none is pending, the worker requests the task at
  position \<open>k\<close> next, and nothing else.\<close>

theorem tasks_run_in_order:
  assumes d: "do_definition d ts" "distinct (map fst ts)" "k < length ts"
    and s: "snd (rebuild_state pub fmt now d es) = Inr s"
    and h: "List.map_filter success_name es = take k (map fst ts)"
    and none: "ws_pending s = []"
  shows "execute_next_sdl_step env s d =
    request_next env (current_step_set s d)
      (new_task (we_now env) d (fst (ts ! k)) (current_step_set s d))"
proof -
  have "pg_done (progress_of s) = rev (remdups (rev (take k (map fst ts))))"
    by (simp only: rebuild_progress [OF s] done_run h progress.simps note_done_remdups)
  also have "\<dots> = take k (map fst ts)"
    using d(2) by (simp add: distinct_remdups_id)
  finally have names: "pg_done (progress_of s) = take k (map fst ts)" .
  have "map fst ts ! k \<notin> set (take k (map fst ts))"
    using d(2,3) nth_eq_iff_index_eq [OF d(2), of _ k] by (auto simp: in_set_conv_nth)
  moreover have "pg_waiting (progress_of s) = []" using none by (simp add: progress_of_def)
  moreover have "length (ws_completed s) = k"
    using names d(3) by (metis length_map length_take min.absorb2 less_imp_le_nat progress_of_simps(2))
  moreover have "ct_name ` set (ws_completed s) = set (take k (map fst ts))"
    using names by (metis list.set_map progress_of_simps(2))
  ultimately show ?thesis
    using d(3) next_step_decision [OF d(1), of env s] by (simp add: decide_def)
qed

theorem tasks_run_in_order_witness:
  "\<exists>s. snd (rebuild_state (\<lambda>_. None) (\<lambda>_. []) 0 demo_definition demo_history) = Inr s \<and>
     execute_next_sdl_step demo_env s demo_definition =
     request_next demo_env (current_step_set s demo_definition)
       (new_task 0 demo_definition ''second'' (current_step_set s demo_definition))"
proof -
  obtain s where s: "snd (rebuild_state (\<lambda>_. None) (\<lambda>_. []) 0 demo_definition demo_history) = Inr s"
    using demo_rebuild by blast
  have "pg_waiting (progress_of s) = []" unfolding rebuild_progress [OF s]
    by (simp add: demo_history_def progress_step_def outcome_def task_success_def get_defs)
  then have none: "ws_pending s = []" by (simp add: progress_of_def)
  have h: "List.map_filter success_name demo_history = take 1 (map fst demo_tasks)"
    by (simp add: demo_history_def demo_tasks_def success_name_def task_success_def
        completed_task_name_def get_defs str_or_empty_def map_filter_simps)
  have "distinct (map fst demo_tasks)" "1 < length demo_tasks" by (simp_all add: demo_tasks_def)
  from tasks_run_in_order [OF demo_do this s h none, of demo_env] s show ?thesis
    by (auto simp: demo_tasks_def)
qed

text \<open>C8: A workflow is completed only when all of its tasks are. If the successful completions
  of the history all name tasks of the definition, and the worker's next step publishes any
  event of type \<open>workflow.completed\<close>, then every task of the \<open>do\<close> list has completed and none
  is pending.\<close>

theorem completed_only_when_done:
  assumes d: "do_definition d ts" "distinct (map fst ts)"
    and s: "snd (rebuild_state pub fmt now d es) = Inr s"
    and own: "set (List.map_filter success_name es) \<subseteq> set (map fst ts)"
    and emit: "Emit x \<in> set (fst (execute_next_sdl_step env s d))"
    and x: "ev_type x = ''io.flunq.workflow.completed''"
  shows "set (map fst ts) \<subseteq> set (List.map_filter success_name es) \<and> ws_pending s = []"
proof -
  let ?dec = "decide (map fst ts) (length ts) (pg_done (progress_of s)) (map fst (pg_waiting (progress_of s)))"
  have fin: "?dec = Finish"
  proof (cases ?dec)
    case Wait
    with emit show ?thesis by (simp add: next_step_decision [OF d(1)])
  next
    case (Request n)
    with emit have e: "Emit x \<in> set (fst (request_next env (current_step_set s d)
        (new_task (we_now env) d n (current_step_set s d))))"
      by (simp add: next_step_decision [OF d(1)])
    have "ev_type x \<noteq> ''io.flunq.workflow.completed''"
      using request_next_types [OF e] by auto
    with x show ?thesis by contradiction
  qed
  have names: "map ct_name (ws_completed s) = rev (remdups (rev (List.map_filter success_name es)))"
    by (simp only: rebuild_progress [OF s] done_run progress.simps note_done_remdups
        progress_of_simps(2) [symmetric])
  have pend: "ws_pending s = []" and len: "length ts \<le> length (ws_completed s)"
    using fin by (auto simp: decide_def progress_of_def split: if_splits)
  define ns where "ns = map ct_name (ws_completed s)"
  have "distinct ns" "set ns = set (List.map_filter success_name es)" by (simp_all add: ns_def names)
  moreover have "length ts \<le> length ns" using len by (simp add: ns_def)
  then have "card (set (map fst ts)) \<le> card (set ns)"
    using d(2) \<open>distinct ns\<close> by (metis distinct_card length_map)
  ultimately have "set (map fst ts) = set (List.map_filter success_name es)"
    using own by (metis List.finite_set card_seteq)
  with pend show ?thesis by simp
qed

definition demo_full :: "cloud_event list" where
  "demo_full = demo_history @ [demo_event ''io.flunq.timer.fired'' [(''task_name'', GStr ''second'')]]"

lemma demo_full_rebuild:
  "\<exists>s. snd (rebuild_state (\<lambda>_. None) (\<lambda>_. []) 0 demo_definition demo_full) = Inr s"
  by (simp add: rebuild_state_def demo_full_def demo_history_def process_event_def process_timer_fired_def
      get_defs)

lemma demo_full_names: "List.map_filter success_name demo_full = [''first'', ''second'']"
  by (simp add: demo_full_def demo_history_def success_name_def task_success_def
      completed_task_name_def get_defs str_or_empty_def map_filter_simps)

theorem completed_only_when_done_witness:
  "\<exists>s x. snd (rebuild_state (\<lambda>_. None) (\<lambda>_. []) 0 demo_definition demo_full) = Inr s \<and>
     Emit x \<in> set (fst (execute_next_sdl_step demo_env s demo_definition)) \<and>
     ev_type x = ''io.flunq.workflow.completed'' \<and> ws_pending s = []"
proof -
  obtain s where s: "snd (rebuild_state (\<lambda>_. None) (\<lambda>_. []) 0 demo_definition demo_full) = Inr s"
    using demo_full_rebuild by blast
  let ?x = "workflow_completed_event 0 ''u'' (current_step_set s demo_definition)"
  have p: "progress_of s = \<lparr>pg_status = WRunning, pg_done = [''first'', ''second''], pg_waiting = []\<rparr>"
    unfolding rebuild_progress [OF s]
    by (simp add: demo_full_def demo_history_def progress_step_def outcome_def task_success_def
        completed_task_name_def get_defs str_or_empty_def note_done_def)
  have "execute_next_sdl_step demo_env s demo_definition =
      publish_workflow_completed demo_env (current_step_set s demo_definition)"
    unfolding next_step_decision [OF demo_do] p by (simp add: decide_def demo_tasks_def)
  then have e: "Emit ?x \<in> set (fst (execute_next_sdl_step demo_env s demo_definition))"
    using workflow_completed_outputs [of demo_env "current_step_set s demo_definition"] by auto
  have t: "ev_type ?x = ''io.flunq.workflow.completed''" by (simp add: workflow_completed_event_def)
  have "distinct (map fst demo_tasks)" by (simp add: demo_tasks_def)
  moreover have "set (List.map_filter success_name demo_full) \<subseteq> set (map fst demo_tasks)"
    by (simp add: demo_full_names demo_tasks_def)
  ultimately show ?thesis
    using completed_only_when_done [OF demo_do _ s _ e t] s e t by blast
qed

text \<open>A wait task of \<open>PTnS\<close> becomes exactly one \<open>timer.scheduled\<close> event, of \<open>n\<close> seconds from
  now, for that task, workflow and execution: the ISO duration of the definition, the Go duration
  of the task input and the nanoseconds of the timer agree, and the state is unchanged.\<close>

lemma wait_request_seconds:
  assumes d: "do_definition d ts" "distinct (map fst ts)" "(name, GMap b) \<in> set ts"
    and w: "is_wire_map (dsl_map d)" and b: "wait_task b (''PT'' @ nat_digits n @ ''S'')"
    and n: "int n * 1000000000 < 2 ^ 63"
    and up: "\<And>x. we_fault env x = None"
  shows "request_next env s (new_task now d name s) =
    ([Emit (timer_scheduled_event (we_now env) (we_uuid env) (fst (context_ids s)) (ws_workflow s)
       (snd (context_ids s)) name (int n * 1000000000))], Inr s)"
proof -
  have iso: "iso_to_go_duration (''PT'' @ nat_digits n @ ''S'') = nat_digits n @ ''s''"
  proof -
    have "to_lower ''S'' = ''s''" by code_simp
    then show ?thesis using iso_duration_unit [of "''S''" n] by simp
  qed
  show ?thesis
    by (rule wait_request [OF d w b _ _ up]) (simp_all only: iso parse_duration_seconds [OF n], simp)
qed



text \<open>A set task that uses the documented field \<open>${now}\<close> can never run. The evaluator returns
  the function stored under \<open>now\<close> instead of a time; a function has no wire form, so the whole
  input of the task is dropped, and the worker fails every attempt with "no set_data found".\<close>

theorem now_field_breaks_set_task:
  assumes d: "do_definition d ts" "distinct (map fst ts)" "(name, GMap b) \<in> set ts"
    and b: "map_of b ''set'' = Some (GMap [(k, GStr ''${now}'')])"
  shows "request_next env s (new_task now d name s') =
    throw ''failed to execute set task: no set_data found in set task input''"
  using now_task_input [OF d b]
  by (simp add: request_next_def execute_task_def execute_set_task_def map_out_def lift_res_def
      wrap_eff_def bind_eff_def throw_def)

theorem now_field_breaks_set_task_witness:
  "request_next demo_env (empty_state demo_definition) (new_task 0
     (demo_definition\<lparr>wd_dsl := Some [(''do'', GList [GMap [(''a'', GMap [(''set'', GMap [(''t'', GStr ''${now}'')])])]])]\<rparr>)
     ''a'' (empty_state demo_definition)) =
   throw ''failed to execute set task: no set_data found in set task input''"
  by (rule now_field_breaks_set_task [where ts = "[(''a'', GMap [(''set'', GMap [(''t'', GStr ''${now}'')])])]"
        and b = "[(''set'', GMap [(''t'', GStr ''${now}'')])]" and k = "''t''"])
    (simp_all add: do_definition_def task_items_def get_defs)

text \<open>C15: Executions are isolated. With the Redis event log as history, publishing an event of
  another execution (of any workflow or tenant) does not change what the worker does with an
  event: same outputs, same resulting state.\<close>

theorem executions_isolated:
  assumes st: "redis_inv st" "redis_publishable x"
    and other: "ev_execution x \<noteq> ev_execution e" "ev_execution e \<noteq> []"
  shows "process_workflow_event (env\<lparr>we_history := \<lambda>w. Inr (redis_history (redis_publish st x) w)\<rparr>) e =
    process_workflow_event (env\<lparr>we_history := \<lambda>w. Inr (redis_history st w)\<rparr>) e"
proof (rule handle_event_history)
  have "of_execution (ev_execution e) (redis_history (redis_publish st x) w) =
      of_execution (ev_execution e) (redis_history st w)" for w
    unfolding of_execution_def
    by (rule rlog.hist_filter_irrelevant [OF st]) (use other in simp)
  then show "history_for (env\<lparr>we_history := \<lambda>w. Inr (redis_history (redis_publish st x) w)\<rparr>) e =
      history_for (env\<lparr>we_history := \<lambda>w. Inr (redis_history st w)\<rparr>) e"
    using other(2)
    by (simp add: history_for_def fetch_history_for_execution_def fetch_complete_history_def)
qed simp_all

theorem executions_isolated_witness:
  "process_workflow_event (demo_env\<lparr>we_history := \<lambda>w. Inr (redis_history
      (redis_publish [] (empty_event\<lparr>ev_workflow := ''w'', ev_execution := ''other'', ev_time := 0\<rparr>)) w)\<rparr>)
     (demo_history ! 0) =
   process_workflow_event (demo_env\<lparr>we_history := \<lambda>w. Inr (redis_history [] w)\<rparr>) (demo_history ! 0)"
  by (rule executions_isolated)
    (simp_all add: redis_inv_def redis_publishable_def plain_id_def empty_event_def demo_history_def
      rfc3339_range_def zero_time_def second_def)



text \<open>A workflow of the older format that has failed is reported as completed: the worker
  publishes \<open>workflow.completed\<close> for it and overwrites its status with completed.\<close>

theorem legacy_failure_completes:
  assumes "\<not> has_do d" and "ws_status s = WFailed"
    and "we_fault env (Emit (workflow_completed_event (we_now env) (we_uuid env) s)) = None"
  shows "\<exists>outs t. execute_next_sdl_step env s d =
      (Emit (workflow_completed_event (we_now env) (we_uuid env) s) # outs, Inr t) \<and>
    ws_status t = WCompleted"
proof -
  have "is_workflow_complete s d"
    using assms(1,2) by (simp add: is_workflow_complete_def has_do_def)
  then show ?thesis
    using assms(1,2) workflow_completed_outputs [OF assms(3)]
    by (simp add: execute_next_sdl_step_def)
qed

theorem legacy_failure_completes_witness:
  "\<exists>outs t. execute_next_sdl_step demo_env ((empty_state (definition_of_dsl []))\<lparr>ws_status := WFailed\<rparr>)
       (definition_of_dsl []) =
      (Emit (workflow_completed_event 0 ''u'' ((empty_state (definition_of_dsl []))\<lparr>ws_status := WFailed\<rparr>)) # outs, Inr t) \<and>
    ws_status t = WCompleted"
  using legacy_failure_completes [of "definition_of_dsl []" "(empty_state (definition_of_dsl []))\<lparr>ws_status := WFailed\<rparr>" demo_env]
  by (simp add: has_do_def dsl_map_def definition_of_dsl_def get_defs has_key_def)

end
