(* ===== verification/Worker_Database.thy ===== *)
theory Worker_Database
  imports Worker_Laws
begin

text \<open>
  The laws of the database, as the interface \<open>execution_store\<close>, and the worker's adapter to it
  (\<^verbatim>\<open>worker/internal/adapters/shared_database_adapter.go\<close>), its client: the conversion of
  definitions and of workflow states into the shared records, and the write of a state.
\<close>

text \<open>The interface: an update that succeeds replaces the record of that id by its stored form,
  which depends on the record that was there, and touches no other id; one that fails changes
  nothing.\<close>

locale execution_store =
  fixes get :: "'s \<Rightarrow> string \<Rightarrow> (string, 'x) result"
    and upd :: "'s \<Rightarrow> string \<Rightarrow> 'x \<Rightarrow> 's \<times> (string, unit) result"
    and stored :: "'x \<Rightarrow> string \<Rightarrow> 'x \<Rightarrow> 'x option"
    and plain :: "string \<Rightarrow> bool"
  assumes upd_ok: "upd s i x = (s', Inr ()) \<Longrightarrow>
      \<exists>old y. get s i = Inr old \<and> stored old i x = Some y \<and> get s' i = Inr y"
    and upd_fail: "upd s i x = (s', Inl e) \<Longrightarrow> s' = s"
    and upd_other: "upd s i x = (s', r) \<Longrightarrow> plain i \<Longrightarrow> plain j \<Longrightarrow> i \<noteq> j \<Longrightarrow> get s' j = get s j"
begin

text \<open>Two updates of one record: the second sees what the first stored.\<close>

lemma upd_twice:
  assumes "upd s i x = (s1, Inr ())" and "upd s1 i x' = (s2, Inr ())"
  obtains old y z where "get s i = Inr old" "stored old i x = Some y" "stored y i x' = Some z"
    "get s1 i = Inr y" "get s2 i = Inr z"
  using upd_ok [OF assms(1)] upd_ok [OF assms(2)] that by force

lemma upd_other_run:
  "\<forall>(j, y) \<in> set us. plain j \<and> j \<noteq> i \<Longrightarrow> plain i \<Longrightarrow>
   get (foldl (\<lambda>s (j, y). fst (upd s j y)) s us) i = get s i"
proof (induction us arbitrary: s)
  case Nil
  then show ?case by simp
next
  case (Cons u us)
  obtain j y where u: "u = (j, y)" by force
  obtain s' r where "upd s j y = (s', r)" by force
  with Cons u upd_other [of s j y s' r i] show ?case by simp
qed

end

subsection \<open>The Redis database provides it\<close>

definition stored_execution :: "time \<Rightarrow> execution \<Rightarrow> string \<Rightarrow> execution \<Rightarrow> execution option" where
  "stored_execution now old eid x = marshal_execution (normalize_execution now (Some old) (x\<lparr>ex_id := eid\<rparr>))"

definition plain_eid :: "string \<Rightarrow> bool" where
  "plain_eid i \<longleftrightarrow> plain_id i \<and> CHR '':'' \<notin> set i"

lemma find_key_scan:
  assumes "find_execution_key no_faults mode st i = Some k"
  shows "k = execution_key i \<and> map_of st k \<noteq> None \<or>
    k \<in> fst ` set st \<and> glob (''tenant:*:execution:'' @ i) k"
proof (cases "map_of st (execution_key i) = None")
  case True
  define ks where "ks = scan_keys no_faults st (''tenant:*:execution:'' @ i)"
  from True assms have "mode" "(case ks of [] \<Rightarrow> None | k # _ \<Rightarrow> Some k) = Some k"
    unfolding find_execution_key_def ks_def [symmetric] by (simp_all split: if_splits)
  then obtain ks' where "ks = k # ks'" by (cases ks) simp_all
  then have "k \<in> set (map fst st) \<and> glob (''tenant:*:execution:'' @ i) k"
    unfolding ks_def scan_keys_def using filter_ConsD by (metis no_faults_simps)
  then show ?thesis by simp
next
  case False
  then show ?thesis using assms by (simp add: find_execution_key_def)
qed

lemma find_key_in: "find_execution_key no_faults mode st i = Some k \<Longrightarrow> map_of st k \<noteq> None"
  using find_key_scan [of mode st i k] by (metis map_of_eq_None_iff)

lemma map_fst_put_existing: "map_of st k \<noteq> None \<Longrightarrow> map fst (put k v st) = map fst st"
  by (induction st) auto

lemma find_key_put:
  "map_of st k \<noteq> None \<Longrightarrow> find_execution_key f mode (put k v st) i = find_execution_key f mode st i"
  by (auto simp: find_execution_key_def scan_keys_def map_fst_put_existing map_of_put)

lemma get_execution_eq:
  "get_execution no_faults mode st i =
     (case Option.bind (find_execution_key no_faults mode st i) (map_of st) of
        None \<Rightarrow> Inl (''execution not found: '' @ i) | Some v \<Rightarrow> Inr v)"
  by (simp add: get_execution_def)

lemma update_execution_eq:
  "update_execution no_faults mode now st i x =
     (case find_execution_key no_faults mode st i of
        None \<Rightarrow> (st, Inl (''execution not found: '' @ i))
      | Some k \<Rightarrow>
          (case stored_execution now (the (map_of st k)) i x of
             None \<Rightarrow> (st, Inl ''failed to marshal execution'')
           | Some v \<Rightarrow> (put k v st, Inr ())))"
  using find_key_in [of mode st i]
  by (auto simp: update_execution_def stored_execution_def split: option.split)

text \<open>The key of an execution ends in its id.\<close>

lemma glob_literal_suffix:
  "CHR ''*'' \<notin> set p \<Longrightarrow> CHR ''?'' \<notin> set p \<Longrightarrow> glob (CHR ''*'' # p) s \<Longrightarrow> \<exists>t. s = t @ p"
proof (induction s)
  case Nil
  then have "glob p []" by simp
  then show ?case using Nil by (cases p) (auto split: if_splits)
next
  case (Cons c s)
  from Cons.prems(3) consider "glob p (c # s)" | "glob (CHR ''*'' # p) s" by auto
  then show ?case
  proof cases
    case 1
    have "glob q u \<Longrightarrow> CHR ''*'' \<notin> set q \<Longrightarrow> CHR ''?'' \<notin> set q \<Longrightarrow> u = q" for q u
      by (induction q u rule: glob.induct) (auto split: if_splits list.splits)
    with 1 Cons.prems show ?thesis by blast
  next
    case 2
    with Cons obtain t where "s = t @ p" by blast
    then show ?thesis by (metis append_Cons)
  qed
qed

lemma glob_prefix:
  "CHR ''*'' \<notin> set p \<Longrightarrow> CHR ''?'' \<notin> set p \<Longrightarrow> glob (p @ q) s \<Longrightarrow>
   \<exists>t. s = p @ t \<and> glob q t"
proof (induction p arbitrary: s)
  case Nil
  then show ?case by simp
next
  case (Cons c p)
  then obtain t where "s = c # t" "glob (p @ q) t" by (auto split: list.splits)
  with Cons.IH [of t] Cons.prems show ?case by auto
qed

lemma last_segment: "a @ CHR '':'' # i = b @ CHR '':'' # j \<Longrightarrow> CHR '':'' \<notin> set i \<Longrightarrow> CHR '':'' \<notin> set j \<Longrightarrow> i = j"
proof (induction a arbitrary: b)
  case Nil
  then show ?case by (cases b) auto
next
  case (Cons c a)
  then show ?case by (cases b) auto
qed

lemma find_key_segment:
  assumes "find_execution_key no_faults mode st i = Some k" and "plain_eid i"
  shows "\<exists>t. k = t @ CHR '':'' # i"
proof (cases "k = execution_key i")
  case True
  then show ?thesis by (auto simp: execution_key_def)
next
  case False
  then have g: "glob (''tenant:*:execution:'' @ i) k" using find_key_scan [OF assms(1)] by simp
  have "''tenant:*:execution:'' @ i = ''tenant:'' @ CHR ''*'' # '':execution:'' @ i" by simp
  with g have "glob (''tenant:'' @ CHR ''*'' # '':execution:'' @ i) k" by (simp only:)
  then have "\<exists>t. k = ''tenant:'' @ t \<and> glob (CHR ''*'' # '':execution:'' @ i) t"
    by (rule glob_prefix [rotated 2]) simp_all
  moreover have "CHR ''*'' \<notin> set ('':execution:'' @ i)" "CHR ''?'' \<notin> set ('':execution:'' @ i)"
    using assms(2) by (simp_all add: plain_eid_def plain_id_def)
  ultimately obtain t where "k = t @ '':execution:'' @ i"
    using glob_literal_suffix by (metis append.assoc)
  then have "k = (t @ '':execution'') @ CHR '':'' # i" by simp
  then show ?thesis by blast
qed

interpretation execs: execution_store "get_execution no_faults mode" "update_execution no_faults mode now"
    "stored_execution now" plain_eid
  for mode now
proof unfold_locales
  fix s i x s' e r j
  show "\<exists>old y. get_execution no_faults mode s i = Inr old \<and> stored_execution now old i x = Some y \<and>
      get_execution no_faults mode s' i = Inr y" if "update_execution no_faults mode now s i x = (s', Inr ())"
    using that find_key_in [of mode s i]
    by (auto simp: update_execution_eq get_execution_eq find_key_put map_of_put split: option.splits)
  show "s' = s" if "update_execution no_faults mode now s i x = (s', Inl e)"
    using that by (auto simp: update_execution_eq split: option.splits)
  show "get_execution no_faults mode s' j = get_execution no_faults mode s j"
    if u: "update_execution no_faults mode now s i x = (s', r)" and p: "plain_eid i" "plain_eid j" "i \<noteq> j"
  proof (cases "s' = s")
    case True
    then show ?thesis by simp
  next
    case False
    then obtain k v where k: "find_execution_key no_faults mode s i = Some k" "s' = put k v s"
      using u by (auto simp: update_execution_eq split: option.splits)
    have "k' \<noteq> k" if "find_execution_key no_faults mode s j = Some k'" for k'
      using find_key_segment [OF k(1) p(1)] find_key_segment [OF that p(2)] p last_segment
      by (auto simp: plain_eid_def)
    with k find_key_in [OF k(1)] show ?thesis
      by (cases "find_execution_key no_faults mode s j") (auto simp: get_execution_eq find_key_put map_of_put)
  qed
qed

subsection \<open>The adapter of the worker\<close>

definition worker_definition :: "stored_definition \<Rightarrow> workflow_definition" where
  "worker_definition w =
     \<lparr>wd_id = sd_id w, wd_name = sd_name w, wd_description = sd_description w,
      wd_version = sd_version w, wd_spec_version = sd_spec_version w, wd_start_state = [],
      wd_dsl = Option.bind (sd_definition w) wire_map\<rparr>"

definition adapter_definition ::
  "faults \<Rightarrow> bool \<Rightarrow> stored_definition store \<Rightarrow> string \<Rightarrow> string \<Rightarrow>
   (string, workflow_definition) result" where
  "adapter_definition faults mode st tenant wid =
     bind_res (get_workflow_definition_with_tenant faults mode st tenant wid)
       (\<lambda>w. Inr (worker_definition w))"

definition adapter_create ::
  "faults \<Rightarrow> bool \<Rightarrow> time \<Rightarrow> stored_definition store \<Rightarrow> workflow_definition \<Rightarrow>
   stored_definition store \<times> (string, unit) result" where
  "adapter_create faults mode now st d =
     create_workflow faults mode now st
       \<lparr>sd_id = wd_id d, sd_name = wd_name d, sd_description = wd_description d,
        sd_version = wd_version d, sd_spec_version = wd_spec_version d, sd_definition = wd_dsl d,
        sd_created = zero_time, sd_updated = zero_time, sd_created_by = [], sd_tenant = []\<rparr>"

definition exec_status_of :: "workflow_status \<Rightarrow> exec_status" where
  "exec_status_of s =
     (case s of WRunning \<Rightarrow> ERunning | WCompleted \<Rightarrow> ECompleted | WFailed \<Rightarrow> EFailed
      | WCancelled \<Rightarrow> ECancelled | _ \<Rightarrow> EPending)"

definition status_of_exec :: "exec_status \<Rightarrow> workflow_status" where
  "status_of_exec s =
     (case s of EPending \<Rightarrow> WCreated | ERunning \<Rightarrow> WRunning | ECompleted \<Rightarrow> WCompleted
      | EFailed \<Rightarrow> WFailed | ECancelled \<Rightarrow> WCancelled)"

text \<open>The id of the execution a state belongs to; a state without one gets a made-up id.\<close>

definition state_execution_id :: "string \<Rightarrow> workflow_state \<Rightarrow> string" where
  "state_execution_id wid s =
     (if snd (context_ids s) = []
      then wid @ ''-exec-'' @ itoa (unix_seconds (time_or_epoch (ws_created s)))
      else snd (context_ids s))"

definition execution_of_state :: "(string, execution) result \<Rightarrow> string \<Rightarrow> workflow_state \<Rightarrow> execution" where
  "execution_of_state existing wid s =
     (let created = (case ws_created s of Some t \<Rightarrow> t | None \<Rightarrow> zero_time);
          status = exec_status_of (ws_status s);
          started = (case existing of
                       Inr y \<Rightarrow> if ex_started y \<noteq> zero_time then ex_started y else created
                     | Inl _ \<Rightarrow> created);
          kept = (case existing of Inr y \<Rightarrow> ex_completed y | Inl _ \<Rightarrow> None)
      in \<lparr>ex_id = state_execution_id wid s, ex_workflow = wid, ex_status = status,
          ex_input = ws_input s, ex_output = output_value s, ex_started_by = ''worker-service'',
          ex_started = started,
          ex_completed = (if terminal status \<and> ws_updated s \<noteq> None then ws_updated s else kept),
          ex_duration = 0, ex_tenant = fst (context_ids s)\<rparr>)"

definition update_workflow_state ::
  "faults \<Rightarrow> bool \<Rightarrow> time \<Rightarrow> execution store \<Rightarrow> string \<Rightarrow> workflow_state \<Rightarrow>
   execution store \<times> (string, unit) result" where
  "update_workflow_state faults mode now st wid s =
     (let eid = state_execution_id wid s;
          x = execution_of_state (get_execution faults mode st eid) wid s
      in case update_execution faults mode now st eid x of
           (st', Inr _) \<Rightarrow> (st', Inr ())
         | (st', Inl _) \<Rightarrow>
             (case create_execution faults mode now st' x of
                (st'', Inr _) \<Rightarrow> (st'', Inr ())
              | (st'', Inl e) \<Rightarrow> (st'', Inl (''failed to create execution: '' @ e))))"

text \<open>The most recently started of a non-empty list of executions, the first on a tie.\<close>

fun latest_execution :: "execution \<Rightarrow> execution list \<Rightarrow> execution" where
  "latest_execution x [] = x"
| "latest_execution x (y # ys) = latest_execution (if ex_started x < ex_started y then y else x) ys"

definition no_execution_filters :: "string \<Rightarrow> execution_filters" where
  "no_execution_filters tenant =
     \<lparr>ef_status = EPending, ef_started_by = [], ef_from = zero_time, ef_to = zero_time, ef_tenant = tenant\<rparr>"

definition get_workflow_state ::
  "faults \<Rightarrow> bool \<Rightarrow> execution store \<Rightarrow> string \<Rightarrow> (string, string \<times> workflow_status) result" where
  "get_workflow_state faults mode st wid =
     (case list_executions faults mode st wid (no_execution_filters []) of
        Inl e \<Rightarrow> Inl (''failed to list executions: '' @ e)
      | Inr [] \<Rightarrow> Inl (''workflow state not found: '' @ wid)
      | Inr (x # xs) \<Rightarrow> Inr (wid, status_of_exec (ex_status (latest_execution x (x # xs)))))"

definition adapter_list ::
  "faults \<Rightarrow> bool \<Rightarrow> stored_definition store \<Rightarrow> execution store \<Rightarrow> string \<Rightarrow> string \<Rightarrow>
   (string, (string \<times> workflow_status) list) result" where
  "adapter_list faults mode ds xs tenant name =
     bind_res (list_workflows faults mode ds \<lparr>wf_name = name, wf_version = [], wf_tenant = tenant\<rparr>)
       (\<lambda>ws. Inr (List.map_filter (\<lambda>w.
          case list_executions faults mode xs (sd_id w) (no_execution_filters (sd_tenant w)) of
            Inl _ \<Rightarrow> None
          | Inr [] \<Rightarrow> Some (sd_id w, WCreated)
          | Inr (y # ys) \<Rightarrow> Some (sd_id w, status_of_exec (ex_status (latest_execution y (y # ys)))))
        ws))"

subsection \<open>Laws\<close>

lemma exec_status_round_trip: "exec_status_of (status_of_exec x) = x"
  by (cases x) (simp_all add: exec_status_of_def status_of_exec_def)

lemma latest_execution_max:
  "latest_execution x ys \<in> set (x # ys) \<and> (\<forall>y \<in> set (x # ys). ex_started y \<le> ex_started (latest_execution x ys))"
  by (induction x ys rule: latest_execution.induct) auto

text \<open>What a stored execution satisfies.\<close>

definition execution_ok :: "execution \<Rightarrow> bool" where
  "execution_ok x \<longleftrightarrow> ex_started x \<noteq> zero_time \<and> (terminal (ex_status x) \<or> ex_completed x = None) \<and>
     opt_ok is_wire_map (ex_input x) \<and> opt_ok is_wire_map (ex_output x)"

lemma wire_opt_ok: "wire_opt m = Some m' \<Longrightarrow> opt_ok is_wire_map m'"
  by (cases m) (auto dest: to_wire_is_wire)

lemma wire_opt_id: "opt_ok is_wire_map m \<Longrightarrow> wire_opt m = Some m"
  by (cases m) (simp_all add: wire_fixed)

lemma marshal_execution_fields:
  assumes "marshal_execution x = Some y"
  shows "ex_id y = ex_id x" "ex_status y = ex_status x" "ex_started y = ex_started x"
    "ex_completed y = ex_completed x" "ex_duration y = ex_duration x" "ex_started_by y = ex_started_by x"
    "ex_tenant y = ex_tenant x" "ex_workflow y = ex_workflow x"
    "opt_ok is_wire_map (ex_input y)" "opt_ok is_wire_map (ex_output y)"
  using assms wire_opt_ok by (auto simp: marshal_execution_def bind_eq_Some_conv)

lemma normalize_ok:
  "now \<noteq> zero_time \<Longrightarrow> marshal_execution (normalize_execution now old x) = Some y \<Longrightarrow> execution_ok y"
  by (auto simp: execution_ok_def marshal_execution_fields normalize_execution_def Let_def terminal_def
      split: option.splits if_splits) (cases "ex_status x"; simp add: terminal_def)+

lemma normalize_fields:
  "ex_id (normalize_execution now old x) = ex_id x"
  "ex_status (normalize_execution now old x) = ex_status x"
  "ex_duration (normalize_execution now old x) = ex_duration x"
  "ex_started_by (normalize_execution now old x) = ex_started_by x"
  "ex_input (normalize_execution now old x) = ex_input x"
  "ex_output (normalize_execution now old x) = ex_output x"
  by (simp_all add: normalize_execution_def Let_def split: option.split)

definition store_ok :: "execution store \<Rightarrow> bool" where
  "store_ok st \<longleftrightarrow> (\<forall>(k, x) \<in> set st. execution_ok x)"

lemma store_ok_put: "store_ok st \<Longrightarrow> execution_ok x \<Longrightarrow> store_ok (put k x st)"
  by (induction st) (auto simp: store_ok_def)

lemma create_execution_ok:
  "store_ok st \<Longrightarrow> now \<noteq> zero_time \<Longrightarrow> store_ok (fst (create_execution f mode now st x))"
  by (auto simp: create_execution_def Let_def execution_ok_def marshal_execution_fields
      split: option.split intro!: store_ok_put)

lemma update_execution_ok:
  "store_ok st \<Longrightarrow> now \<noteq> zero_time \<Longrightarrow> store_ok (fst (update_execution f mode now st i x))"
  by (auto simp: update_execution_def intro!: store_ok_put normalize_ok split: option.split)

lemma worker_key_inject:
  assumes "CHR '':'' \<notin> set t" "CHR '':'' \<notin> set t'"
    and "workflow_key_with_tenant True t w = workflow_key_with_tenant True t' w'"
  shows "t = t' \<and> w = w'"
proof -
  have "a @ CHR '':'' # x = b @ CHR '':'' # y \<Longrightarrow> CHR '':'' \<notin> set a \<Longrightarrow> CHR '':'' \<notin> set b \<Longrightarrow> a = b \<and> x = y"
    for a b x y :: string
  proof (induction a arbitrary: b)
    case Nil
    then show ?case by (cases b) auto
  next
    case (Cons c a)
    then show ?case by (cases b) auto
  qed
  from this [of t "''workflow:definition:'' @ w" t' "''workflow:definition:'' @ w'"] assms show ?thesis
    by (simp add: workflow_key_with_tenant_def split: if_splits)
qed

lemma state_execution_marshal:
  assumes "state_ok s"
  shows "marshal_execution (normalize_execution now old ((execution_of_state r wid s)\<lparr>ex_id := i\<rparr>)) =
    Some (normalize_execution now old ((execution_of_state r wid s)\<lparr>ex_id := i\<rparr>))"
proof -
  have "wire_opt (ws_input s) = Some (ws_input s)" "wire_opt (output_value s) = Some (output_value s)"
    using assms by (simp_all add: state_ok_def wire_opt_id)
  then show ?thesis
    by (simp add: marshal_execution_def normalize_fields execution_of_state_def Let_def)
qed

subsection \<open>Properties\<close>

text \<open>Definitions are kept per tenant. In tenant mode a definition that is created is found
  again under its tenant and id, in wire form and with the time of creation, and the lookup of
  any other tenant or id gives what it gave before.\<close>

theorem definitions_per_tenant:
  assumes c: "create_workflow no_faults True now st w = (st', Inr ())"
    and t: "CHR '':'' \<notin> set (sd_tenant w)"
  shows "(\<exists>v. marshal_definition (w\<lparr>sd_created := now, sd_updated := now\<rparr>) = Some v \<and>
      get_workflow_definition_with_tenant no_faults True st' (sd_tenant w) (sd_id w) = Inr v) \<and>
    (\<forall>t' i'. CHR '':'' \<notin> set t' \<longrightarrow> (t', i') \<noteq> (sd_tenant w, sd_id w) \<longrightarrow>
      get_workflow_definition_with_tenant no_faults True st' t' i' =
      get_workflow_definition_with_tenant no_faults True st t' i')"
proof -
  obtain v where v: "marshal_definition (w\<lparr>sd_created := now, sd_updated := now\<rparr>) = Some v"
    "st' = put (workflow_key_with_tenant True (sd_tenant w) (sd_id w)) v st"
    using c by (auto simp: create_workflow_def Let_def split: option.splits if_splits)
  with worker_key_inject [OF _ t] show ?thesis
    by (auto simp: get_workflow_definition_with_tenant_def map_of_put)
qed

definition demo_stored :: stored_definition where
  "demo_stored = \<lparr>sd_id = ''w'', sd_name = ''w'', sd_description = [], sd_version = [],
     sd_spec_version = [], sd_definition = Some [(''n'', GInt 1)], sd_created = 0, sd_updated = 0,
     sd_created_by = [], sd_tenant = ''t''\<rparr>"

theorem definitions_per_tenant_witness:
  "\<exists>st'. create_workflow no_faults True 5 [] demo_stored = (st', Inr ()) \<and>
     get_workflow_definition_with_tenant no_faults True st' ''t'' ''w'' =
       Inr (demo_stored\<lparr>sd_created := 5, sd_updated := 5, sd_definition := Some [(''n'', GFloat (f64_of_int 1))]\<rparr>) \<and>
     (\<exists>e. get_workflow_definition_with_tenant no_faults True st' ''u'' ''w'' = Inl e)"
proof -
  obtain st' where c: "create_workflow no_faults True 5 [] demo_stored = (st', Inr ())"
    by (simp add: create_workflow_def demo_stored_def marshal_definition_def Let_def)
  have t: "CHR '':'' \<notin> set (sd_tenant demo_stored)" "CHR '':'' \<notin> set ''u''"
    "(''u'', ''w'') \<noteq> (sd_tenant demo_stored, sd_id demo_stored)" by (simp_all add: demo_stored_def)
  have "get_workflow_definition_with_tenant no_faults True st' ''u'' ''w'' =
      get_workflow_definition_with_tenant no_faults True [] ''u'' ''w''"
    using definitions_per_tenant [OF c t(1)] t(2,3) by blast
  with definitions_per_tenant [OF c t(1)] c show ?thesis
    by (auto simp: demo_stored_def marshal_definition_def get_workflow_definition_with_tenant_def)
qed

text \<open>C31: Stored executions are well formed. Creating and updating an execution, whatever record
  the caller passes and whichever Redis commands fail, keep every stored execution with a start
  time, without a completion time unless its status is terminal, and with input and output in
  wire form.\<close>

theorem stored_executions_ok:
  assumes "store_ok st" and "now \<noteq> zero_time"
  shows "store_ok (fst (create_execution f mode now st x)) \<and>
    store_ok (fst (update_execution f mode now st i x))"
  using assms by (simp add: create_execution_ok update_execution_ok)

definition demo_execution :: execution where
  "demo_execution = \<lparr>ex_id = ''x1'', ex_workflow = ''demo'', ex_status = ERunning, ex_input = None,
     ex_output = None, ex_started_by = ''api'', ex_started = 7, ex_completed = None, ex_duration = 0,
     ex_tenant = ''t''\<rparr>"

theorem stored_executions_ok_witness:
  "store_ok (fst (create_execution no_faults True 5 [] demo_execution)) \<and>
   store_ok (fst (update_execution no_faults True 5 [] ''x1'' demo_execution))"
  by (rule stored_executions_ok) (simp_all add: store_ok_def zero_time_def second_def)

text \<open>Updates of executions do not interfere. After any sequence of successful or failing
  updates of other executions, the lookup of an execution gives what it gave before.\<close>

theorem other_executions_untouched:
  assumes "\<forall>(j, y) \<in> set us. plain_eid j \<and> j \<noteq> i" and "plain_eid i"
  shows "get_execution no_faults mode (foldl (\<lambda>st (j, y). fst (update_execution no_faults mode now st j y)) st us) i =
    get_execution no_faults mode st i"
  using assms by (rule execs.upd_other_run)

theorem other_executions_untouched_witness:
  "get_execution no_faults True (foldl (\<lambda>st (j, y). fst (update_execution no_faults True 5 st j y))
      [(''execution:x1'', demo_execution)] [(''x2'', demo_execution)]) ''x1'' = Inr demo_execution"
proof -
  have "\<forall>(j, y) \<in> set [(''x2'', demo_execution)]. plain_eid j \<and> j \<noteq> ''x1''" "plain_eid ''x1''"
    by (simp_all add: plain_eid_def plain_id_def)
  from other_executions_untouched [OF this, of True 5 "[(''execution:x1'', demo_execution)]"]
  show ?thesis by (simp add: get_execution_def find_execution_key_def execution_key_def)
qed

lemma get_none_update:
  "get_execution no_faults mode st i = Inr x \<Longrightarrow>
   update_execution no_faults mode now st i y =
     (case stored_execution now x i y of
        None \<Rightarrow> (st, Inl ''failed to marshal execution'')
      | Some v \<Rightarrow> (put (the (find_execution_key no_faults mode st i)) v st, Inr ()))"
  by (auto simp: get_execution_eq update_execution_eq bind_eq_Some_conv split: option.splits)

text \<open>The duration and the originator of a completed execution are lost. Completing a workflow,
  the worker first writes the execution with its duration (now minus start) and then saves the
  state through the adapter, which replaces the whole record: the final record is completed, with
  the start time kept, but has duration 0 and is said to be started by the worker.\<close>

theorem completion_record_overwritten:
  assumes x: "get_execution no_faults mode st i = Inr x" "ex_started x \<noteq> zero_time"
    and s: "state_ok s" "snd (context_ids s) = i" "i \<noteq> []" "ws_status s = WCompleted"
    and w: "update_execution no_faults mode now st i (completed_execution now s x) = (st1, Inr ())"
  shows "\<exists>st2 y z. update_workflow_state no_faults mode now st1 wid s = (st2, Inr ()) \<and>
    get_execution no_faults mode st1 i = Inr y \<and> ex_duration y = now - ex_started x \<and>
    ex_started_by y = ex_started_by x \<and>
    get_execution no_faults mode st2 i = Inr z \<and> ex_status z = ECompleted \<and>
    ex_started z = ex_started x \<and> ex_duration z = 0 \<and> ex_started_by z = ''worker-service''"
proof -
  let ?c = "completed_execution now s x"
  have c: "ex_started ?c = ex_started x" "ex_duration ?c = now - ex_started x"
    "ex_started_by ?c = ex_started_by x"
    using x(2) by (simp_all add: completed_execution_def Let_def split: option.split)
  obtain y where y: "stored_execution now x i ?c = Some y" "get_execution no_faults mode st1 i = Inr y"
    using execs.upd_ok [OF w] x(1) by auto
  have yf: "ex_started y = ex_started x" "ex_duration y = now - ex_started x" "ex_started_by y = ex_started_by x"
    using y(1) x(2) c
    by (auto simp: stored_execution_def marshal_execution_fields normalize_fields)
      (simp add: normalize_execution_def Let_def)
  let ?u = "execution_of_state (Inr y) wid s"
  let ?z = "normalize_execution now (Some y) (?u\<lparr>ex_id := i\<rparr>)"
  have eid: "state_execution_id wid s = i" using s(2,3) by (simp add: state_execution_id_def)
  have z: "stored_execution now y i ?u = Some ?z"
    using state_execution_marshal [OF s(1)] by (simp add: stored_execution_def)
  then obtain st2 where st2: "update_execution no_faults mode now st1 i ?u = (st2, Inr ())"
    using get_none_update [OF y(2)] by simp
  have "get_execution no_faults mode st2 i = Inr ?z" using execs.upd_ok [OF st2] y(2) z by auto
  moreover have "update_workflow_state no_faults mode now st1 wid s = (st2, Inr ())"
    using st2 y(2) by (simp add: update_workflow_state_def eid)
  moreover have "ex_status ?z = ECompleted" "ex_duration ?z = 0" "ex_started_by ?z = ''worker-service''"
    "ex_started ?z = ex_started x"
    using s(4) yf(1) x(2)
    by (simp_all add: normalize_fields execution_of_state_def Let_def exec_status_of_def)
      (simp add: normalize_execution_def Let_def)
  ultimately show ?thesis using y(2) yf(2,3) by blast
qed

definition demo_completed :: workflow_state where
  "demo_completed = (empty_state demo_definition)\<lparr>ws_status := WCompleted, ws_updated := Some 20,
     ws_context := Some \<lparr>ec_execution = ''x1'', ec_correlation = [], ec_trigger = [], ec_tenant = ''t''\<rparr>\<rparr>"

theorem completion_record_overwritten_witness:
  "\<exists>st1 st2 y z. update_execution no_faults True 20 [(''execution:x1'', demo_execution)] ''x1''
       (completed_execution 20 demo_completed demo_execution) = (st1, Inr ()) \<and>
     update_workflow_state no_faults True 20 st1 ''demo'' demo_completed = (st2, Inr ()) \<and>
     get_execution no_faults True st1 ''x1'' = Inr y \<and> ex_duration y = 13 \<and> ex_started_by y = ''api'' \<and>
     get_execution no_faults True st2 ''x1'' = Inr z \<and> ex_duration z = 0 \<and> ex_started_by z = ''worker-service''"
proof -
  let ?st = "[(''execution:x1'', demo_execution)]"
  have g: "get_execution no_faults True ?st ''x1'' = Inr demo_execution"
    by (simp add: get_execution_def find_execution_key_def execution_key_def)
  have "ex_started demo_execution \<noteq> zero_time"
    by (simp add: demo_execution_def zero_time_def second_def)
  moreover have "state_ok demo_completed" by (simp add: demo_completed_def state_ok_empty)
  moreover have "snd (context_ids demo_completed) = ''x1''" "ws_status demo_completed = WCompleted"
    by (simp_all add: demo_completed_def context_ids_def)
  moreover have "ex_input (completed_execution 20 demo_completed demo_execution) = None"
    "ex_output (completed_execution 20 demo_completed demo_execution) = None"
    by (simp_all add: completed_execution_def demo_completed_def demo_execution_def output_value_def
        empty_state_def Let_def)
  then obtain st1 where u: "update_execution no_faults True 20 ?st ''x1''
      (completed_execution 20 demo_completed demo_execution) = (st1, Inr ())"
    using get_none_update [OF g] by (simp add: stored_execution_def marshal_execution_def normalize_fields)
  ultimately show ?thesis
    using completion_record_overwritten [OF g, of demo_completed 20 st1 "''demo''"]
    by (auto simp: demo_execution_def)
qed

end
