(* ===== verification/Legacy_Database.thy ===== *)
theory Legacy_Database
  imports Workflow_Database Engine_State
begin

text \<open>
  The worker's earlier database (\<^verbatim>\<open>worker/internal/adapters/redis_database.go\<close>), which the
  worker no longer starts with: definitions and states as JSON under a key for each workflow,
  without tenants. A stored message is the message it decodes to; the variables and the output,
  which may be one object in memory, are two when they are read back. \<open>fault\<close> gives the error
  of the Redis command of an operation, if it has one.
\<close>

record legacy_store =
  ls_definitions :: "workflow_definition store"
  ls_states :: "workflow_state store"

definition definition_key :: "string \<Rightarrow> string" where
  "definition_key wid = ''workflow:definition:'' @ wid"

definition state_key :: "string \<Rightarrow> string" where
  "state_key wid = ''workflow:state:'' @ wid"

definition decoded_state :: "workflow_state \<Rightarrow> workflow_state" where
  "decoded_state s =
     s\<lparr>ws_output := (case output_value s of None \<Rightarrow> OutNil | Some m \<Rightarrow> OutStruct m)\<rparr>"

definition legacy_create_workflow ::
  "string option \<Rightarrow> legacy_store \<Rightarrow> workflow_definition \<Rightarrow> legacy_store \<times> string option" where
  "legacy_create_workflow fault db d =
     (case fault of
        Some e \<Rightarrow> (db, Some (''failed to store workflow definition: '' @ e))
      | None \<Rightarrow> (db\<lparr>ls_definitions := put (definition_key (wd_id d)) d (ls_definitions db)\<rparr>, None))"

definition legacy_update_state ::
  "string option \<Rightarrow> legacy_store \<Rightarrow> string \<Rightarrow> workflow_state \<Rightarrow> legacy_store \<times> string option" where
  "legacy_update_state fault db wid s =
     (case fault of
        Some e \<Rightarrow> (db, Some (''failed to update workflow state: '' @ e))
      | None \<Rightarrow> (db\<lparr>ls_states := put (state_key wid) (decoded_state s) (ls_states db)\<rparr>, None))"

definition legacy_get_state ::
  "string option \<Rightarrow> legacy_store \<Rightarrow> string \<Rightarrow> (string, workflow_state) result" where
  "legacy_get_state fault db wid =
     (case fault of
        Some e \<Rightarrow> Inl (''failed to get workflow state: '' @ e)
      | None \<Rightarrow>
          (case map_of (ls_states db) (state_key wid) of
             None \<Rightarrow> Inl (''workflow state not found: '' @ wid) | Some s \<Rightarrow> Inr s))"

definition legacy_get_definition ::
  "string option \<Rightarrow> legacy_store \<Rightarrow> string \<Rightarrow> (string, workflow_definition) result" where
  "legacy_get_definition fault db wid =
     (case fault of
        Some e \<Rightarrow> Inl (''failed to get workflow definition: '' @ e)
      | None \<Rightarrow>
          (case map_of (ls_definitions db) (definition_key wid) of
             None \<Rightarrow> Inl (''workflow definition not found: '' @ wid) | Some d \<Rightarrow> Inr d))"

definition legacy_get_definition_with_tenant ::
  "string option \<Rightarrow> legacy_store \<Rightarrow> string \<Rightarrow> string \<Rightarrow> (string, workflow_definition) result" where
  "legacy_get_definition_with_tenant fault db tenant wid = legacy_get_definition fault db wid"

definition legacy_delete_workflow ::
  "string option \<Rightarrow> legacy_store \<Rightarrow> string \<Rightarrow> legacy_store \<times> string option" where
  "legacy_delete_workflow fault db wid =
     (case fault of
        Some e \<Rightarrow> (db, Some (''failed to delete workflow: '' @ e))
      | None \<Rightarrow>
          (db\<lparr>ls_definitions := AList.delete (definition_key wid) (ls_definitions db),
              ls_states := AList.delete (state_key wid) (ls_states db)\<rparr>, None))"

text \<open>The number of a status, as the messages have it.\<close>

definition status_number :: "workflow_status \<Rightarrow> int" where
  "status_number st =
     (case st of WUnspecified \<Rightarrow> 0 | WCreated \<Rightarrow> 1 | WRunning \<Rightarrow> 2 | WCompleted \<Rightarrow> 3 | WFailed \<Rightarrow> 4
      | WCancelled \<Rightarrow> 5 | WSuspended \<Rightarrow> 6 | WWaiting \<Rightarrow> 7)"

definition legacy_matches :: "workflow_state \<Rightarrow> (string \<times> string) list \<Rightarrow> bool" where
  "legacy_matches s fs \<longleftrightarrow>
     list_all (\<lambda>(k, v).
       if k = ''status'' then itoa (status_number (ws_status s)) = v
       else if k = ''workflow_id'' then ws_workflow s = v
       else if k = ''current_step'' then ws_step s = v
       else True) fs"

text \<open>A state that cannot be read is left out: \<open>read_fault\<close> says so for each key.\<close>

definition legacy_list_workflows ::
  "string option \<Rightarrow> (string \<Rightarrow> bool) \<Rightarrow> legacy_store \<Rightarrow> (string \<times> string) list \<Rightarrow>
   (string, workflow_state list) result" where
  "legacy_list_workflows fault read_fault db fs =
     (case fault of
        Some e \<Rightarrow> Inl (''failed to list workflow keys: '' @ e)
      | None \<Rightarrow>
          Inr (filter (\<lambda>s. legacy_matches s fs)
                (map snd (filter (\<lambda>(k, s). \<not> read_fault k) (ls_states db)))))"

subsection \<open>What holds of it\<close>

lemma key_inject [simp]:
  "definition_key v = definition_key w \<longleftrightarrow> v = w" "state_key v = state_key w \<longleftrightarrow> v = w"
  by (simp_all add: definition_key_def state_key_def)

text \<open>A state that was saved is read back, but for the sharing of its output, and the states of
  the other workflows are as they were.\<close>

lemma legacy_state_read_back:
  assumes "legacy_update_state f db wid s = (db', None)"
  shows "legacy_get_state None db' v = (if v = wid then Inr (decoded_state s) else legacy_get_state None db v)"
    and "output_value (decoded_state s) = output_value s"
proof -
  have "db' = db\<lparr>ls_states := put (state_key wid) (decoded_state s) (ls_states db)\<rparr>"
    using assms by (cases f) (simp_all add: legacy_update_state_def)
  then show "legacy_get_state None db' v = (if v = wid then Inr (decoded_state s) else legacy_get_state None db v)"
    by (simp add: legacy_get_state_def map_simps)
  show "output_value (decoded_state s) = output_value s"
    by (simp add: decoded_state_def output_value_def split: option.splits)
qed

lemma legacy_failure_changes_nothing:
  "snd (legacy_update_state f db wid s) \<noteq> None \<Longrightarrow> fst (legacy_update_state f db wid s) = db"
  "snd (legacy_create_workflow f db d) \<noteq> None \<Longrightarrow> fst (legacy_create_workflow f db d) = db"
  "snd (legacy_delete_workflow f db wid) \<noteq> None \<Longrightarrow> fst (legacy_delete_workflow f db wid) = db"
  by (auto simp: legacy_update_state_def legacy_create_workflow_def legacy_delete_workflow_def
      split: option.splits)

lemma legacy_deleted:
  assumes "legacy_delete_workflow f db wid = (db', None)"
  shows "legacy_get_state None db' wid = Inl (''workflow state not found: '' @ wid)"
    and "legacy_get_definition None db' wid = Inl (''workflow definition not found: '' @ wid)"
  using assms
  by (auto simp: legacy_delete_workflow_def legacy_get_state_def legacy_get_definition_def delete_conv'
      split: option.splits)

text \<open>A definition is read under every tenant: the tenants share the workflows.\<close>

lemma legacy_ignores_tenant:
  "legacy_create_workflow f db d = (db', None) \<Longrightarrow>
   legacy_get_definition_with_tenant None db' tenant (wd_id d) = Inr d"
  by (auto simp: legacy_create_workflow_def legacy_get_definition_with_tenant_def legacy_get_definition_def
      map_simps split: option.splits)

lemma legacy_listed:
  "legacy_list_workflows None (\<lambda>_. False) db fs = Inr ss \<Longrightarrow>
   s \<in> set ss \<longleftrightarrow> s \<in> snd ` set (ls_states db) \<and> legacy_matches s fs"
  by (force simp: legacy_list_workflows_def image_iff)

end
