(* ===== verification/Go_Json.thy ===== *)
theory Go_Json
  imports Go_Wire
begin

text \<open>
  Decoding a JSON object into the fields of a Go struct (\<^verbatim>\<open>json.Unmarshal\<close>): an absent or
  null field is the zero value, a field of another JSON type is an error. Each reader takes
  the object and the name of the field; the keys are read as the struct tags spell them. The
  text of an error names the type only.
\<close>

definition json_mismatch :: "string \<Rightarrow> string" where
  "json_mismatch ty = ''json: cannot unmarshal value into Go value of type '' @ ty"

definition json_string :: "gmap \<Rightarrow> string \<Rightarrow> (string, string) result" where
  "json_string m k =
     (case map_of m k of
        None \<Rightarrow> Inr []
      | Some GNil \<Rightarrow> Inr []
      | Some (GStr s) \<Rightarrow> Inr s
      | _ \<Rightarrow> Inl (json_mismatch ''string''))"

definition json_bool :: "gmap \<Rightarrow> string \<Rightarrow> (string, bool) result" where
  "json_bool m k =
     (case map_of m k of
        None \<Rightarrow> Inr False
      | Some GNil \<Rightarrow> Inr False
      | Some (GBool b) \<Rightarrow> Inr b
      | _ \<Rightarrow> Inl (json_mismatch ''bool''))"

text \<open>A number for an integer field must be written as an integer of 64 bits.\<close>

definition json_int64 :: "gmap \<Rightarrow> string \<Rightarrow> (string, int) result" where
  "json_int64 m k =
     (case map_of m k of
        None \<Rightarrow> Inr 0
      | Some GNil \<Rightarrow> Inr 0
      | Some (GFloat r) \<Rightarrow>
          if of_int \<lfloor>r\<rfloor> = r \<and> - (2 ^ 63) \<le> \<lfloor>r\<rfloor> \<and> \<lfloor>r\<rfloor> < 2 ^ 63 then Inr \<lfloor>r\<rfloor>
          else Inl (json_mismatch ''int64'')
      | _ \<Rightarrow> Inl (json_mismatch ''int64''))"

definition json_float :: "gmap \<Rightarrow> string \<Rightarrow> (string, rat) result" where
  "json_float m k =
     (case map_of m k of
        None \<Rightarrow> Inr 0
      | Some GNil \<Rightarrow> Inr 0
      | Some (GFloat r) \<Rightarrow> Inr r
      | _ \<Rightarrow> Inl (json_mismatch ''float64''))"

text \<open>A field of type \<^verbatim>\<open>map[string]interface{}\<close>: null leaves the map nil.\<close>

definition json_map :: "gmap \<Rightarrow> string \<Rightarrow> (string, gmap option) result" where
  "json_map m k =
     (case map_of m k of
        None \<Rightarrow> Inr None
      | Some GNil \<Rightarrow> Inr None
      | Some (GMap n) \<Rightarrow> Inr (Some n)
      | _ \<Rightarrow> Inl (json_mismatch ''map''))"

text \<open>A field that is a pointer to a struct, with the decoder of the struct.\<close>

definition json_pointer ::
  "(gmap \<Rightarrow> (string, 'a) result) \<Rightarrow> gmap \<Rightarrow> string \<Rightarrow> (string, 'a option) result" where
  "json_pointer dec m k =
     (case map_of m k of
        None \<Rightarrow> Inr None
      | Some GNil \<Rightarrow> Inr None
      | Some (GMap n) \<Rightarrow> bind_res (dec n) (\<lambda>a. Inr (Some a))
      | _ \<Rightarrow> Inl (json_mismatch ''struct''))"

text \<open>The entries of a map of pointers to structs; null is a nil pointer.\<close>

fun json_entries ::
  "(gmap \<Rightarrow> (string, 'a) result) \<Rightarrow> gmap \<Rightarrow> (string, (string \<times> 'a option) list) result" where
  "json_entries dec [] = Inr []"
| "json_entries dec ((k, v) # m) =
     bind_res
       (case v of
          GNil \<Rightarrow> Inr None
        | GMap n \<Rightarrow> bind_res (dec n) (\<lambda>a. Inr (Some a))
        | _ \<Rightarrow> Inl (json_mismatch ''struct''))
       (\<lambda>x. bind_res (json_entries dec m) (\<lambda>xs. Inr ((k, x) # xs)))"

text \<open>Slices, and maps to values that are not pointers; null leaves them empty. A struct that
  is a value and not a pointer reads null as its zero value.\<close>

definition json_struct :: "(gmap \<Rightarrow> (string, 'a) result) \<Rightarrow> gval \<Rightarrow> (string, 'a) result" where
  "json_struct dec v =
     (case v of GNil \<Rightarrow> dec [] | GMap m \<Rightarrow> dec m | _ \<Rightarrow> Inl (json_mismatch ''struct''))"

definition json_text_element :: "gval \<Rightarrow> (string, string) result" where
  "json_text_element v =
     (case v of GNil \<Rightarrow> Inr [] | GStr s \<Rightarrow> Inr s | _ \<Rightarrow> Inl (json_mismatch ''string''))"

fun json_elements :: "(gval \<Rightarrow> (string, 'a) result) \<Rightarrow> gval list \<Rightarrow> (string, 'a list) result" where
  "json_elements dec [] = Inr []"
| "json_elements dec (v # vs) =
     bind_res (dec v) (\<lambda>x. bind_res (json_elements dec vs) (\<lambda>xs. Inr (x # xs)))"

definition json_slice :: "(gval \<Rightarrow> (string, 'a) result) \<Rightarrow> gval \<Rightarrow> (string, 'a list) result" where
  "json_slice dec v =
     (case v of GNil \<Rightarrow> Inr [] | GList xs \<Rightarrow> json_elements dec xs | _ \<Rightarrow> Inl (json_mismatch ''slice''))"

fun json_values ::
  "(gval \<Rightarrow> (string, 'a) result) \<Rightarrow> gmap \<Rightarrow> (string, (string \<times> 'a) list) result" where
  "json_values dec [] = Inr []"
| "json_values dec ((k, v) # m) =
     bind_res (dec v) (\<lambda>x. bind_res (json_values dec m) (\<lambda>xs. Inr ((k, x) # xs)))"

definition json_map_of ::
  "(gval \<Rightarrow> (string, 'a) result) \<Rightarrow> gval \<Rightarrow> (string, (string \<times> 'a) list) result" where
  "json_map_of dec v =
     (case v of GNil \<Rightarrow> Inr [] | GMap m \<Rightarrow> json_values dec m | _ \<Rightarrow> Inl (json_mismatch ''map''))"

lemmas json_defs = json_string_def json_bool_def json_int64_def json_float_def json_map_def
  json_pointer_def

lemma json_int64_range: "json_int64 m k = Inr i \<Longrightarrow> - (2 ^ 63) \<le> i \<and> i < 2 ^ 63"
  by (auto simp: json_int64_def split: option.splits gval.splits if_splits)

lemma json_entries_keys:
  "json_entries dec m = Inr xs \<Longrightarrow> map fst xs = map fst m"
  by (induction m arbitrary: xs) (auto simp: bind_res_eq_Inr)

end
