(* ===== verification/Timer_Service.thy ===== *)
theory Timer_Service
  imports Event_Loop Engine_Laws Go_Json
begin

text \<open>
  The timer service (\<^verbatim>\<open>timer/internal/processor/timer_processor.go\<close>): registering a timer from a
  \<^verbatim>\<open>timer.scheduled\<close> event in a Redis sorted set, and one round of the scheduler loop (the
  sleep before it, and the batch of timers it pops and fires).

  The sorted set is a key-value list from members to scores; \<^verbatim>\<open>ZPOPMIN\<close> takes an entry with the
  least score, the first such in the list (Redis breaks ties by the text of the member; every
  statement holds for all orders of the list). Scores are \<^verbatim>\<open>float64\<close> values.
\<close>

record timer_config =
  tc_max_sleep :: int
  tc_batch :: nat
  tc_lookahead :: int

record timer_payload =
  tp_tenant :: string
  tp_workflow :: string
  tp_execution :: string
  tp_task :: string
  tp_name :: string
  tp_fire_at :: string
  tp_duration_ms :: int

type_synonym zset = "(timer_payload \<times> rat) list"

subsection \<open>Payloads\<close>

definition decode_payload :: "gval \<Rightarrow> (string, timer_payload) result" where
  "decode_payload v =
     (case to_wire v of
        Some (GMap m) \<Rightarrow>
          bind_res (json_string m ''tenant_id'') (\<lambda>t.
          bind_res (json_string m ''workflow_id'') (\<lambda>w.
          bind_res (json_string m ''execution_id'') (\<lambda>x.
          bind_res (json_string m ''task_id'') (\<lambda>i.
          bind_res (json_string m ''task_name'') (\<lambda>n.
          bind_res (json_string m ''fire_at'') (\<lambda>f.
          bind_res (json_int64 m ''duration_ms'') (\<lambda>d.
          Inr \<lparr>tp_tenant = t, tp_workflow = w, tp_execution = x, tp_task = i, tp_name = n,
               tp_fire_at = f, tp_duration_ms = d\<rparr>)))))))
      | Some GNil \<Rightarrow>
          Inr \<lparr>tp_tenant = [], tp_workflow = [], tp_execution = [], tp_task = [], tp_name = [],
               tp_fire_at = [], tp_duration_ms = 0\<rparr>
      | _ \<Rightarrow> Inl ''invalid timer.scheduled payload'')"

subsection \<open>Scores\<close>

text \<open>\<open>t.UnixNano()\<close>, a 64-bit number.\<close>

definition unix_nano :: "time \<Rightarrow> int" where
  "unix_nano t = (t + 2 ^ 63) mod 2 ^ 64 - 2 ^ 63"

text \<open>\<open>float64(t.UnixNano()) / 1e9\<close>\<close>

definition score_of_time :: "time \<Rightarrow> rat" where
  "score_of_time t = f64_round (f64_of_int (unix_nano t) / 1000000000)"

text \<open>\<open>time.Unix(0, int64(score * 1e9))\<close>\<close>

definition time_of_score :: "rat \<Rightarrow> time" where
  "time_of_score r = int64_of_f64 (f64_round (r * 1000000000))"

subsection \<open>Registration\<close>

definition register_timer :: "faults \<Rightarrow> zset \<Rightarrow> cloud_event \<Rightarrow> zset \<times> (string, unit) result" where
  "register_timer faults z e =
     (case decode_payload (ev_data e) of
        Inl err \<Rightarrow> (z, Inl err)
      | Inr p \<Rightarrow>
          (case parse_rfc3339 (tp_fire_at p) of
             None \<Rightarrow> (z, Inl ''invalid scheduled_for'')
           | Some t \<Rightarrow>
               if faults ''ZADD'' then (z, Inl ''failed to ZADD timer'')
               else (put p (score_of_time t) z, Inr ())))"

subsection \<open>The scheduler\<close>

text \<open>An entry with the least score.\<close>

fun least_entry :: "timer_payload \<times> rat \<Rightarrow> zset \<Rightarrow> timer_payload \<times> rat" where
  "least_entry x [] = x"
| "least_entry x (y # ys) = least_entry (if snd y < snd x then y else x) ys"

definition zpopmin :: "zset \<Rightarrow> ((timer_payload \<times> rat) \<times> zset) option" where
  "zpopmin z =
     (case z of [] \<Rightarrow> None | x # xs \<Rightarrow> let m = least_entry x xs in Some (m, remove1 m z))"

definition scheduler_sleep :: "timer_config \<Rightarrow> time \<Rightarrow> zset \<Rightarrow> int" where
  "scheduler_sleep c now z =
     (case z of
        [] \<Rightarrow> tc_max_sleep c
      | x # xs \<Rightarrow>
          let d = time_of_score (snd (least_entry x xs)) - now
          in if 0 < d then (if d < tc_max_sleep c then d else tc_max_sleep c) else 0)"

definition due :: "timer_config \<Rightarrow> time \<Rightarrow> rat \<Rightarrow> bool" where
  "due c now score \<longleftrightarrow> \<not> score_of_time (now + tc_lookahead c) < score"

text \<open>\<open>now.Format("150405.000")\<close>\<close>

definition clock_text :: "time \<Rightarrow> string" where
  "clock_text t =
     (let r = t div second mod 86400; ms = t mod second div millisecond
      in pad2 (r div 3600) @ pad2 (r div 60 mod 60) @ pad2 (r mod 60) @ ''.'' @
         digit_char (nat ms div 100 mod 10) # pad2 (ms mod 100))"

definition timer_fired_event :: "time \<Rightarrow> timer_payload \<Rightarrow> cloud_event" where
  "timer_fired_event now p =
     empty_event\<lparr>ev_id := ''timer-fired-'' @ tp_task p @ ''-'' @ clock_text now,
       ev_source := ''timer-service'', ev_specversion := ''1.0'', ev_type := ''io.flunq.timer.fired'',
       ev_tenant := tp_tenant p, ev_workflow := tp_workflow p, ev_execution := tp_execution p,
       ev_task := tp_task p, ev_time := now,
       ev_data := GMap [(''tenant_id'', GStr (tp_tenant p)), (''workflow_id'', GStr (tp_workflow p)),
         (''execution_id'', GStr (tp_execution p)), (''task_id'', GStr (tp_task p)),
         (''task_name'', GStr (tp_name p)), (''scheduled_for'', GStr (tp_fire_at p)),
         (''fired_at'', GStr (format_rfc3339 now))]\<rparr>"

text \<open>At most \<open>n\<close> timers are popped; the first that is not due goes back and ends the batch. An
  error of publishing is ignored, and so is one of putting back.\<close>

fun drain :: "publisher \<Rightarrow> faults \<Rightarrow> timer_config \<Rightarrow> time \<Rightarrow> nat \<Rightarrow> zset \<Rightarrow> cloud_event list \<times> zset" where
  "drain pub faults c now 0 z = ([], z)"
| "drain pub faults c now (Suc n) z =
     (if faults ''ZPOPMIN'' then ([], z)
      else case zpopmin z of
             None \<Rightarrow> ([], z)
           | Some ((p, score), z') \<Rightarrow>
               if \<not> due c now score
               then ([], if faults ''ZADD'' then z' else put p score z')
               else (let (es, r) = drain pub faults c now n z'
                     in (fst (send pub (timer_fired_event now p)) @ es, r)))"

definition scheduler_round ::
  "publisher \<Rightarrow> faults \<Rightarrow> timer_config \<Rightarrow> time \<Rightarrow> zset \<Rightarrow> cloud_event list \<times> zset" where
  "scheduler_round pub faults c now z = drain pub faults c now (tc_batch c) z"

subsection \<open>The event loop\<close>

datatype timer_out = TEmit cloud_event | TAck string

text \<open>Three attempts to register; \<open>fs\<close> are the Redis faults of each. The set is threaded.\<close>

fun register_attempts :: "faults list \<Rightarrow> zset \<Rightarrow> cloud_event \<Rightarrow> string \<Rightarrow> zset \<times> string option" where
  "register_attempts [] z e err = (z, Some err)"
| "register_attempts (f # fs) z e err =
     (case register_timer f z e of
        (z', Inr _) \<Rightarrow> (z', None) | (z', Inl err') \<Rightarrow> register_attempts fs z' e err')"

definition timer_handle ::
  "faults \<Rightarrow> faults \<Rightarrow> faults \<Rightarrow> zset \<Rightarrow> cloud_event \<Rightarrow> timer_out list \<times> string option" where
  "timer_handle f1 f2 f3 z e = ([], snd (register_attempts [f1, f2, f3] z e []))"

definition timer_dead_letter :: "string \<Rightarrow> cloud_event \<Rightarrow> cloud_event" where
  "timer_dead_letter err e = dlq_event ''io.flunq.timer.dlq'' (''max_retries_exceeded:'' @ err) e"

definition timer_send :: "(timer_out \<Rightarrow> string option) \<Rightarrow> timer_out \<Rightarrow> timer_out list" where
  "timer_send fault x = fst (send fault x)"

definition timer_consume ::
  "(timer_out \<Rightarrow> string option) \<Rightarrow> faults \<Rightarrow> faults \<Rightarrow> faults \<Rightarrow> zset \<Rightarrow> cloud_event \<Rightarrow>
   timer_out list" where
  "timer_consume fault f1 f2 f3 z e =
     (case timer_handle f1 f2 f3 z e of
        (outs, None) \<Rightarrow> outs @ (if ack_id e = [] then [] else timer_send fault (TAck (ack_id e)))
      | (outs, Some err) \<Rightarrow>
          outs @ timer_send fault (TEmit (timer_dead_letter err e)) @
          (case ext_str e ''ack_key'' of Some k \<Rightarrow> timer_send fault (TAck k) | None \<Rightarrow> []))"

interpretation timer: consumer "timer_handle f1 f2 f3 z" "\<lambda>e. timer_send fault (TEmit e)"
    "\<lambda>k. timer_send fault (TAck k)" timer_dead_letter "timer_consume fault f1 f2 f3 z"
  for fault f1 f2 f3 z
  by unfold_locales (simp_all add: timer_consume_def split_beta split: option.split)

subsection \<open>Settings\<close>

definition timer_filters :: stream_filters where
  "timer_filters = \<lparr>flt_types = [''io.flunq.timer.scheduled''], flt_workflows = [], flt_sources = []\<rparr>"

end
