(* ===== verification/Timer_Laws.thy ===== *)
theory Timer_Laws
  imports Timer_Service "HOL-Library.Multiset"
begin

text \<open>
  What the timer service guarantees: a batch fires due timers only, in the order of their
  scores, and loses none as long as publishing works; scores represent whole seconds exactly,
  so that "due" is decided within 512 nanoseconds.
\<close>

subsection \<open>The sorted set\<close>

lemma least_entry_min:
  "least_entry x xs \<in> set (x # xs) \<and> (\<forall>y \<in> set (x # xs). snd (least_entry x xs) \<le> snd y)"
proof (induction x xs rule: least_entry.induct)
  case (1 x)
  show ?case by simp
next
  case (2 x y ys)
  then show ?case by (auto split: if_splits)
qed

lemma zpopmin_None [simp]: "zpopmin z = None \<longleftrightarrow> z = []"
  by (simp add: zpopmin_def Let_def split: list.split)

lemma zpopmin_Nil [simp]: "zpopmin [] = None"
  by (simp add: zpopmin_def)

lemma zpopmin_Some:
  assumes "zpopmin z = Some (m, z')"
  shows "m \<in> set z" and "z' = remove1 m z" and "\<forall>y \<in> set z. snd m \<le> snd y"
    and "mset z = add_mset m (mset z')" and "length z = Suc (length z')"
proof -
  from assms obtain x xs where z: "z = x # xs" "m = least_entry x xs" "z' = remove1 m z"
    by (cases z) (auto simp: zpopmin_def Let_def)
  show m: "m \<in> set z" and "z' = remove1 m z" and "\<forall>y \<in> set z. snd m \<le> snd y"
    using least_entry_min [of x xs] z by auto
  from m z(3) show "mset z = add_mset m (mset z')" by simp
  have "0 < length z" using m by (rule length_pos_if_in_set)
  with m z(3) show "length z = Suc (length z')" by (simp add: length_remove1)
qed

lemma put_fresh: "k \<notin> fst ` set z \<Longrightarrow> put k v z = z @ [(k, v)]"
  by (induction z) auto

lemma remove1_key_fresh:
  "distinct (map fst z) \<Longrightarrow> (k, v) \<in> set z \<Longrightarrow> k \<notin> fst ` set (remove1 (k, v) z)"
  by (induction z) (auto simp: image_iff)

lemma distinct_remove1_map: "distinct (map f z) \<Longrightarrow> distinct (map f (remove1 x z))"
proof (induction z)
  case Nil
  then show ?case by simp
next
  case (Cons y z)
  then show ?case using set_remove1_subset [of x z] by auto
qed

text \<open>One batch: the entries popped as due, and what is left.\<close>

lemma drain_spec:
  assumes "distinct (map fst z)"
  shows "\<exists>ps. fst (drain pub no_faults c now n z) =
        concat (map (\<lambda>x. fst (send pub (timer_fired_event now (fst x)))) ps) \<and>
      mset z = mset ps + mset (snd (drain pub no_faults c now n z)) \<and>
      sorted (map snd ps) \<and> length ps \<le> n \<and>
      (\<forall>x \<in> set ps. due c now (snd x) \<and> (\<forall>y \<in> set (snd (drain pub no_faults c now n z)). snd x \<le> snd y)) \<and>
      (length z \<le> n \<longrightarrow> (\<forall>y \<in> set (snd (drain pub no_faults c now n z)). \<not> due c now (snd y)))"
  using assms
proof (induction n arbitrary: z)
  case 0
  show ?case by (intro exI [of _ "[]"]) simp
next
  case (Suc n)
  show ?case
  proof (cases "zpopmin z")
    case None
    then show ?thesis by (intro exI [of _ "[]"]) simp
  next
    case (Some mz)
    obtain p sc z' where m: "zpopmin z = Some ((p, sc), z')" using Some by (metis surj_pair)
    note pop = zpopmin_Some [OF m]
    show ?thesis
    proof (cases "due c now sc")
      case False
      have "p \<notin> fst ` set z'" using remove1_key_fresh [OF Suc.prems pop(1)] pop(2) by simp
      then have d: "drain pub no_faults c now (Suc n) z = ([], z' @ [(p, sc)])"
        using m False by (simp add: put_fresh)
      have "\<not> due c now (snd y)" if "y \<in> set z" for y
        using False pop(3) that by (fastforce simp: due_def)
      then have "\<forall>y \<in> set (z' @ [(p, sc)]). \<not> due c now (snd y)"
        using pop(1,2) set_remove1_subset [of "(p, sc)" z] by auto
      with d pop(4) show ?thesis by (intro exI [of _ "[]"]) (simp del: drain.simps no_faults_simps)
    next
      case True
      have "distinct (map fst z')" using distinct_remove1_map [OF Suc.prems] pop(2) by simp
      from Suc.IH [OF this] obtain ps where ps:
        "fst (drain pub no_faults c now n z') =
          concat (map (\<lambda>x. fst (send pub (timer_fired_event now (fst x)))) ps)"
        "mset z' = mset ps + mset (snd (drain pub no_faults c now n z'))"
        "sorted (map snd ps)" "length ps \<le> n"
        "\<forall>x \<in> set ps. due c now (snd x) \<and> (\<forall>y \<in> set (snd (drain pub no_faults c now n z')). snd x \<le> snd y)"
        "length z' \<le> n \<longrightarrow> (\<forall>y \<in> set (snd (drain pub no_faults c now n z')). \<not> due c now (snd y))"
        by blast
      have d: "drain pub no_faults c now (Suc n) z =
          (fst (send pub (timer_fired_event now p)) @ fst (drain pub no_faults c now n z'),
           snd (drain pub no_faults c now n z'))"
        using m True by (simp add: split_beta)
      have sub: "set ps \<subseteq> set z" "set (snd (drain pub no_faults c now n z')) \<subseteq> set z"
        using ps(2) pop(4) by (metis mset_subset_eq_add_left mset_subset_eq_add_right set_mset_mono
            set_mset_mset subset_insertI subset_trans set_mset_add_mset_insert)+
      have "\<forall>y \<in> set ps. sc \<le> snd y" "\<forall>y \<in> set (snd (drain pub no_faults c now n z')). sc \<le> snd y"
        using sub pop(3) by auto
      with ps True d pop(4,5) show ?thesis
        by (intro exI [of _ "(p, sc) # ps"]) (auto simp del: drain.simps no_faults_simps)
    qed
  qed
qed

subsection \<open>Scores\<close>

lemma unix_nano_id: "- (2 ^ 63) \<le> t \<Longrightarrow> t < 2 ^ 63 \<Longrightarrow> unix_nano t = t"
  by (simp add: unix_nano_def)

lemma f64_nanos:
  assumes "\<bar>s * 1953125\<bar> \<le> 2 ^ 53"
  shows "f64_of_int (s * 1000000000) = of_int (s * 1000000000)"
proof -
  have "of_int (s * 1953125) * pow2 9 = of_int (s * 1000000000)" by (simp add: pow2_def)
  with f64_round_exact [OF assms, of 9] show ?thesis by (simp only: f64_of_int_def)
qed

text \<open>Whole seconds up to the year 2038 have exact scores.\<close>

lemma score_exact:
  assumes "0 \<le> s" "s \<le> 2 ^ 31"
  shows "score_of_time (s * 1000000000) = of_int s"
proof -
  have "s * 1953125 \<le> 2 ^ 53" using assms by simp
  then have m: "\<bar>s * 1953125\<bar> \<le> 2 ^ 53" using assms by simp
  have "s * 1000000000 < 2 ^ 63" using assms by simp
  then have "unix_nano (s * 1000000000) = s * 1000000000"
    using assms by (intro unix_nano_id) auto
  moreover have "f64_round (of_int s) = of_int s"
    using f64_round_exact [of s 0] assms by (simp add: pow2_def)
  ultimately show ?thesis using f64_nanos [OF m] by (simp add: score_of_time_def)
qed

lemma score_ge:
  assumes s: "1 \<le> s" "s \<le> 2 ^ 31" and t: "s * 1000000000 \<le> t" "t < 2 ^ 63"
  shows "of_int s \<le> score_of_time t"
proof -
  have u: "unix_nano t = t" using assms by (intro unix_nano_id) auto
  have m: "\<bar>s * 1953125\<bar> \<le> 2 ^ 53" using s by simp
  have p9: "of_int (s * 1000000000) = of_int (s * 1953125) * pow2 9" by (simp add: pow2_def)
  have "(of_int (s * 1000000000) :: rat) \<le> of_int t" using t(1) by (simp only: of_int_le_iff)
  moreover have "(0 :: rat) < of_int (s * 1000000000)" using s(1) by (simp only: of_int_0_less_iff)
  ultimately have "of_int (s * 1000000000) \<le> f64_of_int t"
    unfolding f64_of_int_def by (intro f64_round_ge [OF m _ _ p9]) simp_all
  then have "of_int s \<le> f64_of_int t / 1000000000" by (simp add: field_simps)
  then show ?thesis
    using f64_round_ge [of s 0 "of_int s"] s by (simp add: score_of_time_def u pow2_def)
qed

lemma score_less:
  assumes s: "1 \<le> s" "s \<le> 2 ^ 31" and t: "1 \<le> t" "t \<le> s * 1000000000 - 512"
  shows "score_of_time t < of_int s"
proof -
  have u: "unix_nano t = t" using assms by (intro unix_nano_id) auto
  have m: "\<bar>s * 1953125 - 1\<bar> \<le> 2 ^ 53" using s by simp
  have p9: "of_int (s * 1000000000 - 512) = of_int (s * 1953125 - 1) * pow2 9"
    by (simp add: pow2_def algebra_simps)
  have "(of_int t :: rat) \<le> of_int (s * 1000000000 - 512)" using t(2) by (simp only: of_int_le_iff)
  moreover have t0: "(0 :: rat) < of_int t" using t(1) by simp
  ultimately have hi: "f64_of_int t \<le> of_int (s * 1000000000 - 512)"
    unfolding f64_of_int_def by (intro f64_round_le [OF m _ p9]) simp_all
  have lo: "0 < f64_of_int t"
    using f64_round_ge [of 1 0 1 "of_int t"] t(1) by (simp add: f64_of_int_def pow2_def)
  let ?b = "of_int (s * 4194304 - 1) * pow2 (- 22)"
  have b: "?b = of_int s - 1 / 4194304" by (simp add: pow2_def field_simps)
  have "f64_of_int t / 1000000000 \<le> of_int s - 512 / 1000000000"
    using hi by (simp add: field_simps)
  then have "f64_of_int t / 1000000000 \<le> ?b" unfolding b by simp
  moreover have "\<bar>s * 4194304 - 1\<bar> \<le> 2 ^ 53" using s by simp
  ultimately have "score_of_time t \<le> ?b"
    unfolding score_of_time_def u using lo
    by (intro f64_round_le [of "s * 4194304 - 1" "- 22" ?b]) (assumption | rule refl | simp)+
  also have "\<dots> < of_int s" unfolding b by simp
  finally show ?thesis .
qed

subsection \<open>Properties\<close>

text \<open>C17: A scheduler round fires exactly the timers it pops, only due ones, earliest first, and
  loses none: with working Redis and publishing, the timers that were in the set are those it
  published \<open>timer.fired\<close> for plus those still in the set, and when the batch is at least as
  large as the set no due timer is left behind.\<close>

theorem scheduler_fires_due_timers:
  assumes z: "distinct (map fst z)" and up: "\<forall>x. pub x = None"
  shows "\<exists>ps. fst (scheduler_round pub no_faults c now z) = map (\<lambda>x. timer_fired_event now (fst x)) ps \<and>
    mset z = mset ps + mset (snd (scheduler_round pub no_faults c now z)) \<and>
    sorted (map snd ps) \<and> (\<forall>x \<in> set ps. due c now (snd x)) \<and>
    (length z \<le> tc_batch c \<longrightarrow> (\<forall>y \<in> set (snd (scheduler_round pub no_faults c now z)). \<not> due c now (snd y)))"
proof -
  obtain ps where ps: "fst (scheduler_round pub no_faults c now z) =
        concat (map (\<lambda>x. fst (send pub (timer_fired_event now (fst x)))) ps)"
    "mset z = mset ps + mset (snd (scheduler_round pub no_faults c now z))"
    "sorted (map snd ps)" "\<forall>x \<in> set ps. due c now (snd x)"
    "length z \<le> tc_batch c \<longrightarrow> (\<forall>y \<in> set (snd (scheduler_round pub no_faults c now z)). \<not> due c now (snd y))"
    using drain_spec [OF z, of pub c now "tc_batch c"] unfolding scheduler_round_def by blast
  have "concat (map (\<lambda>x. fst (send pub (timer_fired_event now (fst x)))) qs) =
      map (\<lambda>x. timer_fired_event now (fst x)) qs" for qs :: zset
    using up by (induction qs) simp_all
  with ps show ?thesis by (metis (no_types, lifting))
qed

definition demo_config :: timer_config where
  "demo_config = \<lparr>tc_max_sleep = 1000000000, tc_batch = 10, tc_lookahead = 0\<rparr>"

definition demo_payload :: timer_payload where
  "demo_payload = \<lparr>tp_tenant = ''t'', tp_workflow = ''demo'', tp_execution = ''x1'', tp_task = ''second'',
     tp_name = ''second'', tp_fire_at = ''1970-01-01T00:00:02Z'', tp_duration_ms = 2000\<rparr>"

lemma demo_due: "due demo_config 3000000000 2"
  using score_ge [of 2 3000000000] by (simp add: due_def demo_config_def)

theorem scheduler_fires_due_timers_witness:
  "fst (scheduler_round (\<lambda>_. None) no_faults demo_config 3000000000 [(demo_payload, 2)]) =
     [timer_fired_event 3000000000 demo_payload]"
proof -
  obtain ps where ps: "fst (scheduler_round (\<lambda>_. None) no_faults demo_config 3000000000 [(demo_payload, 2)]) =
      map (\<lambda>x. timer_fired_event 3000000000 (fst x)) ps"
    "mset [(demo_payload, 2)] = mset ps + mset (snd (scheduler_round (\<lambda>_. None) no_faults demo_config 3000000000 [(demo_payload, 2)]))"
    "\<forall>y \<in> set (snd (scheduler_round (\<lambda>_. None) no_faults demo_config 3000000000 [(demo_payload, 2)])).
       \<not> due demo_config 3000000000 (snd y)"
    using scheduler_fires_due_timers [of "[(demo_payload, 2)]" "\<lambda>_. None" demo_config 3000000000]
    by (auto simp: demo_config_def)
  let ?r = "snd (scheduler_round (\<lambda>_. None) no_faults demo_config 3000000000 [(demo_payload, 2)])"
  have "(demo_payload, 2) \<notin> set ?r" using ps(3) demo_due by auto
  moreover have "set ?r \<subseteq> {(demo_payload, 2)}"
    using ps(2) by (metis mset_subset_eq_add_right set_mset_mono set_mset_mset list.set)
  ultimately have "?r = []" by (cases ?r) auto
  then have "mset ps = {#(demo_payload, 2)#}" using ps(2) by simp
  then have "ps = [(demo_payload, 2)]" by (simp add: mset_single_iff_right)
  with ps(1) show ?thesis by simp
qed

text \<open>Timers are lost when publishing fails. The scheduler ignores the error of publishing
  \<open>timer.fired\<close>, and the timer is already out of the set: after a round in which the event stream
  refuses everything, no due timer is left in the set and none has been fired.\<close>

theorem failed_publish_loses_timers:
  assumes z: "distinct (map fst z)" and down: "\<forall>x. pub x \<noteq> None" and n: "length z \<le> tc_batch c"
    and x: "x \<in> set z" "due c now (snd x)"
  shows "fst (scheduler_round pub no_faults c now z) = [] \<and>
    x \<notin> set (snd (scheduler_round pub no_faults c now z))"
proof -
  obtain ps :: zset where ps: "fst (scheduler_round pub no_faults c now z) =
        concat (map (\<lambda>x. fst (send pub (timer_fired_event now (fst x)))) ps)"
    "length z \<le> tc_batch c \<longrightarrow> (\<forall>y \<in> set (snd (scheduler_round pub no_faults c now z)). \<not> due c now (snd y))"
    using drain_spec [OF z, of pub c now "tc_batch c"] unfolding scheduler_round_def by blast
  have "fst (send pub e) = []" for e using down by (auto simp: send_def split: option.split)
  then have "concat (map (\<lambda>x. fst (send pub (timer_fired_event now (fst x)))) qs) = []" for qs :: zset
    by (induction qs) simp_all
  with ps x n show ?thesis by auto
qed

theorem failed_publish_loses_timers_witness:
  "fst (scheduler_round (\<lambda>_. Some ''down'') no_faults demo_config 3000000000 [(demo_payload, 2)]) = [] \<and>
   (demo_payload, 2) \<notin> set (snd (scheduler_round (\<lambda>_. Some ''down'') no_faults demo_config 3000000000 [(demo_payload, 2)]))"
  by (rule failed_publish_loses_timers) (use demo_due in \<open>simp_all add: demo_config_def\<close>)

text \<open>"Due" is decided to within half a microsecond. For a timer set to second \<open>s\<close> (until the
  year 2038), although scores are floating-point numbers, the timer is due whenever now plus the
  lookahead has reached it, and never due more than 512 nanoseconds before.\<close>

theorem due_precision:
  assumes "1 \<le> s" "s \<le> 2 ^ 31" and "1 \<le> now + tc_lookahead c" "now + tc_lookahead c < 2 ^ 63"
  shows "(s * 1000000000 \<le> now + tc_lookahead c \<longrightarrow> due c now (score_of_time (s * 1000000000))) \<and>
    (due c now (score_of_time (s * 1000000000)) \<longrightarrow> s * 1000000000 - 512 < now + tc_lookahead c)"
  using score_exact [of s] score_ge [of s "now + tc_lookahead c"] score_less [of s "now + tc_lookahead c"] assms
  by (fastforce simp: due_def)

theorem due_precision_witness:
  "due demo_config 3000000000 (score_of_time (2 * 1000000000))"
  using due_precision [of 2 3000000000 demo_config] by (simp add: demo_config_def)

text \<open>The scheduler never oversleeps: the sleep before a round is not negative, at most the
  configured maximum, and when a timer is waiting it ends no later than the time of the earliest
  timer (or at once when that time has passed).\<close>

theorem scheduler_never_oversleeps:
  assumes "0 \<le> tc_max_sleep c" and "x \<in> set z" and "\<forall>y \<in> set z. snd x \<le> snd y"
  shows "0 \<le> scheduler_sleep c now z \<and> scheduler_sleep c now z \<le> tc_max_sleep c \<and>
    now + scheduler_sleep c now z \<le> max now (time_of_score (snd x))"
proof -
  obtain y ys where z: "z = y # ys" using assms(2) by (cases z) auto
  have "least_entry y ys \<in> set z" "\<forall>a \<in> set z. snd (least_entry y ys) \<le> snd a"
    using least_entry_min [of y ys] z by auto
  then have "snd (least_entry y ys) = snd x" using assms(2,3) by (meson order_antisym)
  then show ?thesis using assms(1) z by (auto simp: scheduler_sleep_def Let_def)
qed

theorem scheduler_never_oversleeps_witness:
  "0 \<le> scheduler_sleep demo_config 0 [(demo_payload, 2)] \<and>
   0 + scheduler_sleep demo_config 0 [(demo_payload, 2)] \<le> max 0 (time_of_score 2)"
  using scheduler_never_oversleeps [of demo_config "(demo_payload, 2)" "[(demo_payload, 2)]" 0]
  by (simp add: demo_config_def)

end
