(* ===== verification/Timer_Schedule.thy ===== *)
theory Timer_Schedule
  imports Timer_Laws
begin

text \<open>
  The scheduler of the timer service as a loop (\<^verbatim>\<open>schedulerLoop\<close> of
  \<^verbatim>\<open>timer_processor.go\<close>): pass after pass it looks at the earliest timer, sleeps, and pops a
  batch. A pass whose look at the set fails only sleeps for a second.
\<close>

record pass =
  ps_faults :: faults
  ps_peek :: time
  ps_now :: time

text \<open>How long the pass pauses, what it publishes and what it leaves.\<close>

definition scheduler_pass ::
  "publisher \<Rightarrow> timer_config \<Rightarrow> zset \<Rightarrow> pass \<Rightarrow> int \<times> cloud_event list \<times> zset" where
  "scheduler_pass pub c z p =
     (if ps_faults p ''ZRANGE'' then (second, [], z)
      else (scheduler_sleep c (ps_peek p) z, scheduler_round pub (ps_faults p) c (ps_now p) z))"

fun scheduler_passes :: "publisher \<Rightarrow> timer_config \<Rightarrow> zset \<Rightarrow> pass list \<Rightarrow> cloud_event list \<times> zset" where
  "scheduler_passes pub c z [] = ([], z)"
| "scheduler_passes pub c z (p # ps) =
     (let (_, es, z1) = scheduler_pass pub c z p; (es', z2) = scheduler_passes pub c z1 ps in (es @ es', z2))"

text \<open>A pass in which Redis does what it is asked to, except that the look at the set may fail.\<close>

definition steady :: "pass \<Rightarrow> bool" where
  "steady p \<longleftrightarrow> \<not> ps_faults p ''ZPOPMIN'' \<and> \<not> ps_faults p ''ZADD''"

definition looks :: "pass list \<Rightarrow> nat" where
  "looks ps = length (filter (\<lambda>p. \<not> ps_faults p ''ZRANGE'') ps)"

lemma drain_faults: "\<not> f ''ZPOPMIN'' \<Longrightarrow> \<not> f ''ZADD'' \<Longrightarrow> drain pub f c now n z = drain pub no_faults c now n z"
  by (induction n arbitrary: z) (simp_all split: option.split)

text \<open>A batch takes as many due timers as it has room for.\<close>

lemma drain_takes:
  assumes "distinct (map fst z)" and "\<forall>x \<in> set z. due c now (snd x)"
  shows "length (snd (drain pub no_faults c now n z)) = length z - n"
  using assms
proof (induction n arbitrary: z)
  case (Suc n)
  show ?case
  proof (cases "zpopmin z")
    case (Some mz)
    obtain p sc z' where m: "zpopmin z = Some ((p, sc), z')" using Some by (metis surj_pair)
    note pop = zpopmin_Some [OF m]
    have "distinct (map fst z')" using distinct_remove1_map [OF Suc.prems(1)] pop(2) by simp
    moreover have "\<forall>x \<in> set z'. due c now (snd x)" using Suc.prems(2) pop(4)
      by (metis insertCI set_mset_add_mset_insert set_mset_mset)
    ultimately have l: "length (snd (drain pub no_faults c now n z')) = length z' - n" by (rule Suc.IH)
    have "due c now sc" using Suc.prems(2) pop(1) by auto
    then have "snd (drain pub no_faults c now (Suc n) z) = snd (drain pub no_faults c now n z')"
      using m by (simp add: split_beta)
    with l pop(5) show ?thesis by (simp del: drain.simps no_faults_simps)
  qed simp
qed simp

lemma pass_spec:
  assumes z: "distinct (map fst z)" and p: "steady p" and d: "\<forall>x \<in> set z. due c (ps_now p) (snd x)"
    and up: "\<forall>e. pub e = None"
  obtains fs where "fst (snd (scheduler_pass pub c z p)) = map (\<lambda>x. timer_fired_event (ps_now p) (fst x)) fs"
    "mset z = mset fs + mset (snd (snd (scheduler_pass pub c z p)))"
    "length (snd (snd (scheduler_pass pub c z p))) = length z - (if ps_faults p ''ZRANGE'' then 0 else tc_batch c)"
proof (cases "ps_faults p ''ZRANGE''")
  case True
  then show thesis using that [of "[]"] by (simp add: scheduler_pass_def)
next
  case False
  have r: "scheduler_round pub (ps_faults p) c (ps_now p) z = scheduler_round pub no_faults c (ps_now p) z"
    unfolding scheduler_round_def by (rule drain_faults) (use p in \<open>simp_all add: steady_def\<close>)
  obtain fs where fs: "fst (scheduler_round pub no_faults c (ps_now p) z) =
        concat (map (\<lambda>x. fst (send pub (timer_fired_event (ps_now p) (fst x)))) fs)"
    "mset z = mset fs + mset (snd (scheduler_round pub no_faults c (ps_now p) z))"
    using drain_spec [OF z, of pub c "ps_now p" "tc_batch c"] unfolding scheduler_round_def by blast
  have "concat (map (\<lambda>x. fst (send pub (timer_fired_event (ps_now p) (fst x)))) qs) =
      map (\<lambda>x. timer_fired_event (ps_now p) (fst x)) qs" for qs :: zset
    using up by (induction qs) simp_all
  with fs show thesis
    using that [of fs] drain_takes [OF z d, of pub "tc_batch c"] False r
    by (simp add: scheduler_pass_def scheduler_round_def)
qed

lemma passes_spec:
  assumes "distinct (map fst z)" and "\<forall>p \<in> set ps. steady p \<and> (\<forall>x \<in> set z. due c (ps_now p) (snd x))"
    and up: "\<forall>e. pub e = None"
  shows "\<exists>fs. mset z = mset (map snd fs) + mset (snd (scheduler_passes pub c z ps)) \<and>
    length (snd (scheduler_passes pub c z ps)) = length z - looks ps * tc_batch c \<and>
    fst (scheduler_passes pub c z ps) = map (\<lambda>(now, x). timer_fired_event now (fst x)) fs"
  using assms(1,2)
proof (induction ps arbitrary: z)
  case Nil
  show ?case by (intro exI [of _ "[]"]) (simp add: looks_def)
next
  case (Cons p ps)
  let ?r = "scheduler_pass pub c z p"
  obtain fs where fs: "fst (snd ?r) = map (\<lambda>x. timer_fired_event (ps_now p) (fst x)) fs"
    "mset z = mset fs + mset (snd (snd ?r))"
    "length (snd (snd ?r)) = length z - (if ps_faults p ''ZRANGE'' then 0 else tc_batch c)"
    using pass_spec [OF Cons.prems(1) _ _ up, of p c] Cons.prems(2) by auto
  have sub: "set (snd (snd ?r)) \<subseteq> set z" using fs(2) by (metis mset_subset_eq_add_right set_mset_mono set_mset_mset)
  have "distinct (map fst (fs @ snd (snd ?r)))"
    using Cons.prems(1) fs(2) by (metis mset_append mset_eq_imp_distinct_iff mset_map)
  then have "distinct (map fst (snd (snd ?r)))" by simp
  from Cons.IH [OF this] Cons.prems(2) sub obtain gs where gs:
    "mset (snd (snd ?r)) = mset (map snd gs) + mset (snd (scheduler_passes pub c (snd (snd ?r)) ps))"
    "length (snd (scheduler_passes pub c (snd (snd ?r)) ps)) = length (snd (snd ?r)) - looks ps * tc_batch c"
    "fst (scheduler_passes pub c (snd (snd ?r)) ps) = map (\<lambda>(now, x). timer_fired_event now (fst x)) gs"
    by (meson list.set_intros(2) subsetD)
  show ?case
    using fs gs
    by (intro exI [of _ "map (Pair (ps_now p)) fs @ gs"]) (simp add: split_beta looks_def comp_def)
qed

text \<open>C18: Every timer that is due is fired, once, in the end. When all timers of the set are due and
  publishing works, then after passes whose batches have room for all of them together, however
  small a batch is and however often the look at the set fails in between, the set is empty and
  what has been published are the firings of exactly these timers, each once.\<close>

theorem due_timers_all_fire:
  assumes z: "distinct (map fst z)" and up: "\<forall>e. pub e = None"
    and ps: "\<forall>p \<in> set ps. steady p \<and> (\<forall>x \<in> set z. due c (ps_now p) (snd x))"
    and room: "length z \<le> looks ps * tc_batch c"
  shows "\<exists>fs. scheduler_passes pub c z ps = (map (\<lambda>(now, x). timer_fired_event now (fst x)) fs, []) \<and>
    mset (map snd fs) = mset z"
proof -
  obtain fs where fs: "mset z = mset (map snd fs) + mset (snd (scheduler_passes pub c z ps))"
    "length (snd (scheduler_passes pub c z ps)) = length z - looks ps * tc_batch c"
    "fst (scheduler_passes pub c z ps) = map (\<lambda>(now, x). timer_fired_event now (fst x)) fs"
    using passes_spec [OF z ps up] by blast
  moreover from fs(2) room have "snd (scheduler_passes pub c z ps) = []" by simp
  ultimately show ?thesis by (intro exI [of _ fs]) (simp add: prod_eq_iff)
qed

definition demo_pass :: "faults \<Rightarrow> time \<Rightarrow> pass" where
  "demo_pass f t = \<lparr>ps_faults = f, ps_peek = t, ps_now = t\<rparr>"

theorem due_timers_all_fire_witness:
  "\<exists>fs. scheduler_passes (\<lambda>_. None) (demo_config\<lparr>tc_batch := 1\<rparr>)
       [(demo_payload, 2), (demo_payload\<lparr>tp_name := ''third''\<rparr>, 2)]
       [demo_pass no_faults 3000000000, demo_pass (\<lambda>x. x = ''ZRANGE'') 3000000000, demo_pass no_faults 3000000000] =
     (map (\<lambda>(now, x). timer_fired_event now (fst x)) fs, []) \<and>
     mset (map snd fs) = {#(demo_payload, 2 :: rat), (demo_payload\<lparr>tp_name := ''third''\<rparr>, 2)#}"
proof -
  have d: "due (demo_config\<lparr>tc_batch := 1\<rparr>) 3000000000 2"
    using demo_due by (simp add: due_def)
  have n: "demo_payload \<noteq> demo_payload\<lparr>tp_name := ''third''\<rparr>" by (simp add: demo_payload_def)
  have "\<exists>fs. scheduler_passes (\<lambda>_. None) (demo_config\<lparr>tc_batch := 1\<rparr>)
       [(demo_payload, 2), (demo_payload\<lparr>tp_name := ''third''\<rparr>, 2)]
       [demo_pass no_faults 3000000000, demo_pass (\<lambda>x. x = ''ZRANGE'') 3000000000, demo_pass no_faults 3000000000] =
     (map (\<lambda>(now, x). timer_fired_event now (fst x)) fs, []) \<and>
     mset (map snd fs) = mset [(demo_payload, 2 :: rat), (demo_payload\<lparr>tp_name := ''third''\<rparr>, 2)]"
    by (rule due_timers_all_fire)
      (use d n in \<open>simp_all add: steady_def demo_pass_def looks_def\<close>)
  then show ?thesis by simp
qed

end
