(* ===== verification/Go_Int.thy ===== *)
theory Go_Int
  imports Main "HOL-Library.Word"
begin

text \<open>
  Go's 64-bit integers where a computation can leave their range: \<open>wrap64\<close> is the value that
  is left after the wrap-around.
\<close>

definition wrap64 :: "int \<Rightarrow> int" where
  "wrap64 i = sint (word_of_int i :: 64 word)"

lemma wrap64_id [simp]: "- (2 ^ 63) \<le> i \<Longrightarrow> i < 2 ^ 63 \<Longrightarrow> wrap64 i = i"
  by (simp add: wrap64_def sint_sbintrunc' signed_take_bit_int_eq_self)

lemma wrap64_range: "- (2 ^ 63) \<le> wrap64 i \<and> wrap64 i < 2 ^ 63"
  using sint_range_size [of "word_of_int i :: 64 word"]
  by (simp add: wrap64_def word_size)

lemma wrap64_minus: "wrap64 (i - 2 ^ 64) = wrap64 i"
proof -
  have "(i - 2 ^ 64) mod 2 ^ 64 = i mod 2 ^ 64" by (rule minus_mod_self2)
  then have "(word_of_int (i - 2 ^ 64) :: 64 word) = word_of_int i"
    by (simp only: word_of_int_eq_iff take_bit_eq_mod) simp
  then show ?thesis by (simp only: wrap64_def)
qed

end
