(* ===== verification/Executor_Types.thy ===== *)
theory Executor_Types
  imports Cloud_Events Go_Json Go_Int
begin

text \<open>
  The data of the executor service: task requests and results
  (\<^verbatim>\<open>executor/internal/executor/interfaces.go\<close>) and the structures of try/catch
  (\<^verbatim>\<open>error_handling_types.go\<close>), with the decoders of the latter from the catch block of a
  workflow. Durations and counters are 64-bit integers.
\<close>

subsection \<open>Durations\<close>

record sdl_duration =
  du_days :: int
  du_hours :: int
  du_minutes :: int
  du_seconds :: int
  du_millis :: int

text \<open>\<open>ToDuration\<close>: every operation wraps, so the sum does.\<close>

definition to_duration :: "sdl_duration option \<Rightarrow> int" where
  "to_duration d =
     (case d of
        None \<Rightarrow> 0
      | Some x \<Rightarrow>
          sint (word_of_int (du_days x) * 24 * 3600000000000 + word_of_int (du_hours x) * 3600000000000 +
                word_of_int (du_minutes x) * 60000000000 + word_of_int (du_seconds x) * 1000000000 +
                word_of_int (du_millis x) * 1000000 :: 64 word))"

definition nanoseconds :: "sdl_duration \<Rightarrow> int" where
  "nanoseconds x =
     du_days x * 86400000000000 + du_hours x * 3600000000000 + du_minutes x * 60000000000 +
     du_seconds x * 1000000000 + du_millis x * 1000000"

lemma to_duration_wrap: "to_duration (Some x) = wrap64 (nanoseconds x)"
  by (simp add: to_duration_def wrap64_def nanoseconds_def ac_simps)

lemma to_duration_exact:
  "- (2 ^ 63) \<le> nanoseconds x \<Longrightarrow> nanoseconds x < 2 ^ 63 \<Longrightarrow> to_duration (Some x) = nanoseconds x"
  by (simp add: to_duration_wrap)

lemma to_duration_range: "- (2 ^ 63) \<le> to_duration d \<and> to_duration d < 2 ^ 63"
  using wrap64_range by (cases d) (simp_all add: to_duration_wrap, simp add: to_duration_def)

subsection \<open>Errors\<close>

record workflow_error =
  er_type :: string
  er_status :: int
  er_instance :: string
  er_title :: string
  er_detail :: string
  er_data :: "gmap option"

definition error_text :: "workflow_error \<Rightarrow> string" where
  "error_text e = (if er_detail e \<noteq> [] then er_detail e else if er_title e \<noteq> [] then er_title e else er_type e)"

text \<open>A Go error: one made by \<^verbatim>\<open>fmt.Errorf\<close>, or a structured one.\<close>

datatype go_error = Plain string | Structured workflow_error

fun message_of :: "go_error \<Rightarrow> string" where
  "message_of (Plain s) = s"
| "message_of (Structured e) = error_text e"

definition error_uri :: "string \<Rightarrow> string" where
  "error_uri s = ''https://serverlessworkflow.io/spec/1.0.0/errors/'' @ s"

text \<open>The error of an answer with a status outside the accepted range.\<close>

definition http_status_error :: "int \<Rightarrow> string" where
  "http_status_error code = ''HTTP request failed with status '' @ itoa code"

text \<open>The JSON object a structured error is written as.\<close>

definition error_value :: "workflow_error \<Rightarrow> gval" where
  "error_value e =
     GMap ([(''type'', GStr (er_type e)), (''status'', GInt (er_status e))] @
       (if er_instance e \<noteq> [] then [(''instance'', GStr (er_instance e))] else []) @
       (if er_title e \<noteq> [] then [(''title'', GStr (er_title e))] else []) @
       (if er_detail e \<noteq> [] then [(''detail'', GStr (er_detail e))] else []) @
       (case er_data e of None \<Rightarrow> [] | Some m \<Rightarrow> if m = [] then [] else [(''data'', GMap m)]))"

text \<open>How a call ends when it does not return a value: an error, or a run-time panic, which no
  code of the service recovers from.\<close>

datatype failure = Failed string | Panicked

subsection \<open>Requests and results\<close>

record task_config =
  tk_timeout :: int
  tk_retries :: int
  tk_queue :: string
  tk_params :: "gmap option"

record task_request =
  rq_task :: string
  rq_name :: string
  rq_type :: string
  rq_workflow :: string
  rq_execution :: string
  rq_input :: "gmap option"
  rq_config :: "task_config option"
  rq_context :: "gmap option"

record task_result =
  tr_task :: string
  tr_name :: string
  tr_type :: string
  tr_workflow :: string
  tr_execution :: string
  tr_success :: bool
  tr_input :: "gmap option"
  tr_output :: "gmap option"
  tr_error :: string
  tr_duration :: int
  tr_started :: time
  tr_executed :: time

text \<open>The readings of the clock during one execution: at the start, in the middle where the
  code takes one, for the duration, and for the end time of the result.\<close>

record clock =
  ck_start :: time
  ck_mid :: time
  ck_end :: time
  ck_done :: time

text \<open>The result every executor builds: the identity of the request and the outcome.\<close>

definition result_of ::
  "clock \<Rightarrow> task_request \<Rightarrow> bool \<Rightarrow> gmap option \<Rightarrow> gmap \<Rightarrow> string \<Rightarrow> task_result" where
  "result_of ck r ok input out err =
     \<lparr>tr_task = rq_task r, tr_name = rq_name r, tr_type = rq_type r, tr_workflow = rq_workflow r,
      tr_execution = rq_execution r, tr_success = ok, tr_input = input, tr_output = Some out,
      tr_error = err, tr_duration = ck_end ck - ck_start ck, tr_started = ck_start ck,
      tr_executed = ck_done ck\<rparr>"

definition error_result :: "clock \<Rightarrow> task_request \<Rightarrow> string \<Rightarrow> task_result" where
  "error_result ck r err = result_of ck r False (rq_input r) [] err"

definition same_task :: "task_request \<Rightarrow> task_result \<Rightarrow> bool" where
  "same_task r t \<longleftrightarrow>
     tr_task t = rq_task r \<and> tr_name t = rq_name r \<and> tr_type t = rq_type r \<and>
     tr_workflow t = rq_workflow r \<and> tr_execution t = rq_execution r"

lemma result_of_fields [simp]:
  "tr_task (result_of ck r ok i out err) = rq_task r" "tr_name (result_of ck r ok i out err) = rq_name r"
  "tr_type (result_of ck r ok i out err) = rq_type r" "tr_workflow (result_of ck r ok i out err) = rq_workflow r"
  "tr_execution (result_of ck r ok i out err) = rq_execution r" "tr_success (result_of ck r ok i out err) = ok"
  "tr_input (result_of ck r ok i out err) = i" "tr_output (result_of ck r ok i out err) = Some out"
  "tr_error (result_of ck r ok i out err) = err" "tr_started (result_of ck r ok i out err) = ck_start ck"
  by (simp_all add: result_of_def)

lemma same_task_result_of [simp]: "same_task r (result_of ck r ok i out err)"
  by (simp add: same_task_def)

lemma error_result_fields [simp]:
  "tr_success (error_result ck r err) = False" "tr_error (error_result ck r err) = err"
  "tr_output (error_result ck r err) = Some []" "same_task r (error_result ck r err)"
  by (simp_all add: error_result_def)

subsection \<open>Try/catch configuration\<close>

record attempt_limit =
  al_count :: int
  al_duration :: "sdl_duration option"

record retry_limit =
  rl_attempt :: "attempt_limit option"
  rl_duration :: "sdl_duration option"

record exponential_backoff =
  xb_multiplier :: rat
  xb_max :: "sdl_duration option"

record linear_backoff =
  lb_increment :: "sdl_duration option"

record backoff_strategy =
  bs_constant :: "unit option"
  bs_exponential :: "exponential_backoff option"
  bs_linear :: "linear_backoff option"

record jitter_config =
  jt_from :: "sdl_duration option"
  jt_to :: "sdl_duration option"

record retry_policy =
  rp_when :: string
  rp_except :: string
  rp_limit :: "retry_limit option"
  rp_backoff :: "backoff_strategy option"
  rp_jitter :: "jitter_config option"
  rp_delay :: "sdl_duration option"

record error_filter =
  ef_with :: "gmap option"

record catch_block =
  cc_errors :: "error_filter option"
  cc_as :: string
  cc_when :: string
  cc_except :: string
  cc_retry :: "retry_policy option"
  cc_do :: "(string \<times> task_request option) list"

record try_config =
  yc_try :: gval
  yc_catch :: gval

subsection \<open>Decoders\<close>

definition decode_duration :: "gmap \<Rightarrow> (string, sdl_duration) result" where
  "decode_duration m =
     bind_res (json_int64 m ''days'') (\<lambda>d.
     bind_res (json_int64 m ''hours'') (\<lambda>h.
     bind_res (json_int64 m ''minutes'') (\<lambda>n.
     bind_res (json_int64 m ''seconds'') (\<lambda>s.
     bind_res (json_int64 m ''milliseconds'') (\<lambda>x.
     Inr \<lparr>du_days = d, du_hours = h, du_minutes = n, du_seconds = s, du_millis = x\<rparr>)))))"

definition decode_attempt_limit :: "gmap \<Rightarrow> (string, attempt_limit) result" where
  "decode_attempt_limit m =
     bind_res (json_int64 m ''count'') (\<lambda>c.
     bind_res (json_pointer decode_duration m ''duration'') (\<lambda>d.
     Inr \<lparr>al_count = c, al_duration = d\<rparr>))"

definition decode_retry_limit :: "gmap \<Rightarrow> (string, retry_limit) result" where
  "decode_retry_limit m =
     bind_res (json_pointer decode_attempt_limit m ''attempt'') (\<lambda>a.
     bind_res (json_pointer decode_duration m ''duration'') (\<lambda>d.
     Inr \<lparr>rl_attempt = a, rl_duration = d\<rparr>))"

definition decode_exponential :: "gmap \<Rightarrow> (string, exponential_backoff) result" where
  "decode_exponential m =
     bind_res (json_float m ''multiplier'') (\<lambda>x.
     bind_res (json_pointer decode_duration m ''maxDelay'') (\<lambda>d.
     Inr \<lparr>xb_multiplier = x, xb_max = d\<rparr>))"

definition decode_linear :: "gmap \<Rightarrow> (string, linear_backoff) result" where
  "decode_linear m =
     bind_res (json_pointer decode_duration m ''increment'') (\<lambda>d. Inr \<lparr>lb_increment = d\<rparr>)"

definition decode_backoff :: "gmap \<Rightarrow> (string, backoff_strategy) result" where
  "decode_backoff m =
     bind_res (json_pointer (\<lambda>_. Inr ()) m ''constant'') (\<lambda>c.
     bind_res (json_pointer decode_exponential m ''exponential'') (\<lambda>x.
     bind_res (json_pointer decode_linear m ''linear'') (\<lambda>l.
     Inr \<lparr>bs_constant = c, bs_exponential = x, bs_linear = l\<rparr>)))"

definition decode_jitter :: "gmap \<Rightarrow> (string, jitter_config) result" where
  "decode_jitter m =
     bind_res (json_pointer decode_duration m ''from'') (\<lambda>a.
     bind_res (json_pointer decode_duration m ''to'') (\<lambda>b. Inr \<lparr>jt_from = a, jt_to = b\<rparr>))"

definition decode_retry_policy :: "gmap \<Rightarrow> (string, retry_policy) result" where
  "decode_retry_policy m =
     bind_res (json_string m ''when'') (\<lambda>w.
     bind_res (json_string m ''exceptWhen'') (\<lambda>x.
     bind_res (json_pointer decode_retry_limit m ''limit'') (\<lambda>l.
     bind_res (json_pointer decode_backoff m ''backoff'') (\<lambda>b.
     bind_res (json_pointer decode_jitter m ''jitter'') (\<lambda>j.
     bind_res (json_pointer decode_duration m ''delay'') (\<lambda>d.
     Inr \<lparr>rp_when = w, rp_except = x, rp_limit = l, rp_backoff = b, rp_jitter = j, rp_delay = d\<rparr>))))))"

definition decode_error_filter :: "gmap \<Rightarrow> (string, error_filter) result" where
  "decode_error_filter m = bind_res (json_map m ''with'') (\<lambda>w. Inr \<lparr>ef_with = w\<rparr>)"

definition decode_task_config :: "gmap \<Rightarrow> (string, task_config) result" where
  "decode_task_config m =
     bind_res (json_int64 m ''timeout'') (\<lambda>t.
     bind_res (json_int64 m ''retries'') (\<lambda>r.
     bind_res (json_string m ''queue'') (\<lambda>q.
     bind_res (json_map m ''parameters'') (\<lambda>p.
     Inr \<lparr>tk_timeout = t, tk_retries = r, tk_queue = q, tk_params = p\<rparr>))))"

definition decode_task_request :: "gmap \<Rightarrow> (string, task_request) result" where
  "decode_task_request m =
     bind_res (json_string m ''task_id'') (\<lambda>i.
     bind_res (json_string m ''task_name'') (\<lambda>n.
     bind_res (json_string m ''task_type'') (\<lambda>t.
     bind_res (json_string m ''workflow_id'') (\<lambda>w.
     bind_res (json_string m ''execution_id'') (\<lambda>x.
     bind_res (json_map m ''input'') (\<lambda>inp.
     bind_res (json_pointer decode_task_config m ''config'') (\<lambda>c.
     bind_res (json_map m ''context'') (\<lambda>ctx.
     Inr \<lparr>rq_task = i, rq_name = n, rq_type = t, rq_workflow = w, rq_execution = x,
          rq_input = inp, rq_config = c, rq_context = ctx\<rparr>))))))))"

definition decode_catch :: "gmap \<Rightarrow> (string, catch_block) result" where
  "decode_catch m =
     bind_res (json_pointer decode_error_filter m ''errors'') (\<lambda>e.
     bind_res (json_string m ''as'') (\<lambda>a.
     bind_res (json_string m ''when'') (\<lambda>w.
     bind_res (json_string m ''exceptWhen'') (\<lambda>x.
     bind_res (json_pointer decode_retry_policy m ''retry'') (\<lambda>r.
     bind_res (json_map m ''do'') (\<lambda>d.
     bind_res (json_entries decode_task_request (case d of None \<Rightarrow> [] | Some n \<Rightarrow> n)) (\<lambda>ts.
     Inr \<lparr>cc_errors = e, cc_as = a, cc_when = w, cc_except = x, cc_retry = r, cc_do = ts\<rparr>)))))))"

definition empty_catch :: catch_block where
  "empty_catch = \<lparr>cc_errors = None, cc_as = [], cc_when = [], cc_except = [], cc_retry = None, cc_do = []\<rparr>"

text \<open>\<open>convertSDLCatchConfig\<close>: the block is written as JSON and read into the struct; null
  leaves the struct empty.\<close>

definition convert_catch_config :: "gval \<Rightarrow> (string, catch_block) result" where
  "convert_catch_config v =
     (case to_wire v of
        None \<Rightarrow> Inl ''failed to marshal SDL catch config''
      | Some GNil \<Rightarrow> Inr empty_catch
      | Some (GMap m) \<Rightarrow>
          (case decode_catch m of Inl e \<Rightarrow> Inl (''failed to unmarshal catch config: '' @ e) | Inr c \<Rightarrow> Inr c)
      | Some _ \<Rightarrow> Inl (''failed to unmarshal catch config: '' @ json_mismatch ''CatchConfig''))"

text \<open>A decoded error filter holds wire values.\<close>

lemma convert_catch_filter_is_wire:
  assumes "convert_catch_config v = Inr c" and "cc_errors c = Some f" and "ef_with f = Some w"
  shows "is_wire_map w"
proof -
  obtain m where m: "to_wire v = Some (GMap m)"
    using assms by (auto simp: convert_catch_config_def empty_catch_def split: option.splits gval.splits)
  with assms(1) have "decode_catch m = Inr c"
    by (auto simp: convert_catch_config_def split: sum.splits)
  with assms(2) obtain n where n: "map_of m ''errors'' = Some (GMap n)" "decode_error_filter n = Inr f"
    by (auto simp: decode_catch_def bind_res_eq_Inr json_pointer_def split: option.splits gval.splits)
  with assms(3) have w: "map_of n ''with'' = Some (GMap w)"
    by (auto simp: decode_error_filter_def bind_res_eq_Inr json_map_def split: option.splits gval.splits)
  have "is_wire_map m" using to_wire_is_wire(1) [OF m] by simp
  then have "is_wire (GMap n)" using n(1) by (rule is_wire_map_get)
  then have "is_wire_map n" by simp
  then have "is_wire (GMap w)" using w by (rule is_wire_map_get)
  then show ?thesis by simp
qed

end
