(* ===== verification/Error_Handler.thy ===== *)
theory Error_Handler
  imports Executor_Types
begin

text \<open>
  The error handler of try tasks (\<^verbatim>\<open>executor/internal/executor/error_handler.go\<close>): turning an
  error into a structured one, matching it against a filter, and choosing between retry,
  recovery, failure and ignoring, with the delay of a retry.

  \<open>rx pattern s\<close> stands for \<^verbatim>\<open>regexp.MatchString\<close> (False where the pattern does not
  compile) and \<open>rand n\<close> for \<^verbatim>\<open>rand.Int63n\<close>, a number from 0 up to \<open>n\<close> exclusive, which
  panics unless \<open>n\<close> is positive.
\<close>

type_synonym regexp = "string \<Rightarrow> string \<Rightarrow> bool"

datatype error_action = ARetry | ARecover | AFail | AIgnore

record error_context =
  ec_attempts :: int
  ec_total :: int

record handling =
  hd_action :: error_action
  hd_delay :: int
  hd_data :: gmap
  hd_tasks :: "(string \<times> task_request option) list"

subsection \<open>Classification\<close>

text \<open>The status in a message: the patterns are a fixed text, three digits, a fixed text; the
  first pattern that matches somewhere decides, at its first match.\<close>

definition status_at :: "string \<Rightarrow> string \<Rightarrow> string \<Rightarrow> int option" where
  "status_at pre post s =
     (let r = drop (length pre) s; ds = take 3 r
      in if has_prefix s pre \<and> length ds = 3 \<and> list_all is_digit ds \<and> has_prefix (drop 3 r) post
         then Some (int (read_digits 0 ds)) else None)"

fun find_status :: "string \<Rightarrow> string \<Rightarrow> string \<Rightarrow> int option" where
  "find_status pre post [] = status_at pre post []"
| "find_status pre post (c # cs) =
     (case status_at pre post (c # cs) of Some n \<Rightarrow> Some n | None \<Rightarrow> find_status pre post cs)"

definition extract_http_status :: "string \<Rightarrow> int" where
  "extract_http_status s =
     (case find_status ''status '' [] s of Some n \<Rightarrow> n
      | None \<Rightarrow> (case find_status ''HTTP '' [] s of Some n \<Rightarrow> n
      | None \<Rightarrow> (case find_status [] '' status'' s of Some n \<Rightarrow> n
      | None \<Rightarrow> (case find_status ''failed with status '' [] s of Some n \<Rightarrow> n
      | None \<Rightarrow> 500))))"

definition determine_error_type :: "string \<Rightarrow> int \<Rightarrow> string" where
  "determine_error_type msg status =
     (let m = to_lower msg
      in error_uri
        (if contains m ''timeout'' \<or> contains m ''deadline'' then ''timeout''
         else if contains m ''unauthorized'' \<or> status = 401 then ''authentication''
         else if contains m ''forbidden'' \<or> status = 403 then ''authorization''
         else if contains m ''validation'' \<or> contains m ''invalid'' then ''validation''
         else if contains m ''configuration'' \<or> contains m ''config'' then ''configuration''
         else if contains m ''expression'' then ''expression''
         else if contains m ''connection'' \<or> contains m ''network'' \<or> contains m ''http'' \<or> 500 \<le> status
           then ''communication''
         else ''runtime''))"

definition to_workflow_error :: "go_error option \<Rightarrow> workflow_error" where
  "to_workflow_error err =
     (case err of
        None \<Rightarrow> \<lparr>er_type = error_uri ''runtime'', er_status = 500, er_instance = [],
                er_title = ''Unknown Error'', er_detail = ''nil error received'', er_data = None\<rparr>
      | Some (Structured e) \<Rightarrow> e
      | Some (Plain msg) \<Rightarrow>
          \<lparr>er_type = determine_error_type msg (extract_http_status msg),
           er_status = extract_http_status msg, er_instance = [], er_title = ''Task Execution Error'',
           er_detail = msg, er_data = None\<rparr>)"

subsection \<open>Filters\<close>

definition error_property :: "workflow_error \<Rightarrow> string \<Rightarrow> gval" where
  "error_property e k =
     (if k = ''type'' then GStr (er_type e)
      else if k = ''status'' then GInt (er_status e)
      else if k = ''title'' then GStr (er_title e)
      else if k = ''detail'' then GStr (er_detail e)
      else if k = ''instance'' then GStr (er_instance e)
      else case er_data e of None \<Rightarrow> GNil | Some m \<Rightarrow> get_any m k)"

definition matches_value :: "regexp \<Rightarrow> gval \<Rightarrow> gval \<Rightarrow> bool" where
  "matches_value rx actual expected =
     (if actual = GNil \<and> expected = GNil then True
      else if actual = GNil \<or> expected = GNil then False
      else if deep_equal actual expected then True
      else case expected of
             GList xs \<Rightarrow> list_ex (\<lambda>x. deep_equal actual x) xs
           | GStr e \<Rightarrow> (case actual of GStr a \<Rightarrow> rx e a | _ \<Rightarrow> False)
           | _ \<Rightarrow> False)"

definition matches_property :: "regexp \<Rightarrow> workflow_error \<Rightarrow> string \<Rightarrow> gval \<Rightarrow> bool" where
  "matches_property rx e k expected = matches_value rx (error_property e k) expected"

definition matches_filter :: "regexp \<Rightarrow> go_error \<Rightarrow> error_filter option \<Rightarrow> bool" where
  "matches_filter rx err f =
     (case Option.bind f ef_with of
        None \<Rightarrow> True
      | Some w \<Rightarrow> list_all (\<lambda>(k, v). matches_property rx (to_workflow_error (Some err)) k v) w)"

subsection \<open>Conditions and limits\<close>

text \<open>The expressions of \<^verbatim>\<open>when\<close> and \<^verbatim>\<open>exceptWhen\<close> are read and not evaluated.\<close>

definition evaluate_catch_conditions :: "catch_block \<Rightarrow> (string, bool) result" where
  "evaluate_catch_conditions c =
     (if cc_when c = [] \<and> cc_except c = [] then Inr True else Inr True)"

definition evaluate_retry_conditions :: "retry_policy \<Rightarrow> (string, bool) result" where
  "evaluate_retry_conditions p =
     (if rp_when p = [] \<and> rp_except p = [] then Inr True else Inr True)"

definition exceeds_retry_limits :: "retry_policy \<Rightarrow> error_context \<Rightarrow> bool" where
  "exceeds_retry_limits p c =
     (case rp_limit p of
        None \<Rightarrow> False
      | Some l \<Rightarrow>
          (case rl_attempt l of
             None \<Rightarrow> False
           | Some a \<Rightarrow> 0 < al_count a \<and> al_count a \<le> ec_attempts c) \<or>
          (case rl_duration l of
             None \<Rightarrow> False
           | Some d \<Rightarrow> 0 < to_duration (Some d) \<and> to_duration (Some d) \<le> ec_total c) \<or>
          (case Option.bind (rl_attempt l) al_duration of
             None \<Rightarrow> False
           | Some d \<Rightarrow> 0 < to_duration (Some d) \<and> to_duration (Some d) \<le> ec_total c))"

subsection \<open>Delays\<close>

text \<open>\<open>for i := 1; i < n; i++ { delay *= multiplier }\<close>\<close>

fun multiply_times :: "nat \<Rightarrow> rat \<Rightarrow> rat \<Rightarrow> rat" where
  "multiply_times 0 mult delay = delay"
| "multiply_times (Suc n) mult delay = multiply_times n mult (f64_round (delay * mult))"

definition exponential_delay :: "int \<Rightarrow> exponential_backoff \<Rightarrow> int \<Rightarrow> int" where
  "exponential_delay base x attempts =
     (let mult = (if xb_multiplier x \<le> 0 then 2 else xb_multiplier x);
          r = int64_of_f64 (multiply_times (nat (attempts - 1)) mult (f64_of_int base))
      in case xb_max x of
           None \<Rightarrow> r
         | Some d \<Rightarrow> if 0 < to_duration (Some d) \<and> to_duration (Some d) < r then to_duration (Some d) else r)"

definition apply_backoff :: "int \<Rightarrow> backoff_strategy \<Rightarrow> int \<Rightarrow> int" where
  "apply_backoff base s attempts =
     (if bs_constant s \<noteq> None then base
      else case bs_exponential s of
             Some x \<Rightarrow> exponential_delay base x attempts
           | None \<Rightarrow>
               (case bs_linear s of
                  Some l \<Rightarrow> wrap64 (base + (attempts - 1) * to_duration (lb_increment l))
                | None \<Rightarrow> base))"

definition apply_jitter :: "(int \<Rightarrow> int) \<Rightarrow> int \<Rightarrow> jitter_config \<Rightarrow> (failure, int) result" where
  "apply_jitter rand delay j =
     (if jt_from j = None \<or> jt_to j = None then Inr delay
      else let lo = to_duration (jt_from j); hi = to_duration (jt_to j)
           in if hi \<le> lo then Inr (wrap64 (delay + lo))
              else let range = wrap64 (hi - lo)
                   in if range \<le> 0 then Inl Panicked
                      else Inr (wrap64 (delay + wrap64 (rand range + lo))))"

definition calculate_retry_delay ::
  "(int \<Rightarrow> int) \<Rightarrow> retry_policy \<Rightarrow> error_context \<Rightarrow> (failure, int) result" where
  "calculate_retry_delay rand p c =
     (let base = to_duration (rp_delay p);
          backed = (case rp_backoff p of None \<Rightarrow> base | Some s \<Rightarrow> apply_backoff base s (ec_attempts c))
      in case rp_jitter p of None \<Rightarrow> Inr backed | Some j \<Rightarrow> apply_jitter rand backed j)"

subsection \<open>Decisions\<close>

text \<open>The delay of a retry, or None where there is to be no retry.\<close>

definition should_retry ::
  "(int \<Rightarrow> int) \<Rightarrow> retry_policy \<Rightarrow> error_context \<Rightarrow> (failure, int option) result" where
  "should_retry rand p c =
     (case evaluate_retry_conditions p of
        Inl e \<Rightarrow> Inl (Failed (''failed to evaluate retry conditions: '' @ e))
      | Inr False \<Rightarrow> Inr None
      | Inr True \<Rightarrow>
          if exceeds_retry_limits p c then Inr None
          else bind_res (calculate_retry_delay rand p c) (\<lambda>d. Inr (Some d)))"

definition error_data :: "catch_block \<Rightarrow> workflow_error \<Rightarrow> gmap" where
  "error_data c e =
     (let m = [(cc_as c, error_value e)] in if cc_as c = [] then put ''error'' (error_value e) m else m)"

definition handling_of :: "error_action \<Rightarrow> handling" where
  "handling_of a = \<lparr>hd_action = a, hd_delay = 0, hd_data = [], hd_tasks = []\<rparr>"

definition handle_error ::
  "regexp \<Rightarrow> (int \<Rightarrow> int) \<Rightarrow> go_error \<Rightarrow> catch_block \<Rightarrow> error_context \<Rightarrow> (failure, handling) result" where
  "handle_error rx rand err c x =
     (if cc_errors c \<noteq> None \<and> \<not> matches_filter rx err (cc_errors c) then Inr (handling_of AFail)
      else case evaluate_catch_conditions c of
        Inl e \<Rightarrow> Inl (Failed (''failed to evaluate catch conditions: '' @ e))
      | Inr False \<Rightarrow> Inr (handling_of AFail)
      | Inr True \<Rightarrow>
          (let data = error_data c (to_workflow_error (Some err));
               rest = (if cc_do c \<noteq> [] then (handling_of ARecover)\<lparr>hd_data := data, hd_tasks := cc_do c\<rparr>
                       else (handling_of AIgnore)\<lparr>hd_data := data\<rparr>)
           in case cc_retry c of
                None \<Rightarrow> Inr rest
              | Some p \<Rightarrow>
                  (case should_retry rand p x of
                     Inl (Failed e) \<Rightarrow> Inl (Failed (''failed to evaluate retry policy: '' @ e))
                   | Inl Panicked \<Rightarrow> Inl Panicked
                   | Inr None \<Rightarrow> Inr rest
                   | Inr (Some d) \<Rightarrow>
                       Inr ((handling_of ARetry)\<lparr>hd_delay := d, hd_data := data\<rparr>))))"

end
