(* ===== verification/Error_Laws.thy ===== *)
theory Error_Laws
  imports Error_Handler
begin

text \<open>
  Correctness of the error handler: the decision it takes, the limits of retries, the
  classification of HTTP errors, the filter on the status code, and the delays.
\<close>

subsection \<open>The decision\<close>

text \<open>What the catch block promises: an error outside the filter is not caught; a caught error
  is retried while the policy allows, else recovered from, else ignored.\<close>

definition catch_decision :: "regexp \<Rightarrow> go_error \<Rightarrow> catch_block \<Rightarrow> error_context \<Rightarrow> error_action" where
  "catch_decision rx err c x =
     (if \<not> matches_filter rx err (cc_errors c) then AFail
      else if \<exists>p. cc_retry c = Some p \<and> \<not> exceeds_retry_limits p x then ARetry
      else if cc_do c \<noteq> [] then ARecover
      else AIgnore)"

lemma catch_conditions_True [simp]: "evaluate_catch_conditions c = Inr True"
  by (simp add: evaluate_catch_conditions_def)

lemma retry_conditions_True [simp]: "evaluate_retry_conditions p = Inr True"
  by (simp add: evaluate_retry_conditions_def)

lemma handling_of_fields [simp]:
  "hd_action (handling_of a) = a" "hd_delay (handling_of a) = 0" "hd_data (handling_of a) = []"
  "hd_tasks (handling_of a) = []"
  by (simp_all add: handling_of_def)

lemma should_retry_simp:
  "should_retry rand p x =
     (if exceeds_retry_limits p x then Inr None
      else bind_res (calculate_retry_delay rand p x) (\<lambda>d. Inr (Some d)))"
  by (simp add: should_retry_def)

lemma matches_no_filter [simp]: "matches_filter rx err None"
  by (simp add: matches_filter_def)

lemma calculate_retry_delay_never_errs:
  "calculate_retry_delay rand p x \<noteq> Inl (Failed e)"
  by (auto simp: calculate_retry_delay_def apply_jitter_def Let_def split: option.splits if_splits)

lemma handle_error_decision:
  assumes "handle_error rx rand err c x = Inr h"
  shows "hd_action h = catch_decision rx err c x"
proof (cases "matches_filter rx err (cc_errors c)")
  case False
  then have "cc_errors c \<noteq> None" by (cases "cc_errors c") auto
  with False assms show ?thesis by (auto simp: handle_error_def catch_decision_def)
next
  case True
  show ?thesis
  proof (cases "cc_retry c")
    case None
    with True assms show ?thesis
      by (auto simp: handle_error_def catch_decision_def Let_def split: if_splits)
  next
    case (Some p)
    with True assms show ?thesis
      by (cases "calculate_retry_delay rand p x")
        (auto simp: handle_error_def catch_decision_def should_retry_simp Let_def
          split: if_splits failure.splits)
  qed
qed

lemma handle_error_no_error: "handle_error rx rand err c x \<noteq> Inl (Failed e)"
proof
  assume h: "handle_error rx rand err c x = Inl (Failed e)"
  then obtain p where "cc_retry c = Some p" "calculate_retry_delay rand p x \<noteq> Inl Panicked"
      "\<exists>f. calculate_retry_delay rand p x = Inl f"
    by (auto simp: handle_error_def should_retry_simp Let_def bind_res_eq_Inl
        split: if_splits option.splits sum.splits failure.splits)
  then show False
    using calculate_retry_delay_never_errs [of rand p x] by (metis failure.exhaust)
qed



definition demo_duration :: "int \<Rightarrow> sdl_duration" where
  "demo_duration s = \<lparr>du_days = 0, du_hours = 0, du_minutes = 0, du_seconds = s, du_millis = 0\<rparr>"

definition demo_policy :: "int \<Rightarrow> backoff_strategy option \<Rightarrow> retry_policy" where
  "demo_policy n b =
     \<lparr>rp_when = [], rp_except = [],
      rp_limit = Some \<lparr>rl_attempt = Some \<lparr>al_count = n, al_duration = None\<rparr>, rl_duration = None\<rparr>,
      rp_backoff = b, rp_jitter = None, rp_delay = Some (demo_duration 2)\<rparr>"

definition demo_catch :: "int \<Rightarrow> catch_block" where
  "demo_catch n = empty_catch\<lparr>cc_retry := Some (demo_policy n None)\<rparr>"

lemma demo_retry:
  "handle_error rx rand (Plain ''HTTP request failed with status 503'') (demo_catch 3)
     \<lparr>ec_attempts = 1, ec_total = 0\<rparr> =
   Inr ((handling_of ARetry)\<lparr>hd_delay := 2000000000,
      hd_data := error_data (demo_catch 3)
        (to_workflow_error (Some (Plain ''HTTP request failed with status 503'')))\<rparr>)"
  by (simp add: handle_error_def demo_catch_def demo_policy_def empty_catch_def should_retry_simp
      exceeds_retry_limits_def calculate_retry_delay_def demo_duration_def to_duration_wrap
      nanoseconds_def handling_of_def error_data_def)


subsection \<open>Classification of HTTP errors\<close>

lemma contains_append_digits:
  assumes "\<forall>c \<in> set ds. is_digit c" and "sub \<noteq> []" and "\<not> is_digit (last sub)"
  shows "contains (p @ ds) sub \<longleftrightarrow> contains p sub"
proof
  have no: False if "set us \<subseteq> set ds" "us \<noteq> []" "last sub = last us" for us
    using that assms(1,3) by (metis last_in_set subsetD)
  assume "contains (p @ ds) sub"
  then obtain a b where "p @ ds = a @ sub @ b" by (auto simp: contains_iff)
  then consider us where "a = p @ us" "ds = us @ sub @ b" | us where "p = a @ us" "us @ ds = sub @ b"
    by (auto simp: append_eq_append_conv2)
  then show "contains p sub"
  proof cases
    case 1
    with no [of sub] assms(2) show ?thesis by auto
  next
    case 2
    from 2(2) consider v where "us = sub @ v" | v where "sub = us @ v" "ds = v @ b"
      by (auto simp: append_eq_append_conv2)
    then show ?thesis
    proof cases
      case 1
      with 2(1) show ?thesis by (auto simp: contains_iff)
    next
      case v: 2
      have "v = []" using no [of v] v assms(2) by (cases "v = []") auto
      with v(1) 2(1) have "p = a @ sub @ []" by simp
      then show ?thesis unfolding contains_iff by blast
    qed
  qed
next
  assume "contains p sub"
  then obtain a b where "p = a @ sub @ b" by (auto simp: contains_iff)
  then have "p @ ds = a @ sub @ (b @ ds)" by simp
  then show "contains (p @ ds) sub" unfolding contains_iff by blast
qed

lemma lower_digit: "is_digit c \<Longrightarrow> lower_char c = c"
  by (auto simp: is_digit_def lower_char_def Let_def)

lemma to_lower_append_digits:
  "\<forall>c \<in> set ds. is_digit c \<Longrightarrow> to_lower (p @ ds) = to_lower p @ ds"
  by (simp add: to_lower_def map_idI lower_digit)

lemma three_digits:
  assumes "100 \<le> n" and "n < 1000"
  shows "length (nat_digits n) = 3"
proof -
  have "nat_digits n = [digit_char (n div 100), digit_char (n div 10 mod 10), digit_char (n mod 10)]"
    using assms by (subst nat_digits.simps, subst nat_digits.simps, subst nat_digits.simps)
      (auto simp: div_mult2_eq [symmetric])
  then show ?thesis by simp
qed

lemma http_status_error_nat:
  "http_status_error (int n) = ''HTTP request failed with status '' @ nat_digits n"
  by (simp add: http_status_error_def itoa_def)

lemma http_failure_status:
  assumes "100 \<le> n" and "n < 1000"
  shows "extract_http_status (http_status_error (int n)) = int n"
proof -
  obtain a b c where d: "nat_digits n = [a, b, c]"
    using three_digits [OF assms] by (auto simp: numeral_3_eq_3 length_Suc_conv)
  have "list_all is_digit [a, b, c]" using nat_digits_are_digits [of n] by (simp add: d)
  moreover have "read_digits 0 [a, b, c] = n" using read_nat_digits [of n] by (simp add: d)
  ultimately show ?thesis
    by (simp add: http_status_error_nat extract_http_status_def d status_at_def has_prefix_def Let_def)
qed

definition http_error_type :: "nat \<Rightarrow> string" where
  "http_error_type n =
     error_uri (if n = 401 then ''authentication'' else if n = 403 then ''authorization''
                else ''communication'')"

lemma http_failure_type: "determine_error_type (http_status_error (int n)) (int n) = http_error_type n"
proof -
  have low: "to_lower (http_status_error (int n)) = ''http request failed with status '' @ nat_digits n"
    unfolding http_status_error_nat
    by (subst to_lower_append_digits) (simp_all add: nat_digits_are_digits, code_simp)
  have c: "contains (''http request failed with status '' @ nat_digits n) sub \<longleftrightarrow>
      contains ''http request failed with status '' sub"
    if "sub \<noteq> []" "\<not> is_digit (last sub)" for sub
    using that by (intro contains_append_digits) (simp_all add: nat_digits_are_digits)
  have i: "int n = 401 \<longleftrightarrow> n = 401" "int n = 403 \<longleftrightarrow> n = 403" by linarith+
  show ?thesis
    unfolding determine_error_type_def low Let_def http_error_type_def i
    by (simp add: c is_digit_def has_prefix_def del: append_Cons)
qed

text \<open>The error of an OpenAPI call that was answered with status \<open>n\<close> is classified by its
  number: it carries the status \<open>n\<close>, and its type is authentication for 401, authorization
  for 403 and communication for every other code. In particular a 400 is a communication
  error and not a validation error, since the word "http" of the message is looked for before
  the number is.
\<close>
theorem http_errors_classified:
  assumes "100 \<le> n" and "n < 1000"
  shows "er_status (to_workflow_error (Some (Plain (http_status_error (int n))))) = int n \<and>
    er_type (to_workflow_error (Some (Plain (http_status_error (int n))))) = http_error_type n"
  using assms by (simp add: to_workflow_error_def http_failure_status http_failure_type)

theorem http_errors_classified_witness:
  "er_type (to_workflow_error (Some (Plain (http_status_error 400)))) = error_uri ''communication''"
  using http_errors_classified [of 400] by (simp add: http_error_type_def)

text \<open>The filter on the status, after the configuration has been through JSON.\<close>

lemma deep_equal_int_list: "is_wire_list xs \<Longrightarrow> \<not> list_ex (deep_equal (GInt i)) xs"
  by (induction xs) (auto simp: deep_equal_int_wire)

lemma status_value_no_match:
  assumes "is_wire v"
  shows "\<not> matches_value rx (GInt i) v"
proof (cases v)
  case (GList xs)
  with assms deep_equal_int_list [of xs i] show ?thesis by (simp add: matches_value_def)
next
  case (GInt j)
  with assms show ?thesis by simp
qed (use assms in \<open>simp_all add: matches_value_def deep_equal_int_wire\<close>)

text \<open>A catch block whose error filter names a status never catches anything. The filter comes
  out of JSON, where every number is a float, the status of the error is an integer, and deep
  equality tells the two types apart, be the expected value a number or a list of numbers.
\<close>
theorem status_filter_never_matches:
  assumes "convert_catch_config v = Inr c" and "cc_errors c = Some f" and "ef_with f = Some w"
    and "map_of w ''status'' = Some s"
  shows "catch_decision rx err c x = AFail"
proof -
  have "is_wire_map w" using assms(1-3) by (rule convert_catch_filter_is_wire)
  then have "is_wire s" using assms(4) by (rule is_wire_map_get)
  then have "\<not> matches_property rx (to_workflow_error (Some err)) ''status'' s"
    by (simp add: matches_property_def error_property_def status_value_no_match)
  with map_of_SomeD [OF assms(4)] have "\<not> matches_filter rx err (cc_errors c)"
    using assms(2,3) by (auto simp: matches_filter_def list_all_iff)
  then show ?thesis by (simp add: catch_decision_def)
qed

definition demo_status_catch :: gval where
  "demo_status_catch =
     GMap [(''errors'', GMap [(''with'', GMap [(''status'', GFloat 503)])]), (''as'', GStr ''apiError'')]"

theorem status_filter_never_matches_witness:
  "\<forall>rx. catch_decision rx (Plain (http_status_error 503))
     (empty_catch\<lparr>cc_errors := Some \<lparr>ef_with = Some [(''status'', GFloat 503)]\<rparr>, cc_as := ''apiError''\<rparr>)
     \<lparr>ec_attempts = 1, ec_total = 0\<rparr> = AFail"
proof
  fix rx
  have "convert_catch_config demo_status_catch =
      Inr (empty_catch\<lparr>cc_errors := Some \<lparr>ef_with = Some [(''status'', GFloat 503)]\<rparr>, cc_as := ''apiError''\<rparr>)"
    by (simp add: demo_status_catch_def convert_catch_config_def decode_catch_def json_defs
        decode_error_filter_def empty_catch_def)
  then show "catch_decision rx (Plain (http_status_error 503))
     (empty_catch\<lparr>cc_errors := Some \<lparr>ef_with = Some [(''status'', GFloat 503)]\<rparr>, cc_as := ''apiError''\<rparr>)
     \<lparr>ec_attempts = 1, ec_total = 0\<rparr> = AFail"
    by (rule status_filter_never_matches [of _ _ "\<lparr>ef_with = Some [(''status'', GFloat 503)]\<rparr>"
          "[(''status'', GFloat 503)]" "GFloat 503"]) simp_all
qed

subsection \<open>Delays\<close>

text \<open>Up to \<open>2 ^ 53\<close> the float arithmetic is exact.\<close>

lemma f64_round_int: "\<bar>i\<bar> \<le> 2 ^ 53 \<Longrightarrow> f64_round (of_int i) = of_int i"
  using f64_of_int_exact [of i] by (simp add: f64_of_int_def)

lemma multiply_times_exact:
  assumes "0 \<le> b" and "1 \<le> m" and "b * m ^ n \<le> 2 ^ 53"
  shows "multiply_times n (of_int m) (of_int b) = of_int (b * m ^ n)"
  using assms
proof (induction n arbitrary: b)
  case 0
  then show ?case by simp
next
  case (Suc n)
  from Suc.prems have bm: "0 \<le> b * m" "b * m * m ^ n \<le> 2 ^ 53" by (simp_all add: mult.assoc)
  have "1 \<le> m ^ n" using Suc.prems(2) by (rule one_le_power)
  then have "b * m * 1 \<le> b * m * m ^ n" using bm(1) by (intro mult_left_mono) auto
  with bm have "\<bar>b * m\<bar> \<le> 2 ^ 53" by simp
  then have "f64_round (of_int b * of_int m) = of_int (b * m)"
    using f64_round_int [of "b * m"] by simp
  with Suc.IH [OF bm(1) Suc.prems(2) bm(2)] show ?case by (simp add: mult.assoc)
qed

lemma exponential_delay_exact:
  assumes "0 \<le> b" and "1 \<le> m" and "xb_multiplier x = of_int m" and "b * m ^ n \<le> 2 ^ 53"
  shows "exponential_delay b x (int n + 1) =
    (case xb_max x of
       None \<Rightarrow> b * m ^ n
     | Some d \<Rightarrow> if 0 < to_duration (Some d) then min (to_duration (Some d)) (b * m ^ n) else b * m ^ n)"
proof -
  have "1 \<le> m ^ n" using assms(2) by (rule one_le_power)
  then have "b * 1 \<le> b * m ^ n" using assms(1) by (intro mult_left_mono)
  with assms(1,4) have "\<bar>b\<bar> \<le> 2 ^ 53" by simp
  then have base: "f64_of_int b = of_int b" by (rule f64_of_int_exact)
  have mult: "(if xb_multiplier x \<le> 0 then 2 else xb_multiplier x) = of_int m"
    using assms(2,3) by simp
  have "0 \<le> b * m ^ n" using assms(1,2) by simp
  then have fit: "int64_of_f64 (of_int (b * m ^ n)) = b * m ^ n"
    using assms(4) by (intro int64_of_f64_of_int) simp_all
  have r: "int64_of_f64 (multiply_times n (of_int m) (of_int b)) = b * m ^ n"
    using multiply_times_exact [OF assms(1,2,4)] fit by simp
  show ?thesis
    unfolding exponential_delay_def Let_def mult base
    using r by (auto simp: min_def split: option.splits)
qed

text \<open>The delay a backoff strategy promises after \<open>n + 1\<close> attempts, and the range in which the
  arithmetic of the code keeps the promise: an integral multiplier, products that floats
  represent, sums of 64 bits.\<close>

definition capped :: "sdl_duration option \<Rightarrow> int \<Rightarrow> int" where
  "capped d r = (if 0 < to_duration d then min (to_duration d) r else r)"

definition promised_delay :: "backoff_strategy \<Rightarrow> int \<Rightarrow> nat \<Rightarrow> int" where
  "promised_delay s b n =
     (if bs_constant s \<noteq> None then b
      else case bs_exponential s of
             Some e \<Rightarrow> capped (xb_max e) (b * \<lfloor>xb_multiplier e\<rfloor> ^ n)
           | None \<Rightarrow> (case bs_linear s of Some l \<Rightarrow> b + int n * to_duration (lb_increment l) | None \<Rightarrow> b))"

definition exact_range :: "backoff_strategy \<Rightarrow> int \<Rightarrow> nat \<Rightarrow> bool" where
  "exact_range s b n \<longleftrightarrow>
     (case bs_exponential s of
        Some e \<Rightarrow> xb_multiplier e = of_int \<lfloor>xb_multiplier e\<rfloor> \<and> 1 \<le> \<lfloor>xb_multiplier e\<rfloor> \<and>
          b * \<lfloor>xb_multiplier e\<rfloor> ^ n \<le> 2 ^ 53
      | None \<Rightarrow>
          (case bs_linear s of
             Some l \<Rightarrow> 0 \<le> to_duration (lb_increment l) \<and> b + int n * to_duration (lb_increment l) < 2 ^ 63
           | None \<Rightarrow> True))"

lemma exponential_delay_capped:
  assumes "0 \<le> b" and "1 \<le> m" and "xb_multiplier x = of_int m" and "b * m ^ n \<le> 2 ^ 53"
  shows "exponential_delay b x (int n + 1) = capped (xb_max x) (b * m ^ n)"
  using exponential_delay_exact [OF assms]
  by (cases "xb_max x") (simp_all add: capped_def to_duration_def)

lemma apply_backoff_exact:
  assumes "0 \<le> b" and "exact_range s b n"
  shows "apply_backoff b s (int n + 1) = promised_delay s b n"
proof (cases "bs_constant s \<noteq> None")
  case True
  then show ?thesis by (simp add: apply_backoff_def promised_delay_def)
next
  case nc: False
  show ?thesis
  proof (cases "bs_exponential s")
    case (Some e)
    with assms(2) have "xb_multiplier e = of_int \<lfloor>xb_multiplier e\<rfloor>" "1 \<le> \<lfloor>xb_multiplier e\<rfloor>"
      "b * \<lfloor>xb_multiplier e\<rfloor> ^ n \<le> 2 ^ 53" by (simp_all add: exact_range_def)
    then have "exponential_delay b e (int n + 1) = capped (xb_max e) (b * \<lfloor>xb_multiplier e\<rfloor> ^ n)"
      using exponential_delay_capped [OF assms(1), of "\<lfloor>xb_multiplier e\<rfloor>" e n] by simp
    with nc Some show ?thesis by (simp add: apply_backoff_def promised_delay_def)
  next
    case None
    show ?thesis
    proof (cases "bs_linear s")
      case (Some l)
      with None assms(2) have i: "0 \<le> to_duration (lb_increment l)"
        "b + int n * to_duration (lb_increment l) < 2 ^ 63" by (simp_all add: exact_range_def)
      have "0 \<le> b + int n * to_duration (lb_increment l)" using assms(1) i(1) by simp
      with i(2) have "wrap64 (b + int n * to_duration (lb_increment l)) =
          b + int n * to_duration (lb_increment l)" by (intro wrap64_id) linarith+
      with nc None Some show ?thesis by (simp add: apply_backoff_def promised_delay_def)
    next
      case None
      with nc \<open>bs_exponential s = None\<close> show ?thesis
        by (simp add: apply_backoff_def promised_delay_def)
    qed
  qed
qed

text \<open>C23: The delay before a retry, without jitter, is what the backoff strategy promises. With
  the base delay \<open>b\<close>, after \<open>n + 1\<close> attempts: constant backoff waits \<open>b\<close>, linear backoff
  \<open>b + n * inc\<close>, exponential backoff with an integral multiplier \<open>m\<close> waits \<open>b * m ^ n\<close>, or
  the cap when that is smaller. The products must stay within the exact range of the float
  arithmetic, and the sums within 64 bits.
\<close>
theorem backoff_delays:
  assumes "rp_jitter p = None" and "rp_backoff p = Some s" and "ec_attempts x = int n + 1"
    and "0 \<le> to_duration (rp_delay p)" and "exact_range s (to_duration (rp_delay p)) n"
  shows "calculate_retry_delay rand p x = Inr (promised_delay s (to_duration (rp_delay p)) n)"
  using assms by (simp add: calculate_retry_delay_def Let_def apply_backoff_exact)

definition demo_exponential :: "rat \<Rightarrow> sdl_duration option \<Rightarrow> backoff_strategy" where
  "demo_exponential m d =
     \<lparr>bs_constant = None, bs_exponential = Some \<lparr>xb_multiplier = m, xb_max = d\<rparr>, bs_linear = None\<rparr>"

theorem backoff_delays_witness:
  "\<forall>rand. calculate_retry_delay rand (demo_policy 5 (Some (demo_exponential 2 (Some (demo_duration 5)))))
     \<lparr>ec_attempts = 3, ec_total = 0\<rparr> = Inr 5000000000"
proof
  fix rand
  show "calculate_retry_delay rand (demo_policy 5 (Some (demo_exponential 2 (Some (demo_duration 5)))))
     \<lparr>ec_attempts = 3, ec_total = 0\<rparr> = Inr 5000000000"
    using backoff_delays
      [of "demo_policy 5 (Some (demo_exponential 2 (Some (demo_duration 5))))"
        "demo_exponential 2 (Some (demo_duration 5))" "\<lparr>ec_attempts = 3, ec_total = 0\<rparr>" 2 rand]
    by (simp add: demo_policy_def demo_exponential_def demo_duration_def to_duration_wrap
        nanoseconds_def exact_range_def promised_delay_def capped_def)
qed

lemma apply_jitter_bounds:
  assumes "jt_from j = Some f" and "jt_to j = Some t"
    and "0 \<le> to_duration (Some f)" and "to_duration (Some f) < to_duration (Some t)"
    and "0 \<le> delay" and "delay + to_duration (Some t) < 2 ^ 63"
    and rand: "\<And>n. 0 < n \<Longrightarrow> 0 \<le> rand n \<and> rand n < n"
  shows "\<exists>r. apply_jitter rand delay j = Inr r \<and>
    delay + to_duration (Some f) \<le> r \<and> r < delay + to_duration (Some t)"
proof -
  define lo hi where "lo = to_duration (Some f)" and "hi = to_duration (Some t)"
  have bounds: "0 \<le> lo" "lo < hi" "delay + hi < 2 ^ 63" using assms by (simp_all add: lo_def hi_def)
  then have hi: "hi < 2 ^ 63" using assms(5) by linarith
  have range: "wrap64 (hi - lo) = hi - lo" using bounds hi by (intro wrap64_id) linarith+
  have r: "0 \<le> rand (hi - lo)" "rand (hi - lo) < hi - lo" using rand [of "hi - lo"] bounds by simp_all
  have w1: "wrap64 (rand (hi - lo) + lo) = rand (hi - lo) + lo"
    using r bounds hi by (intro wrap64_id) linarith+
  have w2: "wrap64 (delay + (rand (hi - lo) + lo)) = delay + (rand (hi - lo) + lo)"
    using r bounds assms(5) by (intro wrap64_id) linarith+
  have "apply_jitter rand delay j = Inr (delay + (rand (hi - lo) + lo))"
    unfolding apply_jitter_def Let_def assms(1,2) lo_def [symmetric] hi_def [symmetric]
    using bounds by (simp add: range w1 w2)
  then show ?thesis using r unfolding lo_def hi_def by auto
qed

text \<open>Jitter spreads the delay over the configured window and never shortens it. With the
  window \<open>[from, to)\<close> of non-negative durations and a random source that keeps the contract
  of \<^verbatim>\<open>rand.Int63n\<close>, the delay before the retry lies in \<open>[d + from, d + to)\<close>, where \<open>d\<close> is
  the delay of the backoff strategy, and no panic occurs.
\<close>
theorem jitter_window:
  assumes "calculate_retry_delay rand (p\<lparr>rp_jitter := None\<rparr>) x = Inr d"
    and "rp_jitter p = Some j" and "jt_from j = Some f" and "jt_to j = Some t"
    and "0 \<le> to_duration (Some f)" and "to_duration (Some f) < to_duration (Some t)"
    and "0 \<le> d" and "d + to_duration (Some t) < 2 ^ 63"
    and "\<And>n. 0 < n \<Longrightarrow> 0 \<le> rand n \<and> rand n < n"
  shows "\<exists>r. calculate_retry_delay rand p x = Inr r \<and>
    d + to_duration (Some f) \<le> r \<and> r < d + to_duration (Some t)"
proof -
  have "calculate_retry_delay rand p x = apply_jitter rand d j"
    using assms(1,2) by (simp add: calculate_retry_delay_def Let_def)
  with apply_jitter_bounds [OF assms(3-9)] show ?thesis by simp
qed

theorem jitter_window_witness:
  "\<exists>r. calculate_retry_delay (\<lambda>n. n - 1)
     ((demo_policy 5 None)\<lparr>rp_jitter := Some \<lparr>jt_from = Some (demo_duration 1), jt_to = Some (demo_duration 3)\<rparr>\<rparr>)
     \<lparr>ec_attempts = 1, ec_total = 0\<rparr> = Inr r \<and> 3000000000 \<le> r \<and> r < 5000000000"
  using jitter_window
    [of "\<lambda>n. n - 1"
      "(demo_policy 5 None)\<lparr>rp_jitter := Some \<lparr>jt_from = Some (demo_duration 1), jt_to = Some (demo_duration 3)\<rparr>\<rparr>"
      "\<lparr>ec_attempts = 1, ec_total = 0\<rparr>" 2000000000
      "\<lparr>jt_from = Some (demo_duration 1), jt_to = Some (demo_duration 3)\<rparr>" "demo_duration 1" "demo_duration 3"]
  by (simp add: demo_policy_def demo_duration_def to_duration_wrap nanoseconds_def
      calculate_retry_delay_def)

text \<open>An exponential backoff that outgrows 64 bits escapes its cap. Once the float product is
  \<open>2 ^ 63\<close> or more, its conversion to a duration is the most negative number, which is not
  above the cap: the delay comes out negative whatever the cap says, and the caller, which
  only schedules a timer for a positive delay, repeats the call at once.
\<close>
theorem overflow_escapes_cap:
  assumes "2 ^ 63 \<le> multiply_times (nat (attempts - 1))
      (if xb_multiplier e \<le> 0 then 2 else xb_multiplier e) (f64_of_int base)"
  shows "exponential_delay base e attempts = - (2 ^ 63)"
proof -
  define r where "r = multiply_times (nat (attempts - 1))
      (if xb_multiplier e \<le> 0 then 2 else xb_multiplier e) (f64_of_int base)"
  have "of_int (2 ^ 63) \<le> r" using assms by (simp add: r_def)
  then have "2 ^ 63 \<le> \<lfloor>r\<rfloor>" by (simp only: le_floor_iff)
  moreover have "0 \<le> r" using assms by (simp add: r_def)
  ultimately have "int64_of_f64 r = - (2 ^ 63)"
    by (simp add: int64_of_f64_def trunc_rat_def Let_def)
  then show ?thesis
    unfolding exponential_delay_def Let_def r_def [symmetric]
    by (auto split: option.splits)
qed

theorem overflow_escapes_cap_witness:
  "exponential_delay 3600000000000 \<lparr>xb_multiplier = 100, xb_max = Some (demo_duration 60)\<rparr> 5 = - (2 ^ 63)"
  by (rule overflow_escapes_cap) code_simp

end
