(* ===== verification/Call_Executor.thy ===== *)
theory Call_Executor
  imports Executor_Types Event_Stream
begin

text \<open>
  The call executor (\<^verbatim>\<open>executor/internal/executor/call_task_executor.go\<close>) and the call
  configuration (\<^verbatim>\<open>openapi_types.go\<close>): parsing and validating the configuration, the direct
  HTTP call, the OpenAPI call, and the expressions in parameters and output.

  The HTTP client and the OpenAPI client are arguments: \<open>ce_http\<close> answers a request and
  \<open>ce_openapi\<close> gives what \<^verbatim>\<open>ExecuteOperation\<close> returns, a response and an error, each possibly
  absent. \<open>ce_fmt\<close> prints a value (\<^verbatim>\<open>fmt.Sprintf("%v", v)\<close>).
\<close>

subsection \<open>Configuration\<close>

record call_config =
  cf_url :: string
  cf_method :: string
  cf_headers :: "gmap option"
  cf_body :: gval
  cf_query :: "gmap option"
  cf_type :: string
  cf_document :: "string option"
  cf_operation :: string
  cf_params :: "gmap option"
  cf_auth :: "(string \<times> gmap option) option"
  cf_output :: string
  cf_redirect :: bool

definition decode_authentication :: "gmap \<Rightarrow> (string, string \<times> gmap option) result" where
  "decode_authentication m =
     bind_res (json_string m ''type'') (\<lambda>t. bind_res (json_map m ''config'') (\<lambda>c. Inr (t, c)))"

definition decode_call_config :: "gmap \<Rightarrow> (string, call_config) result" where
  "decode_call_config m =
     bind_res (json_string m ''url'') (\<lambda>u.
     bind_res (json_string m ''method'') (\<lambda>me.
     bind_res (json_map m ''headers'') (\<lambda>h.
     bind_res (json_map m ''query'') (\<lambda>q.
     bind_res (json_string m ''call_type'') (\<lambda>t.
     bind_res (json_pointer (\<lambda>d. json_string d ''endpoint'') m ''document'') (\<lambda>d.
     bind_res (json_string m ''operation_id'') (\<lambda>i.
     bind_res (json_map m ''parameters'') (\<lambda>p.
     bind_res (json_pointer decode_authentication m ''authentication'') (\<lambda>a.
     bind_res (json_string m ''output'') (\<lambda>out.
     bind_res (json_bool m ''redirect'') (\<lambda>r.
     Inr \<lparr>cf_url = u, cf_method = me, cf_headers = h, cf_body = get_any m ''body'', cf_query = q,
          cf_type = t, cf_document = d, cf_operation = i, cf_params = p, cf_auth = a,
          cf_output = out, cf_redirect = r\<rparr>)))))))))))"

definition parse_call_config :: "gmap \<Rightarrow> (string, call_config) result" where
  "parse_call_config params =
     (case wire_map params of
        None \<Rightarrow> Inl ''failed to marshal parameters''
      | Some m \<Rightarrow>
          (case decode_call_config m of
             Inl e \<Rightarrow> Inl (''failed to unmarshal call config: '' @ e)
           | Inr c \<Rightarrow>
               if cf_type c = [] \<and> \<not> (cf_document c \<noteq> None \<and> cf_operation c \<noteq> []) \<and> cf_url c = []
               then Inl ''unable to determine call type from configuration''
               else
                 let ty = (if cf_type c \<noteq> [] then cf_type c
                           else if cf_document c \<noteq> None \<and> cf_operation c \<noteq> [] then ''openapi''
                           else ''http'')
                 in Inr (c\<lparr>cf_type := ty,
                      cf_output := (if cf_output c = [] then ''content'' else cf_output c),
                      cf_method := (if cf_method c = [] \<and> ty = ''http'' then ''GET'' else cf_method c)\<rparr>)))"

definition is_openapi_call :: "call_config \<Rightarrow> bool" where
  "is_openapi_call c \<longleftrightarrow> cf_type c = ''openapi''"

definition validate_call :: "call_config \<Rightarrow> string option" where
  "validate_call c =
     (let target =
        (if cf_type c = ''openapi'' then
           (case cf_document c of
              None \<Rightarrow> Some ''document is required for OpenAPI calls''
            | Some endpoint \<Rightarrow>
                if endpoint = [] then Some ''document endpoint is required for OpenAPI calls''
                else if cf_operation c = [] then Some ''operation_id is required for OpenAPI calls''
                else None)
         else if cf_type c = ''http'' \<or> cf_type c = [] then
           (if cf_url c = [] then Some ''url is required for HTTP calls'' else None)
         else Some (''unsupported call type: '' @ cf_type c))
      in case target of
           Some e \<Rightarrow> Some e
         | None \<Rightarrow>
             if cf_output c \<in> {''content'', ''response'', ''raw''} then None
             else Some (''unsupported output format: '' @ cf_output c @ '' (supported: content, response, raw)''))"

subsection \<open>Values while they are transformed\<close>

text \<open>
  An expression walks through Go values of three kinds: a dynamic value, a value of another
  Go type (headers, the request record), which no step enters and which is written as the
  JSON value it holds, and the map of the raw output, whose entries are of either kind.
\<close>

datatype go_value = Val gval | Opaque gval | Fields "(string \<times> go_value) list"

fun fields_of :: "go_value \<Rightarrow> (string \<times> go_value) list option" where
  "fields_of (Val (GMap m)) = Some (map (\<lambda>(k, v). (k, Val v)) m)"
| "fields_of (Fields fs) = Some fs"
| "fields_of _ = None"

fun elements_of :: "go_value \<Rightarrow> gval list option" where
  "elements_of (Val (GList xs)) = Some xs"
| "elements_of _ = None"

fun json_of :: "go_value \<Rightarrow> gval" where
  "json_of (Val v) = v"
| "json_of (Opaque v) = v"
| "json_of (Fields fs) = GMap (map (\<lambda>(k, v). (k, json_of v)) fs)"

subsection \<open>Paths\<close>

text \<open>\<open>splitPathWithArrays\<close>: a dot outside brackets ends a part; empty parts are dropped.\<close>

fun split_path :: "bool \<Rightarrow> string \<Rightarrow> string \<Rightarrow> string list" where
  "split_path inside current [] = (if current \<noteq> [] then [current] else [])"
| "split_path inside current (c # cs) =
     (if c = CHR ''['' then split_path True (current @ [c]) cs
      else if c = CHR '']'' then split_path False (current @ [c]) cs
      else if c = CHR ''.'' \<and> \<not> inside
        then (if current \<noteq> [] then current # split_path inside [] cs else split_path inside [] cs)
      else split_path inside (current @ [c]) cs)"

definition array_index :: "string \<Rightarrow> (failure, int) result" where
  "array_index s =
     (if s = [] then Inr 0
      else case atoi s of Some i \<Rightarrow> Inr i | None \<Rightarrow> Inl (Failed (''invalid array index '' @ s)))"

text \<open>One step. The text between the brackets is a slice of the part; a closing bracket before
  the opening one makes the slice bounds run backwards, which panics.\<close>

definition path_step :: "go_value \<Rightarrow> string \<Rightarrow> (failure, go_value) result" where
  "path_step current part =
     (if contains part ''['' \<and> contains part '']''
      then
        let i = index_of part (CHR ''[''); j = index_of part (CHR '']'');
            name = take (nat i) part
        in if j < i + 1 then Inl Panicked
           else
             let idx = take (nat (j - i - 1)) (drop (nat (i + 1)) part)
             in case fields_of current of
                  None \<Rightarrow> Inl (Failed (''cannot access field on non-object: '' @ name))
                | Some fs \<Rightarrow>
                    (case map_of fs name of
                       None \<Rightarrow> Inl (Failed (''field not found: '' @ name))
                     | Some v \<Rightarrow>
                         (case elements_of v of
                            None \<Rightarrow> Inl (Failed (''field is not an array: '' @ name))
                          | Some xs \<Rightarrow>
                              bind_res (array_index idx) (\<lambda>k.
                                if k < 0 \<or> int (length xs) \<le> k
                                then Inl (Failed (''array index out of bounds: '' @ itoa k))
                                else Inr (Val (xs ! nat k)))))
      else
        case fields_of current of
          None \<Rightarrow> Inl (Failed (''cannot access field on non-object: '' @ part))
        | Some fs \<Rightarrow>
            (case map_of fs part of
               None \<Rightarrow> Inl (Failed (''field not found: '' @ part))
             | Some v \<Rightarrow> Inr v))"

definition extract_value :: "go_value \<Rightarrow> string \<Rightarrow> (failure, go_value) result" where
  "extract_value data path = fold_res path_step data (split_path False [] path)"

definition call_expression :: "string \<Rightarrow> go_value \<Rightarrow> (failure, go_value) result" where
  "call_expression expr data =
     (let e = (if has_prefix expr ''${'' \<and> has_suffix expr ''}''
               then trim_space (take (length expr - 3) (drop 2 expr)) else expr)
      in if has_prefix e ''.'' then extract_value data (trim_prefix e ''.'')
         else Inl (Failed (''unsupported expression format: '' @ e)))"

subsection \<open>Output\<close>

text \<open>\<open>{"as": {name: expression}}\<close>: expressions that fail are left out, other values too.\<close>

fun transform_fields :: "gmap \<Rightarrow> go_value \<Rightarrow> (failure, gmap) result" where
  "transform_fields [] raw = Inr []"
| "transform_fields ((k, v) # m) raw =
     (case v of
        GStr e \<Rightarrow>
          (case call_expression e raw of
             Inl Panicked \<Rightarrow> Inl Panicked
           | Inl (Failed _) \<Rightarrow> transform_fields m raw
           | Inr w \<Rightarrow> bind_res (transform_fields m raw) (\<lambda>r. Inr ((k, json_of w) # r)))
      | _ \<Rightarrow> transform_fields m raw)"

definition transform_output :: "gval \<Rightarrow> go_value \<Rightarrow> string \<Rightarrow> (failure, gmap) result" where
  "transform_output config raw name =
     (case config of
        GMap m \<Rightarrow>
          (case get_map m ''as'' of
             Some names \<Rightarrow> transform_fields names raw
           | None \<Rightarrow> Inl (Failed ''unsupported output configuration type''))
      | GStr e \<Rightarrow>
          (case call_expression e raw of
             Inl Panicked \<Rightarrow> Inl Panicked
           | Inl (Failed msg) \<Rightarrow> Inl (Failed (''failed to evaluate expression '' @ e @ '': '' @ msg))
           | Inr v \<Rightarrow> Inr [(name, json_of v)])
      | _ \<Rightarrow> Inl (Failed ''unsupported output configuration type''))"

definition apply_output_transformation ::
  "task_request \<Rightarrow> (string \<times> go_value) list \<Rightarrow> (failure, gmap) result" where
  "apply_output_transformation r raw =
     (let plain = map (\<lambda>(k, v). (k, json_of v)) raw
      in case Option.bind (rq_input r) (\<lambda>m. map_of m ''output_config'') of
           None \<Rightarrow> Inr plain
         | Some config \<Rightarrow>
             (case transform_output config (Fields raw) (rq_name r) of
                Inl Panicked \<Rightarrow> Inl Panicked
              | Inl (Failed _) \<Rightarrow> Inr plain
              | Inr m \<Rightarrow> Inr m))"

subsection \<open>Parameters\<close>

definition evaluation_context :: "task_request \<Rightarrow> gmap" where
  "evaluation_context r =
     (let own = (case rq_input r of None \<Rightarrow> GMap [] | Some m \<Rightarrow> GMap m)
      in case rq_context r of
           None \<Rightarrow> [(''input'', own)]
         | Some c \<Rightarrow>
             [(''input'', case map_of c ''workflow_input'' of Some v \<Rightarrow> v | None \<Rightarrow> own)] @
             (case map_of c ''variables'' of Some v \<Rightarrow> [(''variables'', v)] | None \<Rightarrow> []) @
             (case map_of c ''task_outputs'' of Some v \<Rightarrow> [(''task_outputs'', v)] | None \<Rightarrow> []))"

fun evaluate_parameters :: "gmap \<Rightarrow> gmap \<Rightarrow> (failure, gmap) result" where
  "evaluate_parameters ctx [] = Inr []"
| "evaluate_parameters ctx ((k, v) # m) =
     bind_res
       (case v of
          GStr s \<Rightarrow>
            if has_prefix s ''${'' \<and> has_suffix s ''}''
            then (case call_expression s (Val (GMap ctx)) of
                    Inl Panicked \<Rightarrow> Inl Panicked | Inl (Failed _) \<Rightarrow> Inr v | Inr w \<Rightarrow> Inr (json_of w))
            else Inr v
        | _ \<Rightarrow> Inr v)
       (\<lambda>w. bind_res (evaluate_parameters ctx m) (\<lambda>r. Inr ((k, w) # r)))"

definition evaluate_parameter_expressions ::
  "call_config \<Rightarrow> task_request \<Rightarrow> (failure, call_config) result" where
  "evaluate_parameter_expressions c r =
     (case cf_params c of
        None \<Rightarrow> Inr c
      | Some m \<Rightarrow>
          bind_res (evaluate_parameters (evaluation_context r) m) (\<lambda>p. Inr (c\<lparr>cf_params := Some p\<rparr>)))"

subsection \<open>The input a result carries\<close>

definition opt_entry :: "string \<Rightarrow> gmap option \<Rightarrow> gmap" where
  "opt_entry k x = (case x of None \<Rightarrow> [] | Some m \<Rightarrow> [(k, GMap m)])"

definition body_entry :: "gval \<Rightarrow> gmap" where
  "body_entry v = (if v = GNil then [] else [(''body'', v)])"

definition build_resolved_input :: "task_request \<Rightarrow> call_config \<Rightarrow> gmap" where
  "build_resolved_input r c =
     merge_into (merge_into [] (case rq_input r of None \<Rightarrow> [] | Some m \<Rightarrow> m))
       ((''call_type'', GStr (cf_type c)) #
        (if cf_type c = ''openapi'' then
           [(''document'', GMap [(''endpoint'', GStr (case cf_document c of None \<Rightarrow> [] | Some d \<Rightarrow> d))]),
            (''operation_id'', GStr (cf_operation c))] @ opt_entry ''parameters'' (cf_params c)
         else if cf_type c = ''http'' then
           [(''method'', GStr (cf_method c)), (''url'', GStr (cf_url c))] @
           opt_entry ''parameters'' (cf_params c) @ opt_entry ''headers'' (cf_headers c) @
           body_entry (cf_body c)
         else []))"

definition build_resolved_input_for_http :: "task_request \<Rightarrow> call_config \<Rightarrow> gmap" where
  "build_resolved_input_for_http r c =
     merge_into (merge_into [] (case rq_input r of None \<Rightarrow> [] | Some m \<Rightarrow> m))
       ([(''call_type'', GStr ''http''), (''method'', GStr (cf_method c)), (''url'', GStr (cf_url c))] @
        opt_entry ''parameters'' (cf_params c) @ opt_entry ''headers'' (cf_headers c) @
        body_entry (cf_body c))"

subsection \<open>HTTP\<close>

record http_request =
  hq_method :: string
  hq_url :: string
  hq_headers :: "(string \<times> string) list"
  hq_query :: "(string \<times> string) list"
  hq_body :: "gval option"

record http_response =
  hs_status :: int
  hs_headers :: gval
  hs_body :: string
  hs_json :: json_text

text \<open>What the client answers: the request cannot be built, it fails, its body cannot be read,
  or there is a response; \<open>hs_json\<close> is what the text of the body decodes to.\<close>

datatype http_outcome =
  HRefused string | HFailed string | HUnread string | HAnswered http_response

record openapi_response =
  os_status :: int
  os_headers :: gval
  os_body :: string
  os_content :: gval
  os_request :: gval

record call_env =
  ce_http :: "http_request \<Rightarrow> http_outcome"
  ce_openapi :: "call_config \<Rightarrow> openapi_response option \<times> string option"
  ce_fmt :: "gval \<Rightarrow> string"
  ce_clock :: clock

text \<open>The canonical form of a header name: a capital at the start and after each hyphen, if
  all its characters are allowed in a name.\<close>

definition upper_char :: "char \<Rightarrow> char" where
  "upper_char c = (let n = of_char c :: nat in if 97 \<le> n \<and> n \<le> 122 then char_of (n - 32) else c)"

definition is_token_char :: "char \<Rightarrow> bool" where
  "is_token_char c \<longleftrightarrow>
     is_digit c \<or> lower_char c \<noteq> c \<or> upper_char c \<noteq> c \<or>
     c \<in> set ''!#$%&*+-.^_|~'' \<or> of_char c \<in> {39, 96 :: nat}"

fun canonical_chars :: "bool \<Rightarrow> string \<Rightarrow> string" where
  "canonical_chars up [] = []"
| "canonical_chars up (c # cs) =
     (if up then upper_char c else lower_char c) # canonical_chars (c = CHR ''-'') cs"

definition canonical_header :: "string \<Rightarrow> string" where
  "canonical_header s = (if s \<noteq> [] \<and> list_all is_token_char s then canonical_chars True s else s)"

fun set_headers :: "(string \<times> string) list \<Rightarrow> gmap \<Rightarrow> (string \<times> string) list" where
  "set_headers hs [] = hs"
| "set_headers hs ((k, v) # m) =
     set_headers (case v of GStr s \<Rightarrow> put (canonical_header k) s hs | _ \<Rightarrow> hs) m"

definition build_http_request :: "(gval \<Rightarrow> string) \<Rightarrow> call_config \<Rightarrow> gval option \<Rightarrow> http_request" where
  "build_http_request fmt c body =
     \<lparr>hq_method = cf_method c, hq_url = cf_url c,
      hq_headers = set_headers [(''Content-Type'', ''application/json''), (''User-Agent'', ''flunq-executor/1.0'')]
        (case cf_headers c of None \<Rightarrow> [] | Some m \<Rightarrow> m),
      hq_query = map (\<lambda>(k, v). (k, case v of GStr s \<Rightarrow> s | _ \<Rightarrow> fmt v))
        (case cf_query c of None \<Rightarrow> [] | Some m \<Rightarrow> m),
      hq_body = body\<rparr>"

text \<open>The body: the configured one, else the input of the task unless that is empty.\<close>

definition request_body :: "task_request \<Rightarrow> call_config \<Rightarrow> (string, gval option) result" where
  "request_body r c =
     (let marshal = (\<lambda>v. case to_wire v of
                           None \<Rightarrow> Inl ''failed to marshal request body'' | Some w \<Rightarrow> Inr (Some w))
      in if cf_body c \<noteq> GNil then marshal (cf_body c)
         else case rq_input r of
                None \<Rightarrow> Inr None
              | Some m \<Rightarrow> if m = [] then Inr None else marshal (GMap m))"

definition response_data :: "http_response \<Rightarrow> gval" where
  "response_data s =
     (if hs_body s = [] then GNil
      else case hs_json s of
             JValue (GMap m) \<Rightarrow> GMap m
           | JValue GNil \<Rightarrow> GNil
           | _ \<Rightarrow> GMap [(''raw_response'', GStr (hs_body s))])"

definition is_success :: "int \<Rightarrow> bool" where
  "is_success code \<longleftrightarrow> 200 \<le> code \<and> code < 300"

definition execute_http_call :: "call_env \<Rightarrow> task_request \<Rightarrow> call_config \<Rightarrow> task_result" where
  "execute_http_call env r c =
     (let ck = ce_clock env
      in case request_body r c of
           Inl e \<Rightarrow> error_result ck r e
         | Inr body \<Rightarrow>
             (case ce_http env (build_http_request (ce_fmt env) c body) of
                HRefused e \<Rightarrow> error_result ck r (''failed to create request: '' @ e)
              | HFailed e \<Rightarrow> error_result ck r (''HTTP request failed: '' @ e)
              | HUnread e \<Rightarrow> error_result ck r (''failed to read response: '' @ e)
              | HAnswered s \<Rightarrow>
                  result_of ck r (is_success (hs_status s)) (Some (build_resolved_input_for_http r c))
                    [(''status_code'', GInt (hs_status s)), (''headers'', hs_headers s),
                     (''data'', response_data s)] []))"

text \<open>A byte slice is written as base64.\<close>

definition base64_char :: "nat \<Rightarrow> char" where
  "base64_char n =
     (if n < 26 then char_of (65 + n) else if n < 52 then char_of (97 + (n - 26))
      else if n < 62 then char_of (48 + (n - 52)) else if n = 62 then CHR ''+'' else CHR ''/'')"

fun base64 :: "string \<Rightarrow> string" where
  "base64 [] = []"
| "base64 [a] =
     (let n = of_char a * 65536 :: nat
      in [base64_char (n div 262144), base64_char (n div 4096 mod 64), CHR ''='', CHR ''=''])"
| "base64 [a, b] =
     (let n = of_char a * 65536 + of_char b * 256 :: nat
      in [base64_char (n div 262144), base64_char (n div 4096 mod 64), base64_char (n div 64 mod 64), CHR ''=''])"
| "base64 (a # b # c # s) =
     (let n = of_char a * 65536 + of_char b * 256 + of_char c :: nat
      in [base64_char (n div 262144), base64_char (n div 4096 mod 64), base64_char (n div 64 mod 64),
          base64_char (n mod 64)] @ base64 s)"

definition raw_output :: "string \<Rightarrow> openapi_response \<Rightarrow> (string \<times> go_value) list" where
  "raw_output format s =
     (if format = ''raw'' then
        [(''status_code'', Val (GInt (os_status s))), (''headers'', Opaque (os_headers s)),
         (''body'', Opaque (GStr (base64 (os_body s)))), (''request'', Opaque (os_request s))]
      else if format = ''response'' then
        [(''status_code'', Val (GInt (os_status s))), (''headers'', Opaque (os_headers s)),
         (''body'', Val (GStr (os_body s))), (''request'', Opaque (os_request s))]
      else if format = ''content'' \<or> format = [] then
        [(''status_code'', Val (GInt (os_status s))), (''headers'', Opaque (os_headers s)),
         (''content'', Val (os_content s)), (''request'', Opaque (os_request s))]
      else [])"

text \<open>The result that comes with an error is read by no caller; the error is what is kept.\<close>

definition execute_openapi_call ::
  "call_env \<Rightarrow> task_request \<Rightarrow> call_config \<Rightarrow> (failure, task_result) result" where
  "execute_openapi_call env r c =
     bind_res (evaluate_parameter_expressions c r) (\<lambda>c'.
       (case ce_openapi env c' of
          (None, Some e) \<Rightarrow> Inr (error_result (ce_clock env) r (''OpenAPI operation failed: '' @ e))
        | (None, None) \<Rightarrow> Inl Panicked
        | (Some s, err) \<Rightarrow>
            bind_res (apply_output_transformation r (raw_output (cf_output c) s)) (\<lambda>out.
              (case err of
                 Some e \<Rightarrow> Inl (Failed e)
               | None \<Rightarrow>
                   Inr (result_of (ce_clock env) r (is_success (os_status s))
                     (Some (build_resolved_input r c')) out [])))))"

definition call_execute :: "call_env \<Rightarrow> task_request \<Rightarrow> (failure, task_result) result" where
  "call_execute env r =
     (case Option.bind (rq_config r) tk_params of
        None \<Rightarrow> Inr (error_result (ce_clock env) r ''missing call configuration'')
      | Some params \<Rightarrow>
          (case parse_call_config params of
             Inl e \<Rightarrow> Inr (error_result (ce_clock env) r (''invalid call configuration: '' @ e))
           | Inr c \<Rightarrow>
               (case validate_call c of
                  Some e \<Rightarrow> Inr (error_result (ce_clock env) r (''call configuration validation failed: '' @ e))
                | None \<Rightarrow>
                    if is_openapi_call c then execute_openapi_call env r c
                    else Inr (execute_http_call env r c))))"

end
