(* ===== verification/Call_Laws.thy ===== *)
theory Call_Laws
  imports Call_Executor JQ_Eval
begin

text \<open>
  Correctness of the call executor: paths in expressions are nested lookup (and agree with
  the evaluator of the worker), which outcomes of a call are errors and which are failed
  results, and the expression that crashes the service.
\<close>

subsection \<open>Paths\<close>

definition simple_part :: "string \<Rightarrow> bool" where
  "simple_part p \<longleftrightarrow> p \<noteq> [] \<and> CHR ''.'' \<notin> set p \<and> CHR ''['' \<notin> set p \<and> CHR '']'' \<notin> set p"

lemma split_path_chars:
  "CHR ''.'' \<notin> set w \<Longrightarrow> CHR ''['' \<notin> set w \<Longrightarrow> CHR '']'' \<notin> set w \<Longrightarrow>
   split_path False cur (w @ rest) = split_path False (cur @ w) rest"
  by (induction w arbitrary: cur) auto

lemma split_path_join:
  "ks \<noteq> [] \<Longrightarrow> \<forall>k \<in> set ks. simple_part k \<Longrightarrow> split_path False [] (join_with (CHR ''.'') ks) = ks"
proof (induction "CHR ''.''" ks rule: join_with.induct)
  case 1
  then show ?case by simp
next
  case (2 w)
  then show ?case using split_path_chars [of w "[]" "[]"] by (auto simp: simple_part_def)
next
  case (3 w v ws)
  then show ?case
    using split_path_chars [of w "[]" "CHR ''.'' # join_with (CHR ''.'') (v # ws)"]
    by (auto simp: simple_part_def)
qed

lemma path_step_simple:
  assumes "simple_part k"
  shows "path_step (Val v) k =
    (case v of
       GMap m \<Rightarrow> (case map_of m k of
                   None \<Rightarrow> Inl (Failed (''field not found: '' @ k)) | Some w \<Rightarrow> Inr (Val w))
     | _ \<Rightarrow> Inl (Failed (''cannot access field on non-object: '' @ k)))"
proof -
  have "\<not> contains k ''[''" using assms by (simp add: simple_part_def contains_char)
  moreover have "map_of (map (\<lambda>(k, v). (k, Val v)) m) k = map_option Val (map_of m k)" for m
    by (induction m) auto
  ultimately show ?thesis by (auto simp: path_step_def split: gval.splits option.splits)
qed

lemma fold_path_lookup:
  "ks \<noteq> [] \<Longrightarrow> \<forall>k \<in> set ks. simple_part k \<Longrightarrow>
   (case fold_res path_step (Val (GMap m)) ks of Inr w \<Rightarrow> Some (json_of w) | Inl _ \<Rightarrow> None) = lookup_path m ks"
proof (induction m ks rule: lookup_path.induct)
  case (1 m)
  then show ?case by simp
next
  case (2 m k)
  then show ?case by (auto simp: path_step_simple split: option.splits)
next
  case (3 m k k' ks)
  show ?case
  proof (cases "map_of m k")
    case None
    with 3 show ?thesis by (auto simp: path_step_simple)
  next
    case (Some v)
    with 3 show ?thesis
      by (cases v) (auto simp: path_step_simple split: option.splits)
  qed
qed

lemma plain_expression:
  assumes "ks \<noteq> []" and "\<forall>k \<in> set ks. simple_part k"
  shows "call_expression (CHR ''.'' # join_with (CHR ''.'') ks) data =
    fold_res path_step data ks"
  using assms split_path_join [OF assms]
  by (simp add: call_expression_def Let_def has_prefix_def trim_prefix_def extract_value_def)

lemma worker_expression:
  assumes "ks \<noteq> []" and "\<forall>k \<in> set ks. simple_part k"
  shows "(case evaluate_builtin now (CHR ''.'' # join_with (CHR ''.'') ks) m of
            Inr v \<Rightarrow> Some v | Inl _ \<Rightarrow> None) = lookup_path m ks"
proof -
  have "\<forall>k \<in> set ks. plain_part k"
    using assms(2) by (auto simp: plain_part_def simple_part_def contains_char)
  with assms(1) have l: "(case extract_from_path m (join_with (CHR ''.'') ks) of
      Inr v \<Rightarrow> Some v | Inl _ \<Rightarrow> None) = lookup_path m ks" by (rule extract_from_path_lookup)
  have "evaluate_builtin now (CHR ''.'' # join_with (CHR ''.'') ks) m =
      extract_from_path m (join_with (CHR ''.'') ks)"
    by (simp add: evaluate_builtin_def has_prefix_def trim_prefix_def)
  with l show ?thesis by simp
qed

text \<open>C24: The path expressions of the executor are nested lookup, and the executor and the worker
  read them alike. For a path of plain field names, both evaluators return the value that
  following the fields leads to, and both fail when a field is missing or a value on the way
  is not an object.
\<close>
theorem evaluators_agree:
  assumes "ks \<noteq> []" and "\<forall>k \<in> set ks. simple_part k"
  shows "(case call_expression (CHR ''.'' # join_with (CHR ''.'') ks) (Val (GMap m)) of
            Inr v \<Rightarrow> Some (json_of v) | Inl _ \<Rightarrow> None) = lookup_path m ks \<and>
    (case evaluate_builtin now (CHR ''.'' # join_with (CHR ''.'') ks) m of
            Inr v \<Rightarrow> Some v | Inl _ \<Rightarrow> None) = lookup_path m ks"
  using worker_expression [OF assms] fold_path_lookup [OF assms]
  by (simp add: plain_expression [OF assms])

theorem evaluators_agree_witness:
  "(case call_expression ''.input.name'' (Val (GMap [(''input'', GMap [(''name'', GStr ''x'')])])) of
      Inr v \<Rightarrow> Some (json_of v) | Inl _ \<Rightarrow> None) = Some (GStr ''x'')"
  using evaluators_agree [of "[''input'', ''name'']" "[(''input'', GMap [(''name'', GStr ''x'')])]" "[]"]
  by (simp add: simple_part_def)

text \<open>Selecting an element: a name, then an index in brackets.\<close>

definition indexed :: "string \<Rightarrow> nat \<Rightarrow> string" where
  "indexed name i = name @ CHR ''['' # nat_digits i @ '']''"

lemma path_step_indexed:
  assumes "simple_part name" and "int i < 2 ^ 63" and "i < length xs"
    and "map_of m name = Some (GList xs)"
  shows "path_step (Val (GMap m)) (indexed name i) = Inr (Val (xs ! i))"
proof -
  have b: "CHR '']'' \<notin> set (nat_digits i)"
    using nat_digits_are_digits [of i] by (auto simp: is_digit_def)
  have open': "index_of (indexed name i) (CHR ''['') = int (length name)"
    using assms(1) by (simp add: indexed_def index_of_append simple_part_def)
  have "CHR '']'' \<notin> set (name @ CHR ''['' # nat_digits i)"
    using assms(1) b by (simp add: simple_part_def)
  then have close': "index_of (indexed name i) (CHR '']'') = int (length name + 1 + length (nat_digits i))"
    using index_of_append [of "CHR '']''" "name @ CHR ''['' # nat_digits i" "[]"]
    by (simp add: indexed_def)
  have br: "contains (indexed name i) ''[''" "contains (indexed name i) '']''"
    by (simp_all add: indexed_def contains_char)
  have "map_of (map (\<lambda>(k, v). (k, Val v)) m) name = Some (Val (GList xs))"
    using assms(4) by (induction m) auto
  then show ?thesis
    using assms(2,3)
    by (simp add: path_step_def Let_def br open' close' nat_add_distrib)
      (simp add: indexed_def array_index_def atoi_nat_digits nat_add_distrib)
qed

subsection \<open>How a call ends\<close>

lemma openapi_error:
  assumes "execute_openapi_call env r c = Inl (Failed e)"
  shows "\<exists>c' s. ce_openapi env c' = (Some s, Some e)"
proof -
  have no_err: "evaluate_parameters ctx m \<noteq> Inl (Failed x)" for ctx m x
  proof (induction m)
    case Nil
    show ?case by simp
  next
    case (Cons p m)
    then show ?case
      by (cases p) (auto simp: bind_res_eq_Inl split: gval.splits if_splits sum.splits failure.splits)
  qed
  have no_err': "apply_output_transformation r raw \<noteq> Inl (Failed x)" for raw x
    by (auto simp: apply_output_transformation_def Let_def split: option.splits sum.splits failure.splits)
  from assms obtain c' where "(case ce_openapi env c' of
          (None, Some e) \<Rightarrow> Inr (error_result (ce_clock env) r (''OpenAPI operation failed: '' @ e))
        | (None, None) \<Rightarrow> Inl Panicked
        | (Some s, err) \<Rightarrow>
            bind_res (apply_output_transformation r (raw_output (cf_output c) s)) (\<lambda>out.
              (case err of
                 Some e \<Rightarrow> Inl (Failed e)
               | None \<Rightarrow>
                   Inr (result_of (ce_clock env) r (is_success (os_status s))
                     (Some (build_resolved_input r c')) out [])))) = Inl (Failed e)"
    by (auto simp: execute_openapi_call_def bind_res_eq_Inl evaluate_parameter_expressions_def no_err
        split: option.splits)
  then show ?thesis
    by (auto simp: bind_res_eq_Inl no_err' split: prod.splits option.splits)
qed

text \<open>A call reports an error only for an OpenAPI operation that was answered with a bad
  status. Whatever else goes wrong, a missing or invalid configuration, a refused connection,
  any failure of a direct HTTP call, the executor returns a result with its success flag down
  and no error, which the retry logic of a try task does not look at.
\<close>
theorem call_errors:
  assumes "call_execute env r = Inl (Failed e)"
  shows "\<exists>params c. Option.bind (rq_config r) tk_params = Some params \<and>
    parse_call_config params = Inr c \<and> is_openapi_call c \<and>
    (\<exists>c' s. ce_openapi env c' = (Some s, Some e))"
proof -
  from assms obtain params c where "Option.bind (rq_config r) tk_params = Some params"
      "parse_call_config params = Inr c" "is_openapi_call c" "execute_openapi_call env r c = Inl (Failed e)"
    by (auto simp: call_execute_def split: option.splits sum.splits if_splits)
  with openapi_error show ?thesis by blast
qed

definition demo_request :: "gmap \<Rightarrow> gmap \<Rightarrow> task_request" where
  "demo_request input params =
     \<lparr>rq_task = ''task-fetch-1'', rq_name = ''fetch'', rq_type = ''call'', rq_workflow = ''wf'',
      rq_execution = ''ex'', rq_input = Some input,
      rq_config = Some \<lparr>tk_timeout = 300000000000, tk_retries = 3, tk_queue = [], tk_params = Some params\<rparr>,
      rq_context = None\<rparr>"

definition demo_openapi :: gmap where
  "demo_openapi =
     [(''call_type'', GStr ''openapi''), (''document'', GMap [(''endpoint'', GStr ''http://api/spec'')]),
      (''operation_id'', GStr ''getPet'')]"

definition demo_call :: call_config where
  "demo_call =
     \<lparr>cf_url = [], cf_method = [], cf_headers = None, cf_body = GNil, cf_query = None,
      cf_type = ''openapi'', cf_document = Some ''http://api/spec'', cf_operation = ''getPet'',
      cf_params = None, cf_auth = None, cf_output = ''content'', cf_redirect = False\<rparr>"

definition demo_clock :: clock where
  "demo_clock = \<lparr>ck_start = 0, ck_mid = 1, ck_end = 2, ck_done = 3\<rparr>"

definition demo_response :: "int \<Rightarrow> openapi_response" where
  "demo_response n =
     \<lparr>os_status = n, os_headers = GMap [], os_body = [], os_content = GMap [(''name'', GStr ''cat'')],
      os_request = GMap []\<rparr>"

definition demo_call_env :: "int \<Rightarrow> call_env" where
  "demo_call_env n =
     \<lparr>ce_http = (\<lambda>_. HFailed ''refused''),
      ce_openapi = (\<lambda>_. (Some (demo_response n), if is_success n then None else Some (http_status_error n))),
      ce_fmt = (\<lambda>_. []), ce_clock = demo_clock\<rparr>"

lemma demo_openapi_parsed: "parse_call_config demo_openapi = Inr demo_call"
  by (simp add: demo_openapi_def demo_call_def parse_call_config_def decode_call_config_def
      json_defs get_any_def Let_def)

lemma demo_params: "Option.bind (rq_config (demo_request i m)) tk_params = Some m"
  by (simp add: demo_request_def)

lemma demo_call_valid: "validate_call demo_call = None" "is_openapi_call demo_call"
  by (simp_all add: demo_call_def validate_call_def is_openapi_call_def)

lemma demo_call_fails:
  "call_execute (demo_call_env 503) (demo_request [] demo_openapi) = Inl (Failed (http_status_error 503))"
proof -
  have "evaluate_parameter_expressions demo_call r = Inr demo_call" for r
    by (simp add: evaluate_parameter_expressions_def demo_call_def)
  moreover have "rq_input (demo_request [] demo_openapi) = Some []" by (simp add: demo_request_def)
  ultimately show ?thesis
    unfolding call_execute_def demo_params
    by (simp add: demo_openapi_parsed demo_call_valid execute_openapi_call_def demo_call_env_def
        is_success_def apply_output_transformation_def Let_def)
qed

theorem call_errors_witness:
  "\<exists>params c. Option.bind (rq_config (demo_request [] demo_openapi)) tk_params = Some params \<and>
    parse_call_config params = Inr c \<and> is_openapi_call c \<and>
    (\<exists>c' s. ce_openapi (demo_call_env 503) c' = (Some s, Some (http_status_error 503)))"
  using call_errors [OF demo_call_fails] .

text \<open>Every result carries the identity of its request.\<close>

lemma execute_http_call_same: "same_task r (execute_http_call env r c)"
  by (simp add: execute_http_call_def Let_def split: sum.split http_outcome.split)

lemma execute_openapi_call_same:
  assumes "execute_openapi_call env r c = Inr t"
  shows "same_task r t"
proof -
  from assms obtain c' where c': "evaluate_parameter_expressions c r = Inr c'"
    by (auto simp: execute_openapi_call_def bind_res_eq_Inr)
  obtain x y where "ce_openapi env c' = (x, y)" by force
  with assms c' show ?thesis
    by (cases x; cases y) (auto simp: execute_openapi_call_def bind_res_eq_Inr)
qed

lemma call_execute_same: "call_execute env r = Inr t \<Longrightarrow> same_task r t"
  by (auto simp: call_execute_def execute_http_call_same
      split: option.splits sum.splits if_splits dest: execute_openapi_call_same)

text \<open>A direct HTTP call never fails as a Go error. For every answer of the client it returns
  a result, and the result is a success exactly when the request was answered, read, and the
  status lies between 200 and 299; a connection error or a 503 is a result like any other.
\<close>
theorem http_call_result:
  assumes "Option.bind (rq_config r) tk_params = Some params" and "parse_call_config params = Inr c"
    and "validate_call c = None" and "\<not> is_openapi_call c" and "request_body r c = Inr body"
  shows "\<exists>t. call_execute env r = Inr t \<and> same_task r t \<and>
    (tr_success t \<longleftrightarrow>
      (\<exists>s. ce_http env (build_http_request (ce_fmt env) c body) = HAnswered s \<and> is_success (hs_status s)))"
proof -
  have "call_execute env r = Inr (execute_http_call env r c)"
    using assms by (simp add: call_execute_def)
  moreover have "same_task r (execute_http_call env r c)" by (rule execute_http_call_same)
  moreover have "tr_success (execute_http_call env r c) \<longleftrightarrow>
      (\<exists>s. ce_http env (build_http_request (ce_fmt env) c body) = HAnswered s \<and> is_success (hs_status s))"
    using assms(5) by (simp add: execute_http_call_def Let_def split: http_outcome.split)
  ultimately show ?thesis by blast
qed

definition demo_http :: gmap where
  "demo_http = [(''call_type'', GStr ''http''), (''url'', GStr ''http://api/charge'')]"

definition demo_http_config :: call_config where
  "demo_http_config =
     \<lparr>cf_url = ''http://api/charge'', cf_method = ''GET'', cf_headers = None, cf_body = GNil,
      cf_query = None, cf_type = ''http'', cf_document = None, cf_operation = [], cf_params = None,
      cf_auth = None, cf_output = ''content'', cf_redirect = False\<rparr>"

lemma demo_http_parsed: "parse_call_config demo_http = Inr demo_http_config"
  by (simp add: demo_http_def demo_http_config_def parse_call_config_def decode_call_config_def
      json_defs get_any_def Let_def)

lemma demo_http_valid: "validate_call demo_http_config = None" "\<not> is_openapi_call demo_http_config"
  "request_body (demo_request [] demo_http) demo_http_config = Inr None"
  by (simp_all add: demo_http_config_def validate_call_def is_openapi_call_def request_body_def
      demo_request_def)

theorem http_call_result_witness:
  "\<exists>t. call_execute (demo_call_env 200) (demo_request [] demo_http) = Inr t \<and> \<not> tr_success t"
proof -
  have "ce_http (demo_call_env 200) q \<noteq> HAnswered s" for q s by (simp add: demo_call_env_def)
  then show ?thesis
    using http_call_result [OF demo_params demo_http_parsed demo_http_valid(1,2,3), of "demo_call_env 200"]
    by auto
qed

subsection \<open>The expression that panics\<close>

lemma bracket_panic:
  assumes "CHR ''.'' \<notin> set a" and "CHR ''['' \<notin> set a" and "CHR '']'' \<notin> set a"
  shows "call_expression (CHR ''.'' # a @ '']['') data = Inl Panicked"
proof -
  have "split_path False [] (a @ '']['') = [a @ '']['']"
    using assms by (simp add: split_path_chars)
  moreover have "index_of (a @ '']['') (CHR ''['') = int (length a) + 1"
    using assms index_of_append [of "CHR ''[''" "a @ '']''" "[]"] by simp
  moreover have "index_of (a @ '']['') (CHR '']'') = int (length a)"
    using assms index_of_append [of "CHR '']''" a "''[''"] by simp
  moreover have "contains (a @ '']['') ''[''" "contains (a @ '']['') '']''"
    by (simp_all add: contains_char)
  ultimately show ?thesis
    by (simp add: call_expression_def Let_def has_prefix_def trim_prefix_def extract_value_def
        path_step_def)
qed

text \<open>An output expression with its brackets in the wrong order panics. When the task is configured with the output \<open>.a][\<close>, for any name \<open>a\<close>, and the operation has been
  answered at all, the slice between the brackets has its bounds reversed and the call
  panics, whatever the answer was.\<close>

lemma reversed_brackets_panic:
  assumes "parse_call_config params = Inr c" and "validate_call c = None" and "is_openapi_call c"
    and "cf_params c = None" and "ce_openapi env c = (Some s, err)"
    and "map_of input ''output_config'' = Some (GStr (CHR ''.'' # a @ '']['' ))"
    and "CHR ''.'' \<notin> set a" and "CHR ''['' \<notin> set a" and "CHR '']'' \<notin> set a"
    and "rq_input r = Some input" and "Option.bind (rq_config r) tk_params = Some params"
  shows "call_execute env r = Inl Panicked"
proof -
  have "apply_output_transformation r raw = Inl Panicked" for raw
    using assms(6,10) bracket_panic [OF assms(7-9)]
    by (simp add: apply_output_transformation_def transform_output_def)
  with assms show ?thesis
    by (simp add: call_execute_def execute_openapi_call_def evaluate_parameter_expressions_def)
qed

lemma demo_panic:
  "call_execute (demo_call_env 200) (demo_request [(''output_config'', GStr ''.content]['')] demo_openapi) =
   Inl Panicked"
  by (rule reversed_brackets_panic [OF demo_openapi_parsed demo_call_valid, where a = "''content''"
        and s = "demo_response 200" and err = None
        and input = "[(''output_config'', GStr ''.content]['')]"])
    (simp_all add: demo_params demo_call_def demo_call_env_def is_success_def, simp_all add: demo_request_def)

end
