(* ===== verification/Task_Executors.thy ===== *)
theory Task_Executors
  imports Call_Laws
begin

text \<open>
  The executors of set, inject and wait tasks (\<^verbatim>\<open>set_task_executor.go\<close>,
  \<^verbatim>\<open>inject_task_executor.go\<close>, \<^verbatim>\<open>wait_task_executor.go\<close>) and the reading of a request from an
  event (\<^verbatim>\<open>interfaces.go\<close>). The locale \<open>task_executor\<close> is the contract of the Go interface
  \<^verbatim>\<open>TaskExecutor\<close>: a result belongs to the task that was requested.
\<close>

subsection \<open>Requests\<close>

definition string_from_data :: "gmap \<Rightarrow> string \<Rightarrow> string" where
  "string_from_data m k = (case get_str m k of Some s \<Rightarrow> s | None \<Rightarrow> [])"

definition parse_task_config :: "gmap \<Rightarrow> task_config" where
  "parse_task_config m =
     \<lparr>tk_timeout = (case get_float m ''timeout'' of
          Some r \<Rightarrow> wrap64 (int64_of_f64 r * 1000000000) | None \<Rightarrow> 0),
      tk_retries = (case get_float m ''retries'' of Some r \<Rightarrow> int64_of_f64 r | None \<Rightarrow> 0),
      tk_queue = string_from_data m ''queue'',
      tk_params = get_map m ''parameters''\<rparr>"

definition parse_task_request :: "cloud_event \<Rightarrow> (string, task_request) result" where
  "parse_task_request e =
     (case ev_data e of
        GMap d \<Rightarrow> Inr
          \<lparr>rq_task = string_from_data d ''task_id'', rq_name = string_from_data d ''task_name'',
           rq_type = string_from_data d ''task_type'',
           rq_workflow = (if ev_workflow e = [] then string_from_data d ''workflow_id'' else ev_workflow e),
           rq_execution = (if ev_execution e = [] then string_from_data d ''execution_id'' else ev_execution e),
           rq_input = get_map d ''input'',
           rq_config = map_option parse_task_config (get_map d ''config''),
           rq_context = get_map d ''context''\<rparr>
      | _ \<Rightarrow> Inl ''invalid event data format'')"

subsection \<open>Executors\<close>

definition config_params :: "task_request \<Rightarrow> gmap" where
  "config_params r = (case Option.bind (rq_config r) tk_params of None \<Rightarrow> [] | Some m \<Rightarrow> m)"

definition input_entries :: "task_request \<Rightarrow> gmap" where
  "input_entries r = (case rq_input r of None \<Rightarrow> [] | Some m \<Rightarrow> m)"

text \<open>The parameters, overridden by the input.\<close>

definition merged_output :: "task_request \<Rightarrow> gmap" where
  "merged_output r = merge_into (merge_into [] (config_params r)) (input_entries r)"

definition set_execute :: "clock \<Rightarrow> task_request \<Rightarrow> (failure, task_result) result" where
  "set_execute ck r = Inr (result_of ck r True (rq_input r) (merged_output r) [])"

definition inject_execute :: "clock \<Rightarrow> task_request \<Rightarrow> (failure, task_result) result" where
  "inject_execute ck r =
     Inr (result_of ck r True (rq_input r)
       (put ''_task_id'' (GStr (rq_task r))
         (put ''_injected_by'' (GStr ''task-service'')
           (put ''_injected_at'' (GStr (format_rfc3339 (ck_mid ck))) (merged_output r)))) [])"

definition requested_wait :: "task_request \<Rightarrow> int" where
  "requested_wait r =
     (case Option.bind (rq_config r) tk_params of
        None \<Rightarrow> 1000000000
      | Some m \<Rightarrow>
          (case get_str m ''duration'' of
             Some s \<Rightarrow> (case parse_duration s of Some d \<Rightarrow> d | None \<Rightarrow> 1000000000)
           | None \<Rightarrow>
               (case get_float m ''seconds'' of
                  Some x \<Rightarrow> wrap64 (int64_of_f64 x * 1000000000) | None \<Rightarrow> 1000000000)))"

text \<open>\<open>cancelled\<close> tells whether the context was cancelled before the time was up.\<close>

definition wait_execute :: "bool \<Rightarrow> clock \<Rightarrow> task_request \<Rightarrow> (failure, task_result) result" where
  "wait_execute cancelled ck r =
     Inr (if cancelled then error_result ck r ''wait cancelled due to context cancellation''
          else result_of ck r True (rq_input r)
            [(''waited_duration'', GStr (duration_string (requested_wait r))),
             (''actual_duration'', GStr (duration_string (ck_end ck - ck_start ck))),
             (''completed_at'', GStr (format_rfc3339 (ck_mid ck)))] [])"

text \<open>The executors a try task can reach, by the type of the task.\<close>

record exec_env =
  xe_call :: call_env
  xe_cancelled :: bool
  xe_clock :: clock

definition basic_executor :: "exec_env \<Rightarrow> string \<Rightarrow> (task_request \<Rightarrow> (failure, task_result) result) option" where
  "basic_executor env ty =
     (if ty = ''call'' then Some (call_execute (xe_call env))
      else if ty = ''set'' then Some (set_execute (xe_clock env))
      else if ty = ''wait'' then Some (wait_execute (xe_cancelled env) (xe_clock env))
      else if ty = ''inject'' then Some (inject_execute (xe_clock env))
      else None)"

subsection \<open>The contract\<close>

locale task_executor =
  fixes execute :: "task_request \<Rightarrow> (failure, task_result) result"
  assumes identity: "execute r = Inr t \<Longrightarrow> same_task r t"
begin

lemma ids: "execute r = Inr t \<Longrightarrow> tr_task t = rq_task r \<and> tr_name t = rq_name r \<and>
    tr_workflow t = rq_workflow r \<and> tr_execution t = rq_execution r"
  using identity [of r t] by (simp add: same_task_def)

end

interpretation set_exec: task_executor "set_execute ck" for ck
  by unfold_locales (auto simp: set_execute_def)

interpretation inject_exec: task_executor "inject_execute ck" for ck
  by unfold_locales (auto simp: inject_execute_def)

interpretation wait_exec: task_executor "wait_execute cancelled ck" for cancelled ck
  by unfold_locales (auto simp: wait_execute_def)

interpretation call_exec: task_executor "call_execute env" for env
  by unfold_locales (rule call_execute_same)

lemma basic_executor_same:
  "basic_executor env ty = Some f \<Longrightarrow> f r = Inr t \<Longrightarrow> same_task r t"
  by (auto simp: basic_executor_def split: if_splits
      intro: call_exec.identity set_exec.identity wait_exec.identity inject_exec.identity)

subsection \<open>What set, inject and wait produce\<close>

lemma merged_output_lookup:
  assumes "distinct (map fst (config_params r))" and "distinct (map fst (input_entries r))"
  shows "map_of (merged_output r) k =
    (case map_of (input_entries r) k of Some v \<Rightarrow> Some v | None \<Rightarrow> map_of (config_params r) k)"
  using assms
  by (simp add: merged_output_def map_of_merge_into distinct_merge_into split: option.splits)

text \<open>A set task returns its parameters, overridden by the input of the task where both have a
  key, and nothing else; an inject task returns the same with three entries of its own on top.
  Neither ever fails.
\<close>
theorem set_and_inject_output:
  assumes "distinct (map fst (config_params r))" and "distinct (map fst (input_entries r))"
  shows "\<exists>s i so io. set_execute ck r = Inr s \<and> tr_output s = Some so \<and> tr_success s \<and>
    inject_execute ck r = Inr i \<and> tr_output i = Some io \<and> tr_success i \<and>
    (\<forall>k. map_of so k =
      (case map_of (input_entries r) k of Some v \<Rightarrow> Some v | None \<Rightarrow> map_of (config_params r) k)) \<and>
    (\<forall>k. k \<notin> {''_injected_at'', ''_injected_by'', ''_task_id''} \<longrightarrow> map_of io k = map_of so k) \<and>
    map_of io ''_task_id'' = Some (GStr (rq_task r))"
  by (simp add: set_execute_def inject_execute_def map_of_put merged_output_lookup [OF assms])

theorem set_and_inject_output_witness:
  "\<exists>s so. set_execute demo_clock (demo_request [(''a'', GInt 1)] [(''a'', GInt 2), (''b'', GInt 3)]) = Inr s \<and>
     tr_output s = Some so \<and> map_of so ''a'' = Some (GInt 1) \<and> map_of so ''b'' = Some (GInt 3)"
  using set_and_inject_output
    [of "demo_request [(''a'', GInt 1)] [(''a'', GInt 2), (''b'', GInt 3)]" demo_clock]
  by (auto simp: config_params_def input_entries_def demo_request_def)

end
