(* ===== verification/Try_Executor.thy ===== *)
theory Try_Executor
  imports Task_Executors Error_Laws Engine_Events
begin

text \<open>
  The executor of try tasks (\<^verbatim>\<open>executor/internal/executor/try_task_executor.go\<close>): the attempts
  at the call of the try block, and what each decision of the error handler leads to, another
  attempt, a timer for a later one, recovery tasks, or a result that carries the error.

  Attempts are numbered from 1. The environment of attempt \<open>n\<close> is an argument, since the
  answers of the outside differ from one attempt to the next: \<open>ye_exec n\<close> for the executors,
  \<open>ye_elapsed n\<close> for the time since the start, \<open>ye_rand n\<close> for the random source. The count
  of attempts is not near the end of its 64 bits.
\<close>

record try_env =
  ye_exec :: "nat \<Rightarrow> exec_env"
  ye_recovery :: exec_env
  ye_elapsed :: "nat \<Rightarrow> int"
  ye_rand :: "nat \<Rightarrow> int \<Rightarrow> int"
  ye_rx :: regexp
  ye_clock :: clock
  ye_pub :: publisher
  ye_uuid :: string

type_synonym outcome = "cloud_event list \<times> (failure, task_result) result"

subsection \<open>Configuration\<close>

definition parse_try_config :: "task_request \<Rightarrow> (string, try_config) result" where
  "parse_try_config r =
     (case rq_input r of
        None \<Rightarrow> Inl ''missing task input''
      | Some input \<Rightarrow>
          (let data =
             (case map_of input ''try_catch_config'' of
                Some v \<Rightarrow> as_map v | None \<Rightarrow> Option.bind (map_of input ''try_config'') as_map)
           in case data of
                None \<Rightarrow> Inl ''try configuration not found in task input''
              | Some m \<Rightarrow>
                  (case map_of m ''try'' of
                     None \<Rightarrow> Inl ''try block not found in task configuration''
                   | Some t \<Rightarrow>
                       (case map_of m ''catch'' of
                          None \<Rightarrow> Inl ''catch block is required''
                        | Some c \<Rightarrow> Inr \<lparr>yc_try = t, yc_catch = c\<rparr>))))"

text \<open>\<open>attempt_count\<close> is asserted to be a Go \<^verbatim>\<open>int\<close>.\<close>

definition initial_attempts :: "task_request \<Rightarrow> int" where
  "initial_attempts r =
     (case Option.bind (rq_input r) (\<lambda>m. get_map m ''retry_context'') of
        None \<Rightarrow> 0
      | Some c \<Rightarrow>
          if get_bool c ''is_retry'' = Some True
          then (case get_int c ''attempt_count'' of Some n \<Rightarrow> n | None \<Rightarrow> 0) else 0)"

subsection \<open>The call of the try block\<close>

fun add_with :: "gmap \<Rightarrow> gmap \<Rightarrow> gmap" where
  "add_with config [] = config"
| "add_with config ((k, v) # m) =
     add_with (if k = ''operationId'' then put ''operation_id'' v config else put k v config) m"

fun add_rest :: "gmap \<Rightarrow> gmap \<Rightarrow> gmap" where
  "add_rest config [] = config"
| "add_rest config ((k, v) # m) =
     add_rest
       (if k = ''call'' \<or> k = ''with'' then config
        else if k = ''output'' then put ''output_config'' v (put ''output'' (GStr ''content'') config)
        else if map_of config k = None then put k v config else config) m"

definition build_call_config_from_sdl :: "gmap \<Rightarrow> gval \<Rightarrow> gmap" where
  "build_call_config_from_sdl m call =
     add_rest (case get_map m ''with'' of
                 Some w \<Rightarrow> add_with [(''call_type'', call)] w | None \<Rightarrow> [(''call_type'', call)]) m"

definition call_request :: "task_request \<Rightarrow> gmap \<Rightarrow> gval \<Rightarrow> task_request" where
  "call_request r m call =
     \<lparr>rq_task = rq_task r, rq_name = rq_name r, rq_type = ''call'', rq_workflow = rq_workflow r,
      rq_execution = rq_execution r, rq_input = rq_input r,
      rq_config = Some \<lparr>tk_timeout = 0, tk_retries = 0, tk_queue = [],
        tk_params = Some (build_call_config_from_sdl m call)\<rparr>,
      rq_context = rq_context r\<rparr>"

definition execute_sdl_call :: "exec_env \<Rightarrow> task_request \<Rightarrow> gmap \<Rightarrow> gval \<Rightarrow> (failure, task_result) result" where
  "execute_sdl_call env r m call =
     (case basic_executor env ''call'' of
        None \<Rightarrow> Inl (Failed ''no call executor found'')
      | Some f \<Rightarrow> f (call_request r m call))"

definition execute_try_tasks :: "exec_env \<Rightarrow> task_request \<Rightarrow> gval \<Rightarrow> (failure, task_result) result" where
  "execute_try_tasks env r block =
     (case block of
        GMap m \<Rightarrow>
          (case map_of m ''call'' of
             Some call \<Rightarrow> execute_sdl_call env r m call
           | None \<Rightarrow> Inl (Failed ''unsupported task type in try block''))
      | _ \<Rightarrow> Inl (Failed ''try block is not a valid map''))"

subsection \<open>Recovery\<close>

text \<open>The recovery tasks in order; a task that was null in the configuration is a nil pointer.\<close>

fun run_recovery ::
  "exec_env \<Rightarrow> task_result option \<Rightarrow> (string \<times> task_request option) list \<Rightarrow>
   (failure, task_result option) result" where
  "run_recovery env prev [] = Inr prev"
| "run_recovery env prev ((name, None) # ts) = Inl Panicked"
| "run_recovery env prev ((name, Some q) # ts) =
     (case basic_executor env (rq_type q) of
        None \<Rightarrow> Inl (Failed (''no executor found for task type: '' @ rq_type q))
      | Some f \<Rightarrow>
          (case f q of
             Inl Panicked \<Rightarrow> Inl Panicked
           | Inl (Failed e) \<Rightarrow> Inl (Failed (''recovery task '' @ name @ '' failed: '' @ e))
           | Inr t \<Rightarrow>
               if \<not> tr_success t then Inl (Failed (''recovery task '' @ name @ '' failed: '' @ tr_error t))
               else run_recovery env (Some t) ts))"

definition add_error_data :: "gmap \<Rightarrow> task_result \<Rightarrow> task_result" where
  "add_error_data data t =
     t\<lparr>tr_output := Some (merge_into (case tr_output t of None \<Rightarrow> [] | Some m \<Rightarrow> m) data)\<rparr>"

definition recover :: "try_env \<Rightarrow> task_request \<Rightarrow> handling \<Rightarrow> (failure, task_result) result" where
  "recover env r h =
     (case run_recovery (ye_recovery env) None (hd_tasks h) of
        Inl Panicked \<Rightarrow> Inl Panicked
      | Inl (Failed e) \<Rightarrow> Inr (error_result (ye_clock env) r (''recovery tasks failed: '' @ e))
      | Inr None \<Rightarrow> Inl Panicked
      | Inr (Some t) \<Rightarrow> Inr (add_error_data (hd_data h) t))"

subsection \<open>Retry timers\<close>

definition retry_scheduled_event ::
  "time \<Rightarrow> string \<Rightarrow> task_request \<Rightarrow> int \<Rightarrow> int \<Rightarrow> cloud_event" where
  "retry_scheduled_event now uuid r delay attempt =
     (let rid = rq_task r @ ''_retry_'' @ itoa attempt
      in empty_event\<lparr>ev_id := uuid, ev_source := ''executor-service'', ev_specversion := ''1.0'',
           ev_type := ''io.flunq.timer.scheduled'', ev_workflow := rq_workflow r,
           ev_execution := rq_execution r, ev_task := rid, ev_time := now,
           ev_data := GMap [(''tenant_id'', GStr []), (''workflow_id'', GStr (rq_workflow r)),
             (''execution_id'', GStr (rq_execution r)), (''task_id'', GStr rid),
             (''task_name'', GStr (rq_name r @ ''_retry'')), (''duration_ms'', GInt (milliseconds delay)),
             (''fire_at'', GStr (format_rfc3339 (now + delay))), (''original_task_id'', GStr (rq_task r)),
             (''original_task_name'', GStr (rq_name r)), (''attempt_count'', GInt attempt),
             (''retry_type'', GStr ''task_retry''),
             (''original_task_definition'',
                case Option.bind (rq_config r) tk_params of None \<Rightarrow> GNil | Some m \<Rightarrow> GMap m)]\<rparr>)"

definition retry_scheduled_result :: "clock \<Rightarrow> task_request \<Rightarrow> int \<Rightarrow> int \<Rightarrow> task_result" where
  "retry_scheduled_result ck r delay attempt =
     result_of ck r False (rq_input r)
       [(''retry_scheduled'', GBool True), (''attempt_count'', GInt attempt),
        (''retry_delay'', GStr (duration_string delay))]
       (''Retry '' @ itoa attempt @ '' scheduled for '' @ duration_string delay)"

definition schedule_retry :: "try_env \<Rightarrow> task_request \<Rightarrow> int \<Rightarrow> int \<Rightarrow> outcome" where
  "schedule_retry env r delay attempt =
     (let ck = ye_clock env;
          e = retry_scheduled_event (ck_mid ck) (ye_uuid env) r delay attempt
      in case ye_pub env e of
           None \<Rightarrow> ([e], Inr (retry_scheduled_result ck r delay attempt))
         | Some err \<Rightarrow>
             ([], Inr (error_result ck r
                (''failed to schedule retry: failed to publish retry timer event: '' @ err))))"

definition ignored_result :: "clock \<Rightarrow> task_request \<Rightarrow> gmap \<Rightarrow> task_result" where
  "ignored_result ck r data = result_of ck r True (rq_input r) (merge_into [] data) []"

subsection \<open>The loop\<close>

definition max_attempts :: int where "max_attempts = 5"

definition handle_attempt_error ::
  "try_env \<Rightarrow> try_config \<Rightarrow> nat \<Rightarrow> string \<Rightarrow> (failure, handling) result" where
  "handle_attempt_error env config n e =
     (case convert_catch_config (yc_catch config) of
        Inl msg \<Rightarrow> Inl (Failed (''invalid catch configuration: '' @ msg))
      | Inr c \<Rightarrow>
          (case handle_error (ye_rx env) (ye_rand env n) (Plain e) c
                  \<lparr>ec_attempts = int n, ec_total = ye_elapsed env n\<rparr> of
             Inl Panicked \<Rightarrow> Inl Panicked
           | Inl (Failed msg) \<Rightarrow> Inl (Failed (''error handling failed: '' @ msg))
           | Inr h \<Rightarrow> Inr h))"

text \<open>The case of an uncaught error (\<open>ErrorActionFail\<close>) is an empty clause of the switch, after
  which the loop goes around again, as it does after a retry without delay.\<close>

function try_loop :: "try_env \<Rightarrow> task_request \<Rightarrow> try_config \<Rightarrow> int \<Rightarrow> outcome" where
  "try_loop env r config attempts =
     (let n = attempts + 1
      in if max_attempts < n
         then ([], Inr (error_result (ye_clock env) r (''max attempts exceeded: '' @ itoa n)))
         else case execute_try_tasks (ye_exec env (nat n)) r (yc_try config) of
             Inr t \<Rightarrow> ([], Inr t)
           | Inl Panicked \<Rightarrow> ([], Inl Panicked)
           | Inl (Failed e) \<Rightarrow>
               (case handle_attempt_error env config (nat n) e of
                  Inl Panicked \<Rightarrow> ([], Inl Panicked)
                | Inl (Failed msg) \<Rightarrow> ([], Inr (error_result (ye_clock env) r msg))
                | Inr h \<Rightarrow>
                    (case hd_action h of
                       ARetry \<Rightarrow>
                         if 0 < hd_delay h then schedule_retry env r (hd_delay h) n
                         else try_loop env r config n
                     | ARecover \<Rightarrow> ([], recover env r h)
                     | AIgnore \<Rightarrow> ([], Inr (ignored_result (ye_clock env) r (hd_data h)))
                     | AFail \<Rightarrow> try_loop env r config n)))"
  by pat_completeness auto
termination
  by (relation "measure (\<lambda>(env, r, config, attempts). nat (max_attempts + 1 - attempts))")
    (auto simp: max_attempts_def)

declare try_loop.simps [simp del]

definition try_execute :: "try_env \<Rightarrow> task_request \<Rightarrow> outcome" where
  "try_execute env r =
     (case parse_try_config r of
        Inl e \<Rightarrow> ([], Inr (error_result (ye_clock env) r (''invalid try configuration: '' @ e)))
      | Inr config \<Rightarrow> try_loop env r config (initial_attempts r))"

end
