(* ===== verification/Try_Laws.thy ===== *)
theory Try_Laws
  imports Try_Executor
begin

text \<open>
  Correctness of try tasks: the bound on the attempts, the identity of the results, and what
  becomes of an error that is caught, retried, recovered from or not caught at all.
\<close>

lemma try_loop_step:
  "attempts < 5 \<Longrightarrow> try_loop env r config attempts =
     (let n = attempts + 1
      in case execute_try_tasks (ye_exec env (nat n)) r (yc_try config) of
             Inr t \<Rightarrow> ([], Inr t)
           | Inl Panicked \<Rightarrow> ([], Inl Panicked)
           | Inl (Failed e) \<Rightarrow>
               (case handle_attempt_error env config (nat n) e of
                  Inl Panicked \<Rightarrow> ([], Inl Panicked)
                | Inl (Failed msg) \<Rightarrow> ([], Inr (error_result (ye_clock env) r msg))
                | Inr h \<Rightarrow>
                    (case hd_action h of
                       ARetry \<Rightarrow>
                         if 0 < hd_delay h then schedule_retry env r (hd_delay h) n
                         else try_loop env r config n
                     | ARecover \<Rightarrow> ([], recover env r h)
                     | AIgnore \<Rightarrow> ([], Inr (ignored_result (ye_clock env) r (hd_data h)))
                     | AFail \<Rightarrow> try_loop env r config n)))"
  by (subst try_loop.simps) (simp add: max_attempts_def Let_def)

lemma try_loop_end:
  "5 \<le> attempts \<Longrightarrow> try_loop env r config attempts =
     ([], Inr (error_result (ye_clock env) r (''max attempts exceeded: '' @ itoa (attempts + 1))))"
  by (subst try_loop.simps) (simp add: max_attempts_def Let_def)

lemma initial_attempts_wire: "is_wire_map input \<Longrightarrow> rq_input r = Some input \<Longrightarrow> initial_attempts r = 0"
  by (auto simp: initial_attempts_def get_int_wire dest: get_map_is_wire split: option.splits)

subsection \<open>The attempts\<close>

lemma env_exec_irrelevant [simp]:
  "handle_attempt_error (env\<lparr>ye_exec := f\<rparr>) config n e = handle_attempt_error env config n e"
  "schedule_retry (env\<lparr>ye_exec := f\<rparr>) r d k = schedule_retry env r d k"
  "recover (env\<lparr>ye_exec := f\<rparr>) r h = recover env r h"
  by (simp_all add: handle_attempt_error_def schedule_retry_def recover_def
      split: sum.split failure.split option.split)

lemma try_loop_agree:
  assumes "\<And>n. n \<in> {1..5} \<Longrightarrow> f n = ye_exec env n" and "0 \<le> attempts"
  shows "try_loop (env\<lparr>ye_exec := f\<rparr>) r config attempts = try_loop env r config attempts"
  using assms(2)
proof (induction "nat (5 - attempts)" arbitrary: attempts)
  case 0
  then show ?case by (simp add: try_loop_end)
next
  case (Suc k)
  then have a: "attempts < 5" by linarith
  have ih: "try_loop (env\<lparr>ye_exec := f\<rparr>) r config (attempts + 1) = try_loop env r config (attempts + 1)"
    using Suc by (intro Suc.hyps(1)) linarith+
  have "f (nat (attempts + 1)) = ye_exec env (nat (attempts + 1))"
    using a Suc.prems by (intro assms(1)) auto
  then show ?case
    unfolding try_loop_step [OF a] Let_def
    by (simp add: ih split: sum.split failure.split error_action.split)
qed

text \<open>C21: A try task makes at most five attempts at its call and then returns. What the outside
  would do at any attempt after the fifth makes no difference to the outcome: the events
  published and the result are the same for all environments that agree on the attempts 1 to 5.
  (The loop itself is a total function.)\<close>

theorem at_most_five_attempts:
  assumes "rq_input r = Some input" and "is_wire_map input"
    and "\<forall>n \<in> {1..5}. f n = ye_exec env n"
  shows "try_execute (env\<lparr>ye_exec := f\<rparr>) r = try_execute env r"
  using assms(3) initial_attempts_wire [OF assms(2,1)] try_loop_agree [of f env 0]
  by (simp add: try_execute_def split: sum.split)

text \<open>The configuration a request with this input stands for.\<close>

definition try_input :: "gmap \<Rightarrow> gval \<Rightarrow> gmap" where
  "try_input block catch =
     [(''try_config'', GMap [(''try'', GMap block), (''catch'', catch)])]"

lemma parse_try_input:
  "rq_input r = Some (try_input block catch) \<Longrightarrow>
   parse_try_config r = Inr \<lparr>yc_try = GMap block, yc_catch = catch\<rparr>"
  by (simp add: parse_try_config_def try_input_def)

lemma initial_try_input: "rq_input r = Some (try_input block catch) \<Longrightarrow> initial_attempts r = 0"
  by (simp add: initial_attempts_def try_input_def get_map_def)

definition demo_try :: "gmap \<Rightarrow> gval \<Rightarrow> task_request" where
  "demo_try block catch =
     \<lparr>rq_task = ''task-pay-1'', rq_name = ''pay'', rq_type = ''try'', rq_workflow = ''wf'',
      rq_execution = ''ex'', rq_input = Some (try_input block catch), rq_config = None, rq_context = None\<rparr>"

definition demo_exec_env :: "int \<Rightarrow> exec_env" where
  "demo_exec_env n = \<lparr>xe_call = demo_call_env n, xe_cancelled = False, xe_clock = demo_clock\<rparr>"

definition demo_try_env :: "int \<Rightarrow> try_env" where
  "demo_try_env n =
     \<lparr>ye_exec = (\<lambda>_. demo_exec_env n), ye_recovery = demo_exec_env 200, ye_elapsed = (\<lambda>_. 0),
      ye_rand = (\<lambda>_ _. 0), ye_rx = (\<lambda>_ _. False), ye_clock = demo_clock, ye_pub = (\<lambda>_. None),
      ye_uuid = ''u''\<rparr>"

theorem at_most_five_attempts_witness:
  "try_execute ((demo_try_env 503)\<lparr>ye_exec := (\<lambda>n. if n \<le> 5 then demo_exec_env 503 else demo_exec_env 200)\<rparr>)
     (demo_try [] GNil) = try_execute (demo_try_env 503) (demo_try [] GNil)"
  by (rule at_most_five_attempts [of _ "try_input [] GNil"])
    (simp_all add: demo_try_def try_input_def demo_try_env_def)

subsection \<open>Failing attempts\<close>

text \<open>Attempt \<open>n\<close> of the request fails with the error.\<close>

definition attempt_fails :: "try_env \<Rightarrow> task_request \<Rightarrow> try_config \<Rightarrow> nat \<Rightarrow> string \<Rightarrow> bool" where
  "attempt_fails env r config n e \<longleftrightarrow> execute_try_tasks (ye_exec env n) r (yc_try config) = Inl (Failed e)"

lemma try_loop_fails:
  assumes "attempts < 5" and "attempt_fails env r config (nat (attempts + 1)) e"
    and "handle_attempt_error env config (nat (attempts + 1)) e = Inr h"
  shows "try_loop env r config attempts =
    (case hd_action h of
       ARetry \<Rightarrow>
         if 0 < hd_delay h then schedule_retry env r (hd_delay h) (attempts + 1)
         else try_loop env r config (attempts + 1)
     | ARecover \<Rightarrow> ([], recover env r h)
     | AIgnore \<Rightarrow> ([], Inr (ignored_result (ye_clock env) r (hd_data h)))
     | AFail \<Rightarrow> try_loop env r config (attempts + 1))"
  using assms(2,3) unfolding try_loop_step [OF assms(1)] attempt_fails_def Let_def by simp

lemma handle_uncaught:
  assumes "convert_catch_config (yc_catch config) = Inr c"
    and "\<not> matches_filter (ye_rx env) (Plain e) (cc_errors c)"
  shows "handle_attempt_error env config n e = Inr (handling_of AFail)"
proof -
  have "cc_errors c \<noteq> None" using assms(2) by (cases "cc_errors c") auto
  with assms show ?thesis by (simp add: handle_attempt_error_def handle_error_def)
qed

lemma try_loop_uncaught:
  assumes "convert_catch_config (yc_catch config) = Inr c"
    and "\<And>n. n \<in> {1..5} \<Longrightarrow> \<exists>e. attempt_fails env r config n e \<and>
      \<not> matches_filter (ye_rx env) (Plain e) (cc_errors c)"
    and "0 \<le> attempts" and "attempts \<le> 5"
  shows "try_loop env r config attempts =
    ([], Inr (error_result (ye_clock env) r ''max attempts exceeded: 6''))"
  using assms(3,4)
proof (induction "nat (5 - attempts)" arbitrary: attempts)
  case 0
  then have "attempts = 5" by linarith
  moreover have "itoa 6 = ''6''" by code_simp
  ultimately show ?case by (simp add: try_loop_end)
next
  case (Suc k)
  then have a: "attempts < 5" by linarith
  have "nat (attempts + 1) \<in> {1..5}" using a Suc.prems by auto
  then obtain e where e: "attempt_fails env r config (nat (attempts + 1)) e"
      "\<not> matches_filter (ye_rx env) (Plain e) (cc_errors c)"
    using assms(2) by blast
  from try_loop_fails [OF a e(1) handle_uncaught [OF assms(1) e(2)]]
  have "try_loop env r config attempts = try_loop env r config (attempts + 1)" by simp
  also have "\<dots> = ([], Inr (error_result (ye_clock env) r ''max attempts exceeded: 6''))"
    using Suc a by (intro Suc.hyps(1)) linarith+
  finally show ?case .
qed

text \<open>C32: An error that the catch block does not match does not fail the task at once. The call
  is made five times over, without any delay and without any retry policy being asked, and the
  result reports only that the attempts are used up: the error itself is lost.\<close>

theorem uncaught_error_repeats_call:
  assumes "parse_try_config r = Inr config" and "initial_attempts r = 0"
    and "convert_catch_config (yc_catch config) = Inr c"
    and "\<forall>n \<in> {1..5}. \<exists>e. attempt_fails env r config n e \<and>
      \<not> matches_filter (ye_rx env) (Plain e) (cc_errors c)"
  shows "try_execute env r = ([], Inr (error_result (ye_clock env) r ''max attempts exceeded: 6''))"
  using assms(4) try_loop_uncaught [OF assms(3), of env r 0]
  by (simp add: try_execute_def assms(1,2))

subsection \<open>A call that fails, and catch blocks, for the examples\<close>

definition demo_block :: gmap where
  "demo_block =
     [(''call'', GStr ''openapi''),
      (''with'', GMap [(''document'', GMap [(''endpoint'', GStr ''http://api/spec'')]),
                       (''operationId'', GStr ''getPet'')])]"

lemma demo_block_config: "build_call_config_from_sdl demo_block (GStr ''openapi'') = demo_openapi"
  by (simp add: build_call_config_from_sdl_def demo_block_def demo_openapi_def get_map_def)

lemma demo_attempt_fails:
  "attempt_fails (demo_try_env 503) (demo_try demo_block catch) \<lparr>yc_try = GMap demo_block, yc_catch = c\<rparr> n
     (http_status_error 503)"
proof -
  have "map_of demo_block ''call'' = Some (GStr ''openapi'')" by (simp add: demo_block_def)
  moreover have "call_execute (demo_call_env 503) (call_request (demo_try demo_block catch) demo_block (GStr ''openapi''))
      = Inl (Failed (http_status_error 503))"
  proof -
    have "evaluate_parameter_expressions demo_call r = Inr demo_call" for r
      by (simp add: evaluate_parameter_expressions_def demo_call_def)
    moreover have "rq_input (demo_try demo_block catch) = Some (try_input demo_block catch)"
      by (simp add: demo_try_def)
    ultimately show ?thesis
      by (simp add: call_execute_def call_request_def demo_block_config demo_openapi_parsed
          demo_call_valid execute_openapi_call_def demo_call_env_def is_success_def
          apply_output_transformation_def try_input_def Let_def)
  qed
  ultimately show ?thesis
    by (simp add: attempt_fails_def execute_try_tasks_def execute_sdl_call_def basic_executor_def
        demo_try_env_def demo_exec_env_def)
qed

lemma demo_attempt_fails_ex:
  "\<exists>e. attempt_fails (demo_try_env 503) (demo_try demo_block catch) \<lparr>yc_try = GMap demo_block, yc_catch = c\<rparr> n e"
  by (rule exI, rule demo_attempt_fails)

lemma demo_parse: "parse_try_config (demo_try block catch) = Inr \<lparr>yc_try = GMap block, yc_catch = catch\<rparr>"
  by (simp add: parse_try_input demo_try_def)

lemma demo_initial: "initial_attempts (demo_try block catch) = 0"
  by (simp add: initial_try_input demo_try_def)

lemma demo_status_converted:
  "convert_catch_config demo_status_catch =
   Inr (empty_catch\<lparr>cc_errors := Some \<lparr>ef_with = Some [(''status'', GFloat 503)]\<rparr>, cc_as := ''apiError''\<rparr>)"
  by (simp add: demo_status_catch_def convert_catch_config_def decode_catch_def json_defs
      decode_error_filter_def empty_catch_def)

lemma demo_status_unmatched:
  "\<not> matches_filter rx (Plain e) (Some \<lparr>ef_with = Some [(''status'', GFloat 503)]\<rparr>)"
  by (simp add: matches_filter_def matches_property_def error_property_def status_value_no_match)

theorem uncaught_error_repeats_call_witness:
  "try_execute (demo_try_env 503) (demo_try demo_block demo_status_catch) =
   ([], Inr (error_result demo_clock (demo_try demo_block demo_status_catch) ''max attempts exceeded: 6''))"
proof -
  have "try_execute (demo_try_env 503) (demo_try demo_block demo_status_catch) =
   ([], Inr (error_result (ye_clock (demo_try_env 503)) (demo_try demo_block demo_status_catch) ''max attempts exceeded: 6''))"
    by (rule uncaught_error_repeats_call [OF demo_parse demo_initial])
      (auto simp: demo_status_converted demo_status_unmatched intro!: demo_attempt_fails exI)
  then show ?thesis by (simp add: demo_try_env_def)
qed

subsection \<open>Calls that cannot be caught\<close>

lemma openapi_only:
  assumes "parse_call_config (build_call_config_from_sdl m call) = Inr c" and "\<not> is_openapi_call c"
  shows "\<exists>t. execute_sdl_call env r m call = Inr t \<and>
    call_execute (xe_call env) (call_request r m call) = Inr t"
proof -
  have p: "Option.bind (rq_config (call_request r m call)) tk_params = Some (build_call_config_from_sdl m call)"
    by (simp add: call_request_def)
  have "\<exists>t. call_execute (xe_call env) (call_request r m call) = Inr t"
    unfolding call_execute_def p using assms by (simp split: option.split)
  then show ?thesis by (simp add: execute_sdl_call_def basic_executor_def)
qed

text \<open>A try task around a plain HTTP call never catches anything. The call reports its
  failures, a refused connection as well as a 503, as a result and not as an error, and the try
  executor takes that result for the outcome of the block: whatever the catch block asks for,
  there is one attempt, no retry timer and no recovery.\<close>

theorem http_failure_never_caught:
  assumes "parse_try_config r = Inr config" and "initial_attempts r = 0"
    and "yc_try config = GMap m" and "map_of m ''call'' = Some call"
    and "parse_call_config (build_call_config_from_sdl m call) = Inr c" and "\<not> is_openapi_call c"
  shows "\<exists>t. try_execute env r = ([], Inr t) \<and>
    call_execute (xe_call (ye_exec env 1)) (call_request r m call) = Inr t"
proof -
  obtain t where t: "execute_sdl_call (ye_exec env 1) r m call = Inr t"
      "call_execute (xe_call (ye_exec env 1)) (call_request r m call) = Inr t"
    using openapi_only [OF assms(5,6)] by blast
  then have "execute_try_tasks (ye_exec env 1) r (GMap m) = Inr t"
    using assms(4) by (simp add: execute_try_tasks_def)
  then show ?thesis
    using t(2) assms(1-3) by (simp add: try_execute_def try_loop_step)
qed

definition demo_http_block :: gmap where
  "demo_http_block = [(''call'', GStr ''http''), (''with'', GMap [(''url'', GStr ''http://api/charge'')])]"

lemma demo_http_block_config: "build_call_config_from_sdl demo_http_block (GStr ''http'') = demo_http"
  by (simp add: build_call_config_from_sdl_def demo_http_block_def demo_http_def get_map_def)

theorem http_failure_never_caught_witness:
  "\<exists>t. try_execute (demo_try_env 200) (demo_try demo_http_block demo_status_catch) = ([], Inr t)"
proof -
  have "\<exists>t. try_execute (demo_try_env 200) (demo_try demo_http_block demo_status_catch) = ([], Inr t) \<and>
    call_execute (xe_call (ye_exec (demo_try_env 200) 1))
      (call_request (demo_try demo_http_block demo_status_catch) demo_http_block (GStr ''http'')) = Inr t"
    by (rule http_failure_never_caught [OF demo_parse demo_initial, where c = demo_http_config])
      (simp_all only: try_config.simps demo_http_block_config demo_http_parsed demo_http_valid,
        simp_all add: demo_http_block_def)
  then show ?thesis by blast
qed

subsection \<open>Retries\<close>

lemma handle_retry:
  assumes "convert_catch_config (yc_catch config) = Inr c" and "cc_retry c = Some p"
    and "matches_filter (ye_rx env) (Plain e) (cc_errors c)"
    and "\<not> exceeds_retry_limits p \<lparr>ec_attempts = int n, ec_total = ye_elapsed env n\<rparr>"
    and "calculate_retry_delay (ye_rand env n) p \<lparr>ec_attempts = int n, ec_total = ye_elapsed env n\<rparr> = Inr d"
  shows "\<exists>h. handle_attempt_error env config n e = Inr h \<and> hd_action h = ARetry \<and> hd_delay h = d"
  using assms
  by (simp add: handle_attempt_error_def handle_error_def should_retry_simp Let_def)

lemma retry_schedules_timer:
  assumes "parse_try_config r = Inr config" and "rq_input r = Some input" and "is_wire_map input"
    and "attempt_fails env r config 1 e"
    and "convert_catch_config (yc_catch config) = Inr c" and "cc_retry c = Some p"
    and "matches_filter (ye_rx env) (Plain e) (cc_errors c)"
    and "\<not> exceeds_retry_limits p \<lparr>ec_attempts = 1, ec_total = ye_elapsed env 1\<rparr>"
    and "calculate_retry_delay (ye_rand env 1) p \<lparr>ec_attempts = 1, ec_total = ye_elapsed env 1\<rparr> = Inr d"
    and "0 < d" and "\<forall>x. ye_pub env x = None"
  shows "try_execute env r =
      ([retry_scheduled_event (ck_mid (ye_clock env)) (ye_uuid env) r d 1],
       Inr (retry_scheduled_result (ye_clock env) r d 1)) \<and>
    \<not> tr_success (retry_scheduled_result (ye_clock env) r d 1)"
proof -
  obtain h where h: "handle_attempt_error env config 1 e = Inr h" "hd_action h = ARetry" "hd_delay h = d"
    using handle_retry [of config c p env e 1 d] assms(5-9) by auto
  have "try_loop env r config 0 = schedule_retry env r d 1"
    using try_loop_fails [of 0 env r config e h] assms(4,10) h by simp
  then show ?thesis
    using assms(1,11) initial_attempts_wire [OF assms(3,2)]
    by (simp add: try_execute_def schedule_retry_def retry_scheduled_result_def Let_def)
qed

text \<open>A retry with a delay leaves the process. When the first attempt fails, the policy allows
  a retry and its delay is positive, the task publishes one timer and returns a result that is
  not a success; and since the input has come through JSON, where numbers are floats, the
  attempt count that an earlier timer carried is not read back, so the timer always says that
  this was attempt 1.\<close>

theorem retry_timer_says_first_attempt:
  assumes "parse_try_config r = Inr config" and "rq_input r = Some input" and "is_wire_map input"
    and "attempt_fails env r config 1 e"
    and "convert_catch_config (yc_catch config) = Inr c" and "cc_retry c = Some p"
    and "matches_filter (ye_rx env) (Plain e) (cc_errors c)"
    and "\<not> exceeds_retry_limits p \<lparr>ec_attempts = 1, ec_total = ye_elapsed env 1\<rparr>"
    and "calculate_retry_delay (ye_rand env 1) p \<lparr>ec_attempts = 1, ec_total = ye_elapsed env 1\<rparr> = Inr d"
    and "0 < d" and "\<forall>x. ye_pub env x = None"
  shows "try_execute env r =
      ([retry_scheduled_event (ck_mid (ye_clock env)) (ye_uuid env) r d 1],
       Inr (retry_scheduled_result (ye_clock env) r d 1)) \<and>
    \<not> tr_success (retry_scheduled_result (ye_clock env) r d 1)"
  using assms by (rule retry_schedules_timer)

definition demo_retry_catch :: gval where
  "demo_retry_catch =
     GMap [(''retry'', GMap [(''delay'', GMap [(''seconds'', GFloat 2)]),
       (''limit'', GMap [(''attempt'', GMap [(''count'', GFloat 3)])])])]"

lemma demo_retry_converted:
  "convert_catch_config demo_retry_catch = Inr (empty_catch\<lparr>cc_retry := Some (demo_policy 3 None)\<rparr>)"
  by (simp add: demo_retry_catch_def convert_catch_config_def decode_catch_def json_defs
      decode_retry_policy_def decode_retry_limit_def decode_attempt_limit_def decode_duration_def
      empty_catch_def demo_policy_def demo_duration_def)

lemma demo_retry_facts:
  "rq_input (demo_try demo_block demo_retry_catch) = Some (try_input demo_block demo_retry_catch)"
  "is_wire_map (try_input demo_block demo_retry_catch)"
  "cc_retry (empty_catch\<lparr>cc_retry := Some (demo_policy 3 None)\<rparr>) = Some (demo_policy 3 None)"
  "matches_filter rx err (cc_errors (empty_catch\<lparr>cc_retry := Some (demo_policy 3 None)\<rparr>))"
  "\<not> exceeds_retry_limits (demo_policy 3 None) \<lparr>ec_attempts = 1, ec_total = ye_elapsed (demo_try_env 503) 1\<rparr>"
  "calculate_retry_delay rand (demo_policy 3 None) \<lparr>ec_attempts = 1, ec_total = ye_elapsed (demo_try_env 503) 1\<rparr> =
     Inr 2000000000"
  "\<forall>x. ye_pub (demo_try_env 503) x = None"
  by (simp_all add: demo_try_def try_input_def demo_block_def demo_retry_catch_def demo_try_env_def
      empty_catch_def demo_policy_def exceeds_retry_limits_def calculate_retry_delay_def
      demo_duration_def to_duration_wrap nanoseconds_def)

lemma demo_retry_catch_block:
  "convert_catch_config (yc_catch \<lparr>yc_try = GMap demo_block, yc_catch = demo_retry_catch\<rparr>) =
     Inr (empty_catch\<lparr>cc_retry := Some (demo_policy 3 None)\<rparr>)"
  by (simp add: demo_retry_converted)

lemma demo_retry_run:
  "try_execute (demo_try_env 503) (demo_try demo_block demo_retry_catch) =
      ([retry_scheduled_event (ck_mid (ye_clock (demo_try_env 503))) (ye_uuid (demo_try_env 503))
          (demo_try demo_block demo_retry_catch) 2000000000 1],
       Inr (retry_scheduled_result (ye_clock (demo_try_env 503)) (demo_try demo_block demo_retry_catch) 2000000000 1))"
  using retry_schedules_timer [OF demo_parse demo_retry_facts(1,2) demo_attempt_fails demo_retry_catch_block
      demo_retry_facts(3-6) _ demo_retry_facts(7)] by simp

theorem retry_timer_says_first_attempt_witness:
  "fst (try_execute (demo_try_env 503) (demo_try demo_block demo_retry_catch)) =
     [retry_scheduled_event 1 ''u'' (demo_try demo_block demo_retry_catch) 2000000000 1]"
  using retry_timer_says_first_attempt [OF demo_parse demo_retry_facts(1,2) demo_attempt_fails
      demo_retry_catch_block demo_retry_facts(3-6) _ demo_retry_facts(7)]
  by (simp add: demo_try_env_def demo_clock_def)

subsection \<open>Recovery\<close>

lemma handle_recover:
  assumes "convert_catch_config (yc_catch config) = Inr c" and "cc_retry c = None"
    and "matches_filter (ye_rx env) (Plain e) (cc_errors c)" and "cc_do c \<noteq> []"
  shows "handle_attempt_error env config n e =
    Inr ((handling_of ARecover)\<lparr>hd_data := error_data c (to_workflow_error (Some (Plain e))), hd_tasks := cc_do c\<rparr>)"
  using assms by (simp add: handle_attempt_error_def handle_error_def Let_def)

text \<open>The result of a recovered task is not the task's own. When the error is caught and the
  recovery task succeeds, the try task returns the result of the recovery task, with its task id,
  name, workflow and execution, which are those the workflow author wrote into the catch block
  (usually none), not those of the try task that the worker is waiting for.\<close>

theorem recovery_loses_identity:
  assumes "parse_try_config r = Inr config" and "initial_attempts r = 0"
    and "attempt_fails env r config 1 e"
    and "convert_catch_config (yc_catch config) = Inr c" and "cc_retry c = None"
    and "matches_filter (ye_rx env) (Plain e) (cc_errors c)" and "cc_do c = [(name, Some q)]"
    and "basic_executor (ye_recovery env) (rq_type q) = Some f" and "f q = Inr t" and "tr_success t"
  shows "\<exists>t'. try_execute env r = ([], Inr t') \<and> tr_success t' \<and> same_task q t'"
proof -
  let ?h = "(handling_of ARecover)\<lparr>hd_data := error_data c (to_workflow_error (Some (Plain e))), hd_tasks := cc_do c\<rparr>"
  have h: "handle_attempt_error env config 1 e = Inr ?h"
    using assms(4-7) by (intro handle_recover) simp_all
  have "try_loop env r config 0 = ([], recover env r ?h)"
    using try_loop_fails [of 0 env r config e ?h] assms(3) h by simp
  moreover have "recover env r ?h = Inr (add_error_data (hd_data ?h) t)"
    using assms(7-10) by (simp add: recover_def)
  moreover have "same_task q t" using assms(8,9) by (rule basic_executor_same)
  ultimately show ?thesis
    using assms(1,2,10) by (simp add: try_execute_def add_error_data_def same_task_def)
qed

definition demo_recovery :: task_request where
  "demo_recovery =
     \<lparr>rq_task = [], rq_name = [], rq_type = ''set'', rq_workflow = [], rq_execution = [],
      rq_input = None, rq_config = None, rq_context = None\<rparr>"

definition demo_recovery_catch :: gval where
  "demo_recovery_catch = GMap [(''do'', GMap [(''notify'', GMap [(''task_type'', GStr ''set'')])])]"

lemma demo_recovery_converted:
  "convert_catch_config demo_recovery_catch = Inr (empty_catch\<lparr>cc_do := [(''notify'', Some demo_recovery)]\<rparr>)"
  by (simp add: demo_recovery_catch_def convert_catch_config_def decode_catch_def json_defs
      decode_task_request_def empty_catch_def demo_recovery_def)

theorem recovery_loses_identity_witness:
  "\<exists>t. try_execute (demo_try_env 503) (demo_try demo_block demo_recovery_catch) = ([], Inr t) \<and>
     tr_success t \<and> tr_workflow t = [] \<and> tr_task t = []"
proof -
  have "\<exists>t. try_execute (demo_try_env 503) (demo_try demo_block demo_recovery_catch) = ([], Inr t) \<and>
      tr_success t \<and> same_task demo_recovery t"
    by (rule recovery_loses_identity [OF demo_parse demo_initial, where e = "http_status_error 503"
          and c = "empty_catch\<lparr>cc_do := [(''notify'', Some demo_recovery)]\<rparr>" and name = "''notify''"
          and q = demo_recovery and f = "set_execute (xe_clock (ye_recovery (demo_try_env 503)))"
          and t = "result_of demo_clock demo_recovery True None [] []"])
      (simp_all add: demo_attempt_fails demo_recovery_converted empty_catch_def,
        simp_all add: demo_recovery_def basic_executor_def set_execute_def demo_try_env_def
          demo_exec_env_def merged_output_def config_params_def input_entries_def)
  then show ?thesis by (auto simp: same_task_def demo_recovery_def)
qed

subsection \<open>Identity\<close>

definition task_identity :: "task_request \<Rightarrow> task_result \<Rightarrow> bool" where
  "task_identity r t \<longleftrightarrow>
     tr_task t = rq_task r \<and> tr_name t = rq_name r \<and> tr_workflow t = rq_workflow r \<and> tr_execution t = rq_execution r"

lemma same_task_identity: "same_task r t \<Longrightarrow> task_identity r t"
  by (simp add: same_task_def task_identity_def)

lemma execute_try_tasks_identity:
  assumes "execute_try_tasks env r block = Inr t"
  shows "task_identity r t"
proof -
  obtain m call where "basic_executor env ''call'' = Some (call_execute (xe_call env))"
      "call_execute (xe_call env) (call_request r m call) = Inr t"
    using assms
    by (auto simp: execute_try_tasks_def execute_sdl_call_def basic_executor_def
        split: gval.splits option.splits)
  then have "same_task (call_request r m call) t" by (metis call_exec.identity)
  then show ?thesis by (simp add: same_task_def task_identity_def call_request_def)
qed

lemma handle_no_recovery:
  assumes "handle_attempt_error env config n e = Inr h"
    and "\<And>c. convert_catch_config (yc_catch config) = Inr c \<Longrightarrow> cc_do c = []"
  shows "hd_action h \<noteq> ARecover"
proof -
  obtain c where c: "convert_catch_config (yc_catch config) = Inr c"
      "handle_error (ye_rx env) (ye_rand env n) (Plain e) c \<lparr>ec_attempts = int n, ec_total = ye_elapsed env n\<rparr> = Inr h"
    using assms(1) by (auto simp: handle_attempt_error_def split: sum.splits failure.splits)
  show ?thesis
    using handle_error_decision [OF c(2)] assms(2) [OF c(1)] by (simp add: catch_decision_def)
qed

lemma try_loop_identity:
  assumes "\<And>c. convert_catch_config (yc_catch config) = Inr c \<Longrightarrow> cc_do c = []"
    and "snd (try_loop env r config attempts) = Inr t"
  shows "task_identity r t"
  using assms(2)
proof (induction "nat (5 - attempts)" arbitrary: attempts)
  case 0
  then show ?case by (auto simp: try_loop_end same_task_identity)
next
  case (Suc k)
  then have a: "attempts < 5" and ih: "snd (try_loop env r config (attempts + 1)) = Inr t \<Longrightarrow> ?case"
    by linarith (use Suc in \<open>auto intro!: Suc.hyps(1)\<close>)
  show ?case
    using Suc.prems ih handle_no_recovery [OF _ assms(1)] execute_try_tasks_identity
    unfolding try_loop_step [OF a] Let_def
    by (auto simp: schedule_retry_def retry_scheduled_result_def ignored_result_def same_task_identity Let_def
        split: sum.splits failure.splits error_action.splits if_splits option.splits)
qed

text \<open>Without recovery tasks, whatever a try task returns, the answer of the call, a scheduled
  retry, an ignored error or an error result, it returns under the task id, task name, workflow
  and execution of the request.\<close>

theorem try_result_identity:
  assumes "snd (try_execute env r) = Inr t"
    and "\<And>config c. parse_try_config r = Inr config \<Longrightarrow>
      convert_catch_config (yc_catch config) = Inr c \<Longrightarrow> cc_do c = []"
  shows "task_identity r t"
proof (cases "parse_try_config r")
  case (Inl e)
  with assms(1) show ?thesis by (auto simp: try_execute_def same_task_identity)
next
  case (Inr config)
  then show ?thesis
    using assms(1) assms(2) [OF Inr] try_loop_identity [of config env r "initial_attempts r" t]
    by (simp add: try_execute_def)
qed

theorem try_result_identity_witness:
  "task_identity (demo_try demo_block demo_retry_catch)
     (retry_scheduled_result demo_clock (demo_try demo_block demo_retry_catch) 2000000000 1)"
proof (rule try_result_identity [where env = "(demo_try_env 503)"])
  show "cc_do c = []" if "parse_try_config (demo_try demo_block demo_retry_catch) = Inr config"
    and "convert_catch_config (yc_catch config) = Inr c" for config c
    using that by (auto simp: demo_parse demo_retry_converted empty_catch_def)
  show "snd (try_execute (demo_try_env 503) (demo_try demo_block demo_retry_catch)) =
      Inr (retry_scheduled_result demo_clock (demo_try demo_block demo_retry_catch) 2000000000 1)"
    by (simp add: demo_retry_run) (simp add: demo_try_env_def)
qed

end
