(* ===== verification/Task_Processor.thy ===== *)
theory Task_Processor
  imports Try_Laws Event_Loop
begin

text \<open>
  The executor service (\<^verbatim>\<open>executor/internal/processor/task_processor.go\<close>,
  \<^verbatim>\<open>executor_registry.go\<close>): from a \<^verbatim>\<open>task.requested\<close> event to the executor of its type and to
  the \<^verbatim>\<open>task.completed\<close> event of the result, and the loop around it (dead letter and
  acknowledgement). A run-time panic in an executor ends the process: nothing after it happens.
\<close>

datatype exec_out = XEmit cloud_event | XAck string

subsection \<open>The registry\<close>

definition registry :: "try_env \<Rightarrow> string \<Rightarrow> (task_request \<Rightarrow> outcome) option" where
  "registry env ty =
     (if ty = ''try'' then Some (try_execute env)
      else map_option (\<lambda>f r. ([], f r)) (basic_executor (ye_exec env 1) ty))"

subsection \<open>One event\<close>

definition map_or_nil :: "gmap option \<Rightarrow> gval" where
  "map_or_nil x = (case x of None \<Rightarrow> GNil | Some m \<Rightarrow> GMap m)"

definition result_event :: "time \<Rightarrow> string \<Rightarrow> task_result \<Rightarrow> cloud_event" where
  "result_event now tenant t =
     empty_event\<lparr>ev_id := ''task-completed-'' @ tr_task t, ev_source := ''executor-service'',
       ev_specversion := ''1.0'', ev_type := ''io.flunq.task.completed'', ev_tenant := tenant,
       ev_workflow := tr_workflow t, ev_execution := tr_execution t, ev_task := tr_task t,
       ev_time := now,
       ev_data := GMap [(''task_id'', GStr (tr_task t)), (''task_name'', GStr (tr_name t)),
         (''tenant_id'', GStr tenant), (''success'', GBool (tr_success t)),
         (''output'', map_or_nil (tr_output t)), (''error'', GStr (tr_error t)),
         (''duration_ms'', GInt (milliseconds (tr_duration t))),
         (''executed_at'', GStr (format_rfc3339 (tr_executed t))),
         (''data'', GMap [(''input'', map_or_nil (tr_input t)), (''output'', map_or_nil (tr_output t)),
            (''metadata'', GMap [(''started_at'', GStr (format_rfc3339 (tr_started t))),
               (''completed_at'', GStr (format_rfc3339 (tr_executed t))),
               (''duration_ms'', GInt (milliseconds (tr_duration t))),
               (''task_type'', GStr (tr_type t)), (''activity_name'', GStr ''executor_activity'')])])]\<rparr>"

definition process_task_event ::
  "try_env \<Rightarrow> time \<Rightarrow> cloud_event \<Rightarrow> cloud_event list \<times> (failure, unit) result" where
  "process_task_event env now e =
     (case parse_task_request e of
        Inl err \<Rightarrow> ([], Inl (Failed (''failed to parse task request: '' @ err)))
      | Inr r \<Rightarrow>
          (case registry env (rq_type r) of
             None \<Rightarrow> ([], Inl (Failed (''no executor found for task type: '' @ rq_type r)))
           | Some f \<Rightarrow>
               (case f r of
                  (es, Inl Panicked) \<Rightarrow> (es, Inl Panicked)
                | (es, Inl (Failed err)) \<Rightarrow> (es, Inl (Failed (''task execution failed: '' @ err)))
                | (es, Inr t) \<Rightarrow>
                    (case ye_pub env (result_event now (ev_tenant e) t) of
                       None \<Rightarrow> (es @ [result_event now (ev_tenant e) t], Inr ())
                     | Some err \<Rightarrow>
                         (es, Inl (Failed (''failed to publish task completed event: failed to publish task completed event: '' @ err)))))))"

subsection \<open>The loop\<close>

definition task_dead_letter :: "string \<Rightarrow> cloud_event \<Rightarrow> cloud_event" where
  "task_dead_letter err e = dlq_event ''io.flunq.task.dlq'' (''task_execution_failed:'' @ err) e"

definition exec_send :: "(exec_out \<Rightarrow> string option) \<Rightarrow> exec_out \<Rightarrow> exec_out list" where
  "exec_send fault x = fst (send fault x)"

definition acknowledge_event :: "(exec_out \<Rightarrow> string option) \<Rightarrow> cloud_event \<Rightarrow> exec_out list" where
  "acknowledge_event fault e = (if ack_id e = [] then [] else exec_send fault (XAck (ack_id e)))"

definition task_crashes :: "try_env \<Rightarrow> time \<Rightarrow> cloud_event \<Rightarrow> bool" where
  "task_crashes env now e \<longleftrightarrow> snd (process_task_event env now e) = Inl Panicked"

definition task_handle :: "try_env \<Rightarrow> time \<Rightarrow> cloud_event \<Rightarrow> exec_out list \<times> string option" where
  "task_handle env now e =
     (map XEmit (fst (process_task_event env now e)),
      case snd (process_task_event env now e) of Inl (Failed err) \<Rightarrow> Some err | _ \<Rightarrow> None)"

definition task_consume ::
  "(exec_out \<Rightarrow> string option) \<Rightarrow> try_env \<Rightarrow> time \<Rightarrow> cloud_event \<Rightarrow> exec_out list" where
  "task_consume fault env now e =
     (case process_task_event env now e of
        (es, Inl Panicked) \<Rightarrow> map XEmit es
      | (es, Inl (Failed err)) \<Rightarrow>
          map XEmit es @ exec_send fault (XEmit (task_dead_letter err e)) @ acknowledge_event fault e
      | (es, Inr _) \<Rightarrow> map XEmit es @ acknowledge_event fault e)"

interpretation executor: crashing_consumer "task_handle env now" "\<lambda>e. exec_send fault (XEmit e)"
    "\<lambda>k. exec_send fault (XAck k)" task_dead_letter "task_crashes env now" "task_consume fault env now"
  for env now fault
  by unfold_locales
    (auto simp: task_consume_def task_handle_def task_crashes_def acknowledge_event_def ack_id_def
      split: prod.splits sum.splits failure.splits)

subsection \<open>Settings\<close>

definition task_filters :: stream_filters where
  "task_filters = \<lparr>flt_types = [''io.flunq.task.requested''], flt_workflows = [], flt_sources = []\<rparr>"

end
