(* ===== verification/Executor_Laws.thy ===== *)
theory Executor_Laws
  imports Task_Processor Engine_Laws
begin

text \<open>
  Correctness of the executor service and of its contract with the engine: a task that is
  handled is answered by exactly one completion under the ids of the request, its output
  arrives in the variables of the workflow, every message is acknowledged unless the service
  crashes; and what becomes of tasks that end in an error, in a scheduled retry or in a panic.
\<close>

subsection \<open>Completions\<close>

context task_executor
begin

lemma completion_ids:
  "execute r = Inr t \<Longrightarrow> ev_task (result_event now tenant t) = rq_task r \<and>
    ev_workflow (result_event now tenant t) = rq_workflow r \<and>
    ev_execution (result_event now tenant t) = rq_execution r \<and>
    ev_id (result_event now tenant t) = ''task-completed-'' @ rq_task r"
  using ids [of r t] by (simp add: result_event_def)

end

lemma result_event_fields [simp]:
  "ev_type (result_event now tenant t) = ''io.flunq.task.completed''"
  "ev_tenant (result_event now tenant t) = tenant" "ev_time (result_event now tenant t) = now"
  "ev_source (result_event now tenant t) = ''executor-service''"
  "ev_workflow (result_event now tenant t) = tr_workflow t"
  "ev_execution (result_event now tenant t) = tr_execution t" "ev_task (result_event now tenant t) = tr_task t"
  by (simp_all add: result_event_def)

lemma retry_scheduled_event_type [simp]:
  "ev_type (retry_scheduled_event now u r d k) = ''io.flunq.timer.scheduled''"
  by (simp add: retry_scheduled_event_def Let_def)

lemma try_loop_events: "x \<in> set (fst (try_loop env r config attempts)) \<Longrightarrow> ev_type x = ''io.flunq.timer.scheduled''"
proof (induction "nat (5 - attempts)" arbitrary: attempts)
  case 0
  then show ?case by (simp add: try_loop_end)
next
  case (Suc k)
  then have a: "attempts < 5" and ih: "x \<in> set (fst (try_loop env r config (attempts + 1))) \<Longrightarrow> ?case"
    by linarith (use Suc in \<open>auto intro!: Suc.hyps(1)\<close>)
  show ?case
    using Suc.prems ih unfolding try_loop_step [OF a] Let_def
    by (auto simp: schedule_retry_def Let_def
        split: sum.splits failure.splits error_action.splits if_splits option.splits)
qed

lemma registry_events:
  "registry env ty = Some f \<Longrightarrow> x \<in> set (fst (f r)) \<Longrightarrow> ev_type x = ''io.flunq.timer.scheduled''"
  by (auto simp: registry_def try_execute_def split: if_splits sum.splits dest: try_loop_events)

lemma registry_result_events:
  "registry env ty = Some f \<Longrightarrow> f r = (es, res) \<Longrightarrow> x \<in> set es \<Longrightarrow> ev_type x = ''io.flunq.timer.scheduled''"
  using registry_events [of env ty f x r] by simp

text \<open>C22: A task of type call, set, wait or inject that is handled without error is answered by
  exactly one event, the completion of its result, with the task, workflow and execution ids of
  the request and the tenant of the event; nothing else is published.\<close>

theorem one_completion_per_task:
  assumes "process_task_event env now e = (outs, Inr ())" and "parse_task_request e = Inr r"
    and "rq_type r \<noteq> ''try''"
  shows "\<exists>t. outs = [result_event now (ev_tenant e) t] \<and> same_task r t"
proof -
  obtain f where f: "basic_executor (ye_exec env 1) (rq_type r) = Some f"
    using assms by (auto simp: process_task_event_def registry_def split: option.splits)
  then obtain t where "f r = Inr t" "outs = [result_event now (ev_tenant e) t]"
    using assms by (auto simp: process_task_event_def registry_def split: sum.splits failure.splits option.splits)
  with f basic_executor_same show ?thesis by blast
qed

definition demo_task_event :: "string \<Rightarrow> gmap \<Rightarrow> gmap \<Rightarrow> cloud_event" where
  "demo_task_event ty input params =
     empty_event\<lparr>ev_id := ''e1'', ev_type := ''io.flunq.task.requested'', ev_tenant := ''t'',
       ev_workflow := ''wf'', ev_execution := ''ex'',
       ev_ext := Some [(''ack_key'', GStr ''s|1-0'')],
       ev_data := GMap [(''task_id'', GStr ''task-fetch-1''), (''task_name'', GStr ''fetch''),
         (''task_type'', GStr ty), (''input'', GMap input),
         (''config'', GMap [(''timeout'', GFloat 300), (''retries'', GFloat 3), (''parameters'', GMap params)])]\<rparr>"

lemma f64_300: "wrap64 (int64_of_f64 300 * 1000000000) = 300000000000" "int64_of_f64 3 = 3"
  using int64_of_f64_of_int [of 300] int64_of_f64_of_int [of 3] by simp_all

lemma demo_task_parsed:
  "parse_task_request (demo_task_event ty input params) = Inr ((demo_request input params)\<lparr>rq_type := ty\<rparr>)"
  by (simp add: parse_task_request_def demo_task_event_def demo_request_def string_from_data_def
      parse_task_config_def get_defs f64_300)

theorem one_completion_per_task_witness:
  "\<exists>outs t. process_task_event (demo_try_env 200) 5 (demo_task_event ''set'' [] []) = (outs, Inr ()) \<and>
     outs = [result_event 5 ''t'' t] \<and> tr_task t = ''task-fetch-1''"
proof -
  let ?r = "(demo_request [] [])\<lparr>rq_type := ''set''\<rparr>"
  obtain outs where o: "process_task_event (demo_try_env 200) 5 (demo_task_event ''set'' [] []) = (outs, Inr ())"
    by (simp add: process_task_event_def demo_task_parsed registry_def basic_executor_def set_execute_def
        demo_try_env_def)
  from one_completion_per_task [OF o demo_task_parsed] obtain t where
    "outs = [result_event 5 (ev_tenant (demo_task_event ''set'' [] [])) t]" "same_task ?r t" by auto
  with o show ?thesis by (auto simp: same_task_def demo_request_def demo_task_event_def)
qed

subsection \<open>Into the state of the workflow\<close>

text \<open>The data of a completion as the engine receives it.\<close>

lemma result_event_wire:
  assumes "to_wire (map_or_nil (tr_input t)) = Some i" and "to_wire (map_or_nil (tr_output t)) = Some out"
    and "to_wire (ev_data (result_event now tenant t)) = Some (GMap d)"
  shows "get_str d ''task_name'' = Some (tr_name t)" "get_bool d ''success'' = Some (tr_success t)"
    "get_str d ''error'' = Some (tr_error t)"
    "\<exists>td. get_map d ''data'' = Some td \<and> get_any td ''output'' = out \<and> get_any td ''input'' = i"
  using assms by (auto simp: result_event_def get_defs bind_eq_Some_conv)

lemma completed_fields:
  assumes "get_str d ''task_name'' = Some n" and "n \<noteq> []" and "get_bool d ''success'' = Some b"
  shows "completed_task_name d = n" "task_success d = b"
  using assms by (simp_all add: completed_task_name_def str_or_empty_def task_success_def)

text \<open>C13: The output of a successful task arrives. When the completion event of the result goes
  through the event stream and is applied by the engine, the task is in the list of completed
  tasks, one pending entry of it is gone, and the variables of the workflow are updated by the
  output of the task, in the form it has after JSON.\<close>

theorem result_reaches_state:
  assumes "tr_success t" and "tr_output t = Some m" and "wire_map m = Some m'" and "tr_name t \<noteq> []"
    and "to_wire (map_or_nil (tr_input t)) = Some i"
    and "to_wire (ev_data (result_event now tenant t)) = Some (GMap d)"
  shows "ws_vars (process_task_completed s (wire_event (GMap d) (result_event now tenant t))) =
      Some (merge_into (vars_of s) m') \<and>
    tr_name t \<in> ct_name ` set (ws_completed (process_task_completed s (wire_event (GMap d) (result_event now tenant t)))) \<and>
    ws_pending (process_task_completed s (wire_event (GMap d) (result_event now tenant t))) =
      remove_first (\<lambda>p. pt_name p = tr_name t) (ws_pending s)"
proof -
  have out: "to_wire (map_or_nil (tr_output t)) = Some (GMap m')" using assms(2,3) by (simp add: map_or_nil_def)
  note w = result_event_wire [OF assms(5) out assms(6)]
  from w(4) obtain td where td: "get_map d ''data'' = Some td" "get_any td ''output'' = GMap m'" by blast
  have "td_output (task_data_of_event x d) = Some m'" for x
    using td wire_map_idem [OF assms(3)] by (simp add: task_data_of_event_def Let_def map_to_struct_def)
  then show ?thesis
    using assms(1) completed_fields [OF w(1) assms(4) w(2)]
    by (simp add: process_task_completed_def complete_task_def Let_def vars_of_def list_ex_image)
qed

definition demo_result :: task_result where
  "demo_result = result_of demo_clock (demo_request [] []) True (Some []) [(''name'', GStr ''cat'')] []"

lemma demo_result_fields:
  "tr_success demo_result" "tr_output demo_result = Some [(''name'', GStr ''cat'')]"
  "wire_map [(''name'', GStr ''cat'')] = Some [(''name'', GStr ''cat'')]" "tr_name demo_result \<noteq> []"
  "to_wire (map_or_nil (tr_input demo_result)) = Some (GMap [])" "tr_name demo_result = ''fetch''"
  by (simp_all add: demo_result_def map_or_nil_def demo_request_def)

lemma result_event_wire_ex:
  assumes "to_wire (map_or_nil (tr_input t)) = Some i" and "to_wire (map_or_nil (tr_output t)) = Some out"
  shows "\<exists>d. to_wire (ev_data (result_event now tenant t)) = Some (GMap d)"
  using assms by (simp add: result_event_def)

theorem result_reaches_state_witness:
  "\<exists>d. to_wire (ev_data (result_event 0 ''t'' demo_result)) = Some (GMap d) \<and>
     ws_vars (process_task_completed (empty_state demo_definition)
       (wire_event (GMap d) (result_event 0 ''t'' demo_result))) = Some [(''name'', GStr ''cat'')]"
proof -
  have "to_wire (map_or_nil (tr_output demo_result)) = Some (GMap [(''name'', GStr ''cat'')])"
    by (simp add: demo_result_fields map_or_nil_def)
  then obtain d where d: "to_wire (ev_data (result_event 0 ''t'' demo_result)) = Some (GMap d)"
    using result_event_wire_ex demo_result_fields(5) by blast
  with result_reaches_state [OF demo_result_fields(1-5) d, of "empty_state demo_definition"]
  show ?thesis by (auto simp: vars_of_def empty_state_def)
qed

text \<open>C36: A scheduled retry fails the workflow. The result of a try task that has only scheduled a
  timer for its next attempt is published as a completion that is not a success, and the engine
  marks the whole workflow as failed when it applies it, long before the retry is due.\<close>

theorem scheduled_retry_fails_workflow:
  assumes "rq_name r \<noteq> []" and "to_wire (map_or_nil (rq_input r)) = Some i"
    and "to_wire (ev_data (result_event now tenant (retry_scheduled_result ck r delay k))) = Some (GMap d)"
  shows "ws_status (process_task_completed s
      (wire_event (GMap d) (result_event now tenant (retry_scheduled_result ck r delay k)))) = WFailed"
proof -
  let ?t = "retry_scheduled_result ck r delay k"
  have "tr_input ?t = rq_input r" "tr_success ?t = False" "tr_name ?t = rq_name r"
    by (simp_all add: retry_scheduled_result_def)
  moreover obtain out where "to_wire (map_or_nil (tr_output ?t)) = Some out"
    by (simp add: retry_scheduled_result_def map_or_nil_def)
  ultimately have "task_success d = False"
    using result_event_wire(1,2) [of ?t i out now tenant d] completed_fields(2) assms by metis
  then show ?thesis by (simp add: process_task_completed_def fail_task_def Let_def)
qed

theorem scheduled_retry_fails_workflow_witness:
  "\<exists>d. to_wire (ev_data (result_event 0 ''t'' (retry_scheduled_result demo_clock (demo_request [] []) 2000000000 1))) = Some (GMap d) \<and>
     ws_status (process_task_completed (empty_state demo_definition)
       (wire_event (GMap d) (result_event 0 ''t'' (retry_scheduled_result demo_clock (demo_request [] []) 2000000000 1)))) = WFailed"
proof -
  let ?t = "retry_scheduled_result demo_clock (demo_request [] []) 2000000000 1"
  have i: "rq_name (demo_request [] []) \<noteq> []" "to_wire (map_or_nil (rq_input (demo_request [] []))) = Some (GMap [])"
    by (simp_all add: demo_request_def map_or_nil_def)
  obtain out where "to_wire (map_or_nil (tr_output ?t)) = Some out"
    by (simp add: retry_scheduled_result_def map_or_nil_def)
  moreover have "to_wire (map_or_nil (tr_input ?t)) = Some (GMap [])"
    using i(2) by (simp add: retry_scheduled_result_def)
  ultimately obtain d where d: "to_wire (ev_data (result_event 0 ''t'' ?t)) = Some (GMap d)"
    using result_event_wire_ex by blast
  with scheduled_retry_fails_workflow [OF i d, of "empty_state demo_definition"] show ?thesis by blast
qed

subsection \<open>Errors, panics and acknowledgements\<close>

lemma process_error_events:
  assumes "snd (process_task_event env now e) = Inl f" and "x \<in> set (fst (process_task_event env now e))"
  shows "ev_type x = ''io.flunq.timer.scheduled''"
  using assms
  by (auto simp: process_task_event_def split: sum.splits option.splits failure.splits prod.splits
      dest: registry_result_events)


lemma demo_call_parsed:
  "parse_task_request (demo_task_event ''call'' input params) = Inr (demo_request input params)"
  "rq_type (demo_request input params) = ''call''"
  unfolding demo_task_parsed by (simp_all add: demo_request_def)

lemma demo_openapi_event_fails:
  "process_task_event (demo_try_env 503) 5 (demo_task_event ''call'' [] demo_openapi) =
     ([], Inl (Failed (''task execution failed: '' @ http_status_error 503)))"
  by (simp add: process_task_event_def demo_call_parsed registry_def basic_executor_def
      demo_try_env_def demo_exec_env_def demo_call_fails)


text \<open>The executor acknowledges every message it has been given, successes and failures alike,
  as the last thing it does, unless the execution of the task brings the process down.\<close>

theorem task_message_acknowledged:
  assumes "\<not> task_crashes env now e" and "ext_str e ''ack_key'' = Some k" and "k \<noteq> []"
    and "fault (XAck k) = None"
  shows "\<exists>outs. task_consume fault env now e = outs @ [XAck k]"
  using executor.acked_unless_crash [OF assms(1-3), of fault] assms(4) by (simp add: exec_send_def)

theorem task_message_acknowledged_witness:
  "\<exists>outs. task_consume (\<lambda>_. None) (demo_try_env 503) 5 (demo_task_event ''call'' [] demo_openapi) = outs @ [XAck ''s|1-0'']"
proof (rule task_message_acknowledged)
  show "\<not> task_crashes (demo_try_env 503) 5 (demo_task_event ''call'' [] demo_openapi)"
    by (simp add: task_crashes_def demo_openapi_event_fails)
qed (simp_all add: ext_str_def get_extension_def demo_task_event_def)

text \<open>A task that panics is not dealt with at all. When a call is configured with an output
  expression that has its brackets in the wrong order, \<open>.a][\<close>, and the operation has been
  answered, the service goes down without publishing anything and without acknowledging the
  message, which is delivered again to the next process that takes it over.\<close>

theorem panic_leaves_message_pending:
  assumes "parse_task_request e = Inr r" and "rq_type r = ''call''"
    and "Option.bind (rq_config r) tk_params = Some params" and "parse_call_config params = Inr c"
    and "validate_call c = None" and "is_openapi_call c" and "cf_params c = None"
    and "ce_openapi (xe_call (ye_exec env 1)) c = (Some s, err)"
    and "rq_input r = Some input"
    and "map_of input ''output_config'' = Some (GStr (CHR ''.'' # a @ '']['' ))"
    and "CHR ''.'' \<notin> set a" and "CHR ''['' \<notin> set a" and "CHR '']'' \<notin> set a"
  shows "task_crashes env now e \<and> task_consume fault env now e = []"
proof -
  have "call_execute (xe_call (ye_exec env 1)) r = Inl Panicked"
    using reversed_brackets_panic [OF assms(4,5,6,7,8,10-13,9,3)] .
  with assms(1,2) show ?thesis
    by (simp add: task_crashes_def task_consume_def process_task_event_def registry_def basic_executor_def)
qed

theorem panic_leaves_message_pending_witness:
  "task_consume (\<lambda>_. None) (demo_try_env 200) 5
     (demo_task_event ''call'' [(''output_config'', GStr ''.content]['')] demo_openapi) = []"
proof -
  let ?i = "[(''output_config'', GStr ''.content]['')]"
  have "ce_openapi (xe_call (ye_exec (demo_try_env 200) 1)) demo_call = (Some (demo_response 200), None)"
    "rq_input (demo_request ?i demo_openapi) = Some ?i" "cf_params demo_call = None"
    by (simp_all add: demo_try_env_def demo_exec_env_def demo_call_env_def demo_request_def demo_call_def is_success_def)
  with panic_leaves_message_pending [OF demo_call_parsed demo_params demo_openapi_parsed demo_call_valid,
      where a = "''content''"] show ?thesis by simp
qed

end
