(* ===== verification/Call_Errors.thy ===== *)
theory Call_Errors
  imports Call_Executor Error_Handler
begin

text \<open>
  The structured error that the call executor makes of a failure
  (\<^verbatim>\<open>createWorkflowError\<close> of \<^verbatim>\<open>call_task_executor.go\<close>), of which only the text gets
  into the result, and how its classification relates to the one of the error handler.
\<close>

text \<open>The status in the text of an error, by the first pattern that matches. The error handler has the
  same patterns, and gets the same status; the last of them is never the one.\<close>

definition status_patterns :: "(string \<times> string) list" where
  "status_patterns = [(''status '', []), (''HTTP '', []), ([], '' status''), (''failed with status '', [])]"

fun first_status :: "(string \<times> string) list \<Rightarrow> string \<Rightarrow> int" where
  "first_status [] msg = 500"
| "first_status ((pre, post) # ps) msg =
     (case find_status pre post msg of Some n \<Rightarrow> n | None \<Rightarrow> first_status ps msg)"

definition call_http_status :: "string \<Rightarrow> int" where
  "call_http_status msg = first_status status_patterns msg"

lemma same_status [simp]: "call_http_status msg = extract_http_status msg"
  by (simp add: call_http_status_def status_patterns_def extract_http_status_def split: option.split)

lemma status_at_found:
  "status_at pre post s \<noteq> None \<longleftrightarrow>
     (\<exists>r. s = pre @ r \<and> length (take 3 r) = 3 \<and> list_all is_digit (take 3 r) \<and> has_prefix (drop 3 r) post)"
  by (auto simp: status_at_def Let_def has_prefix_iff)

lemma find_status_drop: "status_at pre post (drop n msg) \<noteq> None \<Longrightarrow> find_status pre post msg \<noteq> None"
proof (induction msg arbitrary: n)
  case (Cons c cs)
  then show ?case by (cases n) (auto split: option.splits)
qed simp

lemma last_pattern_unused: "find_status ''failed with status '' [] msg \<noteq> None \<Longrightarrow> find_status ''status '' [] msg \<noteq> None"
proof (induction msg)
  case (Cons c cs)
  show ?case
  proof (cases "status_at ''failed with status '' [] (c # cs)")
    case None
    with Cons show ?thesis by (auto split: option.splits)
  next
    case (Some n)
    then have "status_at ''failed with status '' [] (c # cs) \<noteq> None" by simp
    then obtain r where r: "c # cs = ''failed with status '' @ r" "length (take 3 r) = 3" "list_all is_digit (take 3 r)"
      "has_prefix (drop 3 r) []"
      unfolding status_at_found by blast
    from r(1) have "drop 12 (c # cs) = ''status '' @ r" by simp
    with r(2-4) have "status_at ''status '' [] (drop 12 (c # cs)) \<noteq> None" unfolding status_at_found by blast
    then show ?thesis by (rule find_status_drop)
  qed
qed (simp add: status_at_def)

definition call_error_type :: "string \<Rightarrow> int \<Rightarrow> string" where
  "call_error_type msg status =
     (let m = to_lower msg
      in error_uri
        (if contains m ''timeout'' \<or> contains m ''deadline'' then ''timeout''
         else if contains m ''unauthorized'' \<or> status = 401 then ''authentication''
         else if contains m ''forbidden'' \<or> status = 403 then ''authorization''
         else if contains m ''validation'' \<or> contains m ''invalid'' \<or> status = 400 then ''validation''
         else if contains m ''configuration'' \<or> contains m ''config'' then ''configuration''
         else if contains m ''connection'' \<or> contains m ''network'' \<or> contains m ''http'' \<or> 500 \<le> status
           then ''communication''
         else ''runtime''))"

text \<open>What was called: the document of an OpenAPI call that has one, else URL and method; nothing
  where the configuration cannot be read.\<close>

definition call_endpoint :: "task_request \<Rightarrow> string \<times> string" where
  "call_endpoint t =
     (case Option.bind (rq_config t) tk_params of
        None \<Rightarrow> ([], [])
      | Some ps \<Rightarrow>
          (case parse_call_config ps of
             Inl _ \<Rightarrow> ([], [])
           | Inr c \<Rightarrow>
               (case cf_document c of
                  Some d \<Rightarrow> if is_openapi_call c then (d, ''OpenAPI'') else (cf_url c, cf_method c)
                | None \<Rightarrow> (cf_url c, cf_method c))))"

definition create_workflow_error :: "string \<Rightarrow> task_request \<Rightarrow> workflow_error" where
  "create_workflow_error msg t =
     (let status = call_http_status msg; (endpoint, meth) = call_endpoint t
      in \<lparr>er_type = call_error_type msg status, er_status = status,
          er_instance = ''/tasks/'' @ rq_task t, er_title = ''API Call Failed'', er_detail = msg,
          er_data = Some [(''task_id'', GStr (rq_task t)), (''task_type'', GStr (rq_type t)),
                          (''endpoint'', GStr endpoint), (''method'', GStr meth)]\<rparr>)"

lemma created_error_text: "msg \<noteq> [] \<Longrightarrow> error_text (create_workflow_error msg t) = msg"
  by (simp add: error_text_def create_workflow_error_def split_beta Let_def)

text \<open>The call executor and the error handler read the same status off a message, and give it
  the same type of error, unless its status is 400 or it mentions an expression.\<close>
theorem classifiers_agree:
  "er_status (create_workflow_error msg t) = er_status (to_workflow_error (Some (Plain msg))) \<and>
   (er_type (create_workflow_error msg t) = er_type (to_workflow_error (Some (Plain msg))) \<or>
    extract_http_status msg = 400 \<or> contains (to_lower msg) ''expression'')"
  by (auto simp: create_workflow_error_def to_workflow_error_def call_error_type_def
      determine_error_type_def split_beta Let_def)

text \<open>Each exception is one: the type differs.\<close>

lemma classifiers_differ:
  "call_error_type ''HTTP 400'' 400 = error_uri ''validation''"
  "determine_error_type ''HTTP 400'' 400 = error_uri ''communication''"
  "call_error_type ''bad expression over http'' 500 = error_uri ''communication''"
  "determine_error_type ''bad expression over http'' 500 = error_uri ''expression''"
  by code_simp+

end
