(* ===== verification/Go_Url.thy ===== *)
theory Go_Url
  imports Go_Strings "HOL-Library.Char_ord" "HOL-Library.List_Lexorder"
begin

text \<open>
  What the program uses of \<^verbatim>\<open>net/url\<close> and of \<^verbatim>\<open>strings\<close> to build request addresses: query
  escaping, \<^verbatim>\<open>url.Values\<close> (pairs in the order they were added, which \<^verbatim>\<open>Encode\<close> sorts by key),
  \<^verbatim>\<open>ParseQuery\<close>, cutting an address at its query and fragment, and \<^verbatim>\<open>strings.ReplaceAll\<close>.
\<close>

subsection \<open>Escaping\<close>

definition is_unreserved :: "char \<Rightarrow> bool" where
  "is_unreserved c \<longleftrightarrow>
     (let n = of_char c :: nat in (48 \<le> n \<and> n \<le> 57) \<or> (65 \<le> n \<and> n \<le> 90) \<or> (97 \<le> n \<and> n \<le> 122)) \<or>
     c = CHR ''-'' \<or> c = CHR ''_'' \<or> c = CHR ''.'' \<or> c = CHR ''~''"

definition hex_char :: "nat \<Rightarrow> char" where
  "hex_char n = (if n < 10 then char_of (48 + n) else char_of (55 + n))"

definition hex_val :: "char \<Rightarrow> nat option" where
  "hex_val c =
     (let n = of_char c in
      if 48 \<le> n \<and> n \<le> 57 then Some (n - 48)
      else if 65 \<le> n \<and> n \<le> 70 then Some (n - 55)
      else if 97 \<le> n \<and> n \<le> 102 then Some (n - 87)
      else None)"

fun query_escape :: "string \<Rightarrow> string" where
  "query_escape [] = []"
| "query_escape (c # cs) =
     (if is_unreserved c then [c]
      else if c = CHR '' '' then ''+''
      else [CHR ''%'', hex_char (of_char c div 16), hex_char (of_char c mod 16)]) @ query_escape cs"

fun query_unescape :: "string \<Rightarrow> string option" where
  "query_unescape [] = Some []"
| "query_unescape (c # cs) =
     (if c = CHR ''%'' then
        (case cs of
           a # b # ds \<Rightarrow>
             (case (hex_val a, hex_val b) of
                (Some h, Some l) \<Rightarrow> map_option ((#) (char_of (16 * h + l))) (query_unescape ds)
              | _ \<Rightarrow> None)
         | _ \<Rightarrow> None)
      else map_option ((#) (if c = CHR ''+'' then CHR '' '' else c)) (query_unescape cs))"

lemma high_nibble: "of_char (c :: char) div 16 < (16::nat)"
  using nat_of_char_less_256 [of c] by (simp add: less_mult_imp_div_less)

lemma hex_val_hex_char: "n < 16 \<Longrightarrow> hex_val (hex_char n) = Some n"
  by (auto simp: hex_val_def hex_char_def Let_def)

lemma unescape_escape: "query_unescape (query_escape s) = Some s"
proof (induction s)
  case Nil
  show ?case by simp
next
  case (Cons c cs)
  have "char_of (16 * (of_char c div 16 :: nat) + of_char c mod 16) = c"
    by (simp add: mult_div_mod_eq)
  moreover have "is_unreserved c \<Longrightarrow> c \<noteq> CHR ''%'' \<and> c \<noteq> CHR ''+''"
    by (auto simp: is_unreserved_def)
  ultimately show ?case
    using Cons.IH by (simp add: hex_val_hex_char high_nibble)
qed

text \<open>Nothing but unreserved characters, plus and percent is written.\<close>

lemma hex_char_unreserved: "n < 16 \<Longrightarrow> is_unreserved (hex_char n)"
  by (auto simp: is_unreserved_def hex_char_def Let_def)

lemma set_query_escape: "c \<in> set (query_escape s) \<Longrightarrow> is_unreserved c \<or> c = CHR ''+'' \<or> c = CHR ''%''"
proof (induction s)
  case (Cons d ds)
  show ?case
    using Cons high_nibble [of d] by (auto simp: hex_char_unreserved split: if_splits)
qed simp

lemma query_escape_separators [simp]:
  "CHR ''&'' \<notin> set (query_escape s)" "CHR ''='' \<notin> set (query_escape s)"
  "CHR '';'' \<notin> set (query_escape s)" "CHR ''#'' \<notin> set (query_escape s)"
  "CHR ''?'' \<notin> set (query_escape s)"
  by (auto dest!: set_query_escape simp: is_unreserved_def)

subsection \<open>Values\<close>

type_synonym url_values = "(string \<times> string) list"

definition encode_pair :: "string \<times> string \<Rightarrow> string" where
  "encode_pair p = query_escape (fst p) @ CHR ''='' # query_escape (snd p)"

definition encode_values :: "url_values \<Rightarrow> string" where
  "encode_values q = join_with (CHR ''&'') (map encode_pair (sort_key fst q))"

definition parse_pair :: "string \<Rightarrow> (string \<times> string) option" where
  "parse_pair s =
     (if CHR '';'' \<in> set s \<or> s = [] then None
      else
        let (k, v) = (case split_n2 (CHR ''='') s of [a, b] \<Rightarrow> (a, b) | _ \<Rightarrow> (s, []))
        in case (query_unescape k, query_unescape v) of
             (Some k', Some v') \<Rightarrow> Some (k', v')
           | _ \<Rightarrow> None)"

definition parse_query :: "string \<Rightarrow> url_values" where
  "parse_query s = List.map_filter parse_pair (split_on (CHR ''&'') s)"

lemma parse_encode_pair [simp]: "parse_pair (encode_pair p) = Some p"
  by (simp add: parse_pair_def encode_pair_def split_n2_append unescape_escape)

lemma parse_encode_values: "parse_query (encode_values q) = sort_key fst q"
proof (cases "sort_key fst q")
  case Nil
  then show ?thesis by (simp add: parse_query_def encode_values_def map_filter_simps parse_pair_def)
next
  case (Cons p ps)
  let ?ws = "map encode_pair (sort_key fst q)"
  have "split_on (CHR ''&'') (join_with (CHR ''&'') ?ws) = ?ws"
    using Cons by (intro split_join) (auto simp: encode_pair_def)
  then show ?thesis
    by (simp add: parse_query_def encode_values_def map_filter_def comp_def)
qed

lemma encode_values_no_fragment: "CHR ''#'' \<notin> set (encode_values q)"
proof -
  have "CHR ''#'' \<notin> set (join_with (CHR ''&'') (map encode_pair ps))" for ps
    by (induction ps rule: induct_list012) (auto simp: encode_pair_def)
  then show ?thesis by (simp add: encode_values_def)
qed

subsection \<open>Addresses\<close>

text \<open>\<^verbatim>\<open>url.Parse\<close> takes the fragment off first and then the query.\<close>

definition cut_at :: "char \<Rightarrow> string \<Rightarrow> string \<times> string option" where
  "cut_at c s = (case split_n2 c s of [a, b] \<Rightarrow> (a, Some b) | _ \<Rightarrow> (s, None))"

definition url_query :: "string \<Rightarrow> string" where
  "url_query u = (case snd (cut_at (CHR ''?'') (fst (cut_at (CHR ''#'') u))) of None \<Rightarrow> [] | Some q \<Rightarrow> q)"

definition set_url_query :: "string \<Rightarrow> string \<Rightarrow> string" where
  "set_url_query q u =
     (let (rest, fragment) = cut_at (CHR ''#'') u
      in fst (cut_at (CHR ''?'') rest) @ (if q = [] then [] else CHR ''?'' # q) @
         (case fragment of None \<Rightarrow> [] | Some f \<Rightarrow> CHR ''#'' # f))"

lemma cut_at_append: "c \<notin> set w \<Longrightarrow> cut_at c (w @ c # s) = (w, Some s)"
  by (simp add: cut_at_def split_n2_append)

lemma cut_at_none: "c \<notin> set s \<Longrightarrow> cut_at c s = (s, None)"
  by (simp add: cut_at_def split_n2_no_sep)

lemma cut_at_clean: "c \<notin> set (fst (cut_at c s))"
proof (cases "c \<in> set s")
  case True
  then obtain a b where "s = a @ c # b" "c \<notin> set a"
    using split_list_first by fastforce
  then show ?thesis by (simp add: cut_at_append)
qed (simp add: cut_at_none)

lemma cut_at_subset: "set (fst (cut_at c s)) \<subseteq> set s"
proof (cases "c \<in> set s")
  case True
  then obtain a b where "s = a @ c # b" "c \<notin> set a"
    using split_list_first by fastforce
  then show ?thesis by (auto simp: cut_at_append)
qed (simp add: cut_at_none)

lemma url_query_set: "CHR ''#'' \<notin> set q \<Longrightarrow> url_query (set_url_query q u) = q"
proof -
  assume q: "CHR ''#'' \<notin> set q"
  obtain rest frag where u: "cut_at (CHR ''#'') u = (rest, frag)" by fastforce
  define path where "path = fst (cut_at (CHR ''?'') rest)"
  have clean: "CHR ''#'' \<notin> set path" "CHR ''?'' \<notin> set path"
    using cut_at_clean [of "CHR ''#''" u] u cut_at_subset [of "CHR ''?''" rest]
      cut_at_clean [of "CHR ''?''" rest] by (auto simp: path_def)
  have "fst (cut_at (CHR ''#'') (set_url_query q u)) = path @ (if q = [] then [] else CHR ''?'' # q)"
    using clean q u
    by (cases frag) (simp_all add: set_url_query_def path_def cut_at_none
        cut_at_append [of _ "_ @ _", simplified] cut_at_append)
  then show ?thesis
    using clean by (auto simp: url_query_def cut_at_append cut_at_none)
qed

subsection \<open>Replacing\<close>

text \<open>\<^verbatim>\<open>strings.ReplaceAll(s, old, new)\<close> for a non-empty \<open>old\<close>: from left to right, without
  overlaps, the text put in is not searched again.\<close>

function replace_all :: "string \<Rightarrow> string \<Rightarrow> string \<Rightarrow> string" where
  "replace_all old new [] = []"
| "replace_all old new (c # cs) =
     (if old \<noteq> [] \<and> has_prefix (c # cs) old then new @ replace_all old new (drop (length old) (c # cs))
      else c # replace_all old new cs)"
  by pat_completeness auto
termination by (relation "measure (\<lambda>(_, _, s). length s)") auto

lemma replace_all_skip:
  "o1 \<notin> set a \<Longrightarrow> replace_all (o1 # os) new (a @ s) = a @ replace_all (o1 # os) new s"
  by (induction a) (auto simp: has_prefix_iff)

lemma replace_all_hit:
  "old \<noteq> [] \<Longrightarrow> replace_all old new (old @ s) = new @ replace_all old new s"
  by (cases old) (auto simp: has_prefix_iff)

end
