(* ===== verification/Openapi_Document.thy ===== *)
theory Openapi_Document
  imports Call_Executor Go_Url Go_Time "HOL-Library.AList"
begin

text \<open>
  OpenAPI documents in the executor: the structs of
  \<^verbatim>\<open>executor/internal/executor/openapi_types.go\<close> and their decoding from JSON, and the loader
  of \<^verbatim>\<open>openapi_loader.go\<close>: fetching, telling YAML from JSON, validation, the conversion of
  Swagger 2.0, and the cache with its expiry. The HTTP client and the YAML library are
  arguments; the clock is read where the code reads it.
\<close>

subsection \<open>Structs\<close>

record server_variable =
  sv_default :: string
  sv_description :: string
  sv_enum :: "string list"

record openapi_server =
  sr_url :: string
  sr_description :: string
  sr_variables :: "(string \<times> server_variable) list"

record openapi_parameter =
  op_name :: string
  op_in :: string
  op_description :: string
  op_required :: bool
  op_schema :: "gmap option"
  op_example :: gval
  op_style :: string
  op_explode :: bool

record media_type =
  mt_schema :: "gmap option"
  mt_example :: gval
  mt_examples :: "gmap option"

record openapi_request_body =
  rb_description :: string
  rb_content :: "(string \<times> media_type) list"
  rb_required :: bool

record openapi_header =
  ah_description :: string
  ah_required :: bool
  ah_schema :: "gmap option"
  ah_example :: gval

record response_spec =
  rc_description :: string
  rc_headers :: "(string \<times> openapi_header) list"
  rc_content :: "(string \<times> media_type) list"

record openapi_operation =
  on_id :: string
  on_summary :: string
  on_description :: string
  on_parameters :: "openapi_parameter list"
  on_body :: "openapi_request_body option"
  on_responses :: "(string \<times> response_spec) list"
  on_security :: "(string \<times> string list) list list"
  on_tags :: "string list"
  on_method :: string
  on_path :: string

record openapi_document =
  od_openapi :: string
  od_swagger :: string
  od_info :: "gmap option"
  od_servers :: "openapi_server list"
  od_host :: string
  od_base_path :: string
  od_schemes :: "string list"
  od_paths :: "(string \<times> (string \<times> openapi_operation) list) list"
  od_components :: "gmap option"
  od_definitions :: "gmap option"

subsection \<open>Decoding\<close>

definition decode_server_variable :: "gmap \<Rightarrow> (string, server_variable) result" where
  "decode_server_variable m =
     bind_res (json_string m ''default'') (\<lambda>d.
     bind_res (json_string m ''description'') (\<lambda>t.
     bind_res (json_slice json_text_element (get_any m ''enum'')) (\<lambda>e.
     Inr \<lparr>sv_default = d, sv_description = t, sv_enum = e\<rparr>)))"

definition decode_server :: "gmap \<Rightarrow> (string, openapi_server) result" where
  "decode_server m =
     bind_res (json_string m ''url'') (\<lambda>u.
     bind_res (json_string m ''description'') (\<lambda>t.
     bind_res (json_map_of (json_struct decode_server_variable) (get_any m ''variables'')) (\<lambda>v.
     Inr \<lparr>sr_url = u, sr_description = t, sr_variables = v\<rparr>)))"

definition decode_parameter :: "gmap \<Rightarrow> (string, openapi_parameter) result" where
  "decode_parameter m =
     bind_res (json_string m ''name'') (\<lambda>n.
     bind_res (json_string m ''in'') (\<lambda>i.
     bind_res (json_string m ''description'') (\<lambda>t.
     bind_res (json_bool m ''required'') (\<lambda>r.
     bind_res (json_map m ''schema'') (\<lambda>s.
     bind_res (json_string m ''style'') (\<lambda>y.
     bind_res (json_bool m ''explode'') (\<lambda>e.
     Inr \<lparr>op_name = n, op_in = i, op_description = t, op_required = r, op_schema = s,
          op_example = get_any m ''example'', op_style = y, op_explode = e\<rparr>)))))))"

definition decode_media_type :: "gmap \<Rightarrow> (string, media_type) result" where
  "decode_media_type m =
     bind_res (json_map m ''schema'') (\<lambda>s.
     bind_res (json_map m ''examples'') (\<lambda>e.
     Inr \<lparr>mt_schema = s, mt_example = get_any m ''example'', mt_examples = e\<rparr>))"

definition decode_request_body :: "gmap \<Rightarrow> (string, openapi_request_body) result" where
  "decode_request_body m =
     bind_res (json_string m ''description'') (\<lambda>t.
     bind_res (json_map_of (json_struct decode_media_type) (get_any m ''content'')) (\<lambda>c.
     bind_res (json_bool m ''required'') (\<lambda>r.
     Inr \<lparr>rb_description = t, rb_content = c, rb_required = r\<rparr>)))"

definition decode_header :: "gmap \<Rightarrow> (string, openapi_header) result" where
  "decode_header m =
     bind_res (json_string m ''description'') (\<lambda>t.
     bind_res (json_bool m ''required'') (\<lambda>r.
     bind_res (json_map m ''schema'') (\<lambda>s.
     Inr \<lparr>ah_description = t, ah_required = r, ah_schema = s, ah_example = get_any m ''example''\<rparr>)))"

definition decode_response_spec :: "gmap \<Rightarrow> (string, response_spec) result" where
  "decode_response_spec m =
     bind_res (json_string m ''description'') (\<lambda>t.
     bind_res (json_map_of (json_struct decode_header) (get_any m ''headers'')) (\<lambda>h.
     bind_res (json_map_of (json_struct decode_media_type) (get_any m ''content'')) (\<lambda>c.
     Inr \<lparr>rc_description = t, rc_headers = h, rc_content = c\<rparr>)))"

text \<open>The method and the path of an operation are not read from the document (tag \<^verbatim>\<open>"-"\<close>).\<close>

definition decode_operation :: "gmap \<Rightarrow> (string, openapi_operation) result" where
  "decode_operation m =
     bind_res (json_string m ''operationId'') (\<lambda>i.
     bind_res (json_string m ''summary'') (\<lambda>s.
     bind_res (json_string m ''description'') (\<lambda>t.
     bind_res (json_slice (json_struct decode_parameter) (get_any m ''parameters'')) (\<lambda>p.
     bind_res (json_pointer decode_request_body m ''requestBody'') (\<lambda>b.
     bind_res (json_map_of (json_struct decode_response_spec) (get_any m ''responses'')) (\<lambda>r.
     bind_res (json_slice (json_map_of (json_slice json_text_element)) (get_any m ''security'')) (\<lambda>c.
     bind_res (json_slice json_text_element (get_any m ''tags'')) (\<lambda>g.
     Inr \<lparr>on_id = i, on_summary = s, on_description = t, on_parameters = p, on_body = b,
          on_responses = r, on_security = c, on_tags = g, on_method = [], on_path = []\<rparr>))))))))"

definition decode_document :: "gmap \<Rightarrow> (string, openapi_document) result" where
  "decode_document m =
     bind_res (json_string m ''openapi'') (\<lambda>v.
     bind_res (json_string m ''swagger'') (\<lambda>w.
     bind_res (json_map m ''info'') (\<lambda>i.
     bind_res (json_slice (json_struct decode_server) (get_any m ''servers'')) (\<lambda>s.
     bind_res (json_string m ''host'') (\<lambda>h.
     bind_res (json_string m ''basePath'') (\<lambda>b.
     bind_res (json_slice json_text_element (get_any m ''schemes'')) (\<lambda>c.
     bind_res (json_map_of (json_map_of (json_struct decode_operation)) (get_any m ''paths'')) (\<lambda>p.
     bind_res (json_map m ''components'') (\<lambda>o'.
     bind_res (json_map m ''definitions'') (\<lambda>d.
     Inr \<lparr>od_openapi = v, od_swagger = w, od_info = i, od_servers = s, od_host = h,
          od_base_path = b, od_schemes = c, od_paths = p, od_components = o',
          od_definitions = d\<rparr>))))))))))"

subsection \<open>YAML or JSON\<close>

definition yaml_indicators :: "string list" where
  "yaml_indicators =
     [''openapi:'', ''swagger:'', ''---'', ''info:'', ''paths:'', ''components:'', ''servers:'']"

text \<open>One line of the content: empty lines and comments say nothing.\<close>

definition yaml_line :: "string \<Rightarrow> bool" where
  "yaml_line l =
     (let line = trim_space l
      in line \<noteq> [] \<and> \<not> has_prefix line ''#'' \<and>
         (list_ex (has_prefix line) yaml_indicators \<or>
          contains line '':'' \<and> \<not> contains line [CHR 0x22] \<and> \<not> contains line ''{''))"

definition is_yaml_content :: "bool \<Rightarrow> string \<Rightarrow> json_text \<Rightarrow> string \<Rightarrow> bool" where
  "is_yaml_content yaml_ok body json content_type =
     (let ty = to_lower content_type; content = trim_space body
      in if contains ty ''yaml'' \<or> contains ty ''yml'' then True
         else if has_prefix content ''{'' \<or> has_prefix content ''['' then False
         else if list_ex yaml_line (take 10 (split_on (CHR 0x0A) content)) then True
         else case json of JValue _ \<Rightarrow> False | _ \<Rightarrow> yaml_ok)"

text \<open>The YAML library: whether it accepts a text, and the document it reads from it.\<close>

record yaml_lib =
  yl_accepts :: "string \<Rightarrow> bool"
  yl_document :: "string \<Rightarrow> (string, openapi_document) result"

definition parse_json_document :: "json_text \<Rightarrow> (string, openapi_document) result" where
  "parse_json_document j =
     (case j of
        JEmpty \<Rightarrow> Inl ''unexpected end of JSON input''
      | JInvalid \<Rightarrow> Inl ''invalid JSON''
      | JValue v \<Rightarrow> json_struct decode_document v)"

definition parse_document ::
  "yaml_lib \<Rightarrow> string \<Rightarrow> json_text \<Rightarrow> string \<Rightarrow> (string, openapi_document) result" where
  "parse_document lib body json content_type =
     (if is_yaml_content (yl_accepts lib body) body json content_type
      then (case yl_document lib body of
              Inl e \<Rightarrow> Inl (''failed to parse YAML document: '' @ e) | Inr d \<Rightarrow> Inr d)
      else (case parse_json_document json of
              Inl e \<Rightarrow> Inl (''failed to parse JSON document: '' @ e) | Inr d \<Rightarrow> Inr d))"

subsection \<open>Validation and conversion\<close>

definition swagger_server :: "openapi_document \<Rightarrow> string \<Rightarrow> openapi_server" where
  "swagger_server d scheme =
     \<lparr>sr_url = scheme @ ''://'' @ (if od_host d \<noteq> [] then od_host d else ''localhost'') @ od_base_path d,
      sr_description = [], sr_variables = []\<rparr>"

definition convert_swagger :: "openapi_document \<Rightarrow> openapi_document" where
  "convert_swagger d =
     (let d1 = d\<lparr>od_openapi := ''3.0.0''\<rparr>;
          d2 = (if od_host d \<noteq> [] \<or> od_base_path d \<noteq> [] \<or> od_schemes d \<noteq> []
                then d1\<lparr>od_servers := map (swagger_server d)
                       (if od_schemes d = [] then [''https''] else od_schemes d)\<rparr>
                else d1)
      in case (od_definitions d, od_components d) of
           (Some (e # es), None) \<Rightarrow> d2\<lparr>od_components := Some [(''schemas'', GMap (e # es))]\<rparr>
         | _ \<Rightarrow> d2)"

definition validate_document :: "openapi_document \<Rightarrow> (string, openapi_document) result" where
  "validate_document d =
     (if od_openapi d = [] \<and> od_swagger d = []
      then Inl ''missing version field (expected 'openapi' or 'swagger')''
      else
        let d' = (if od_swagger d = ''2.0'' then convert_swagger d else d)
        in if od_paths d' = [] then Inl ''document contains no paths'' else Inr d')"

subsection \<open>The cache\<close>

record cached_document =
  cd_document :: openapi_document
  cd_loaded :: int
  cd_expires :: int

type_synonym document_cache = "(string \<times> cached_document) list"

definition cache_expiry :: int where "cache_expiry = 5 * 60 * second"

definition get_cached_document ::
  "int \<Rightarrow> document_cache \<Rightarrow> string \<Rightarrow> document_cache \<times> openapi_document option" where
  "get_cached_document now cache url =
     (case map_of cache url of
        None \<Rightarrow> (cache, None)
      | Some e \<Rightarrow>
          if cd_expires e < now then (AList.delete url cache, None) else (cache, Some (cd_document e)))"

definition cache_document :: "int \<Rightarrow> string \<Rightarrow> openapi_document \<Rightarrow> document_cache \<Rightarrow> document_cache" where
  "cache_document now url d cache =
     put url \<lparr>cd_document = d, cd_loaded = now, cd_expires = now + cache_expiry\<rparr> cache"

definition clear_cache :: "document_cache \<Rightarrow> document_cache" where
  "clear_cache cache = []"

definition cleanup_expired_cache :: "int \<Rightarrow> document_cache \<Rightarrow> document_cache" where
  "cleanup_expired_cache now cache = filter (\<lambda>(u, e). \<not> cd_expires e < now) cache"

subsection \<open>Loading\<close>

definition document_request :: "string \<Rightarrow> http_request" where
  "document_request endpoint =
     \<lparr>hq_method = ''GET'', hq_url = endpoint,
      hq_headers = [(''Accept'', ''application/json, application/yaml, text/yaml, application/x-yaml, text/x-yaml''),
                    (''User-Agent'', ''flunq-executor/1.0'')],
      hq_query = [], hq_body = None\<rparr>"

text \<open>\<^verbatim>\<open>Header.Get\<close>: the first value under the canonical name.\<close>

definition header_get :: "gval \<Rightarrow> string \<Rightarrow> string" where
  "header_get headers name =
     (case Option.bind (as_map headers) (\<lambda>m. map_of m name) of
        Some (GList (GStr v # _)) \<Rightarrow> v
      | _ \<Rightarrow> [])"

text \<open>The HTTP library: whether a request can be built for a method and an address, and what
  comes back: no response, one whose body breaks off, or a response.\<close>

datatype transfer = TFailed string | TCut int string | TReceived http_response

record http_lib =
  hl_refuse :: "string \<Rightarrow> string \<Rightarrow> string option"
  hl_send :: "http_request \<Rightarrow> transfer"

definition read_document ::
  "yaml_lib \<Rightarrow> int \<Rightarrow> (string, http_response) result \<Rightarrow> (string, openapi_document) result" where
  "read_document lib status body =
     (if \<not> is_success status then Inl (''failed to fetch document: HTTP '' @ itoa status)
      else case body of
             Inl e \<Rightarrow> Inl (''failed to read response body: '' @ e)
           | Inr s \<Rightarrow>
               (case parse_document lib (hs_body s) (hs_json s) (header_get (hs_headers s) ''Content-Type'') of
                  Inl e \<Rightarrow> Inl (''failed to parse OpenAPI document: '' @ e)
                | Inr d \<Rightarrow>
                    (case validate_document d of
                       Inl e \<Rightarrow> Inl (''invalid OpenAPI document: '' @ e) | Inr d' \<Rightarrow> Inr d')))"

definition fetch_document ::
  "http_lib \<Rightarrow> yaml_lib \<Rightarrow> string \<Rightarrow> (string, openapi_document) result" where
  "fetch_document http lib endpoint =
     (case hl_refuse http ''GET'' endpoint of
        Some e \<Rightarrow> Inl (''failed to create request: '' @ e)
      | None \<Rightarrow>
          (case hl_send http (document_request endpoint) of
             TFailed e \<Rightarrow> Inl (''failed to fetch document: '' @ e)
           | TCut status e \<Rightarrow> read_document lib status (Inl e)
           | TReceived s \<Rightarrow> read_document lib (hs_status s) (Inr s)))"

text \<open>The cache is asked at \<open>now\<close>, and the document stored in it at \<open>later\<close>.\<close>

definition load_document ::
  "http_lib \<Rightarrow> yaml_lib \<Rightarrow> int \<Rightarrow> int \<Rightarrow> document_cache \<Rightarrow> string option \<Rightarrow>
   document_cache \<times> (string, openapi_document) result" where
  "load_document http lib now later cache resource =
     (case resource of
        None \<Rightarrow> (cache, Inl ''invalid resource: endpoint is required'')
      | Some endpoint \<Rightarrow>
          if endpoint = [] then (cache, Inl ''invalid resource: endpoint is required'')
          else
            let (cache', cached) = get_cached_document now cache endpoint
            in case cached of
                 Some d \<Rightarrow> (cache', Inr d)
               | None \<Rightarrow>
                   (case fetch_document http lib endpoint of
                      Inl e \<Rightarrow> (cache', Inl e)
                    | Inr d \<Rightarrow> (cache_document later endpoint d cache', Inr d)))"

end
