(* ===== verification/Openapi_Client.thy ===== *)
theory Openapi_Client
  imports Openapi_Document
begin

text \<open>
  The OpenAPI calls of the executor: finding an operation in a document and building its
  request address (\<^verbatim>\<open>executor/internal/executor/openapi_resolver.go\<close>), and the execution of
  the operation (\<^verbatim>\<open>openapi_client.go\<close>): request, authentication, response, status check.
  \<open>call_openapi\<close> joins it to the call executor. Maps are walked in the order of their lists.
\<close>

subsection \<open>Resolving an operation\<close>

record resolved_operation =
  ro_operation :: openapi_operation
  ro_method :: string
  ro_path :: string
  ro_base :: string
  ro_full :: string

record operation_arguments =
  rp_path :: "(string \<times> string) list"
  rp_query :: "(string \<times> string) list"
  rp_header :: "(string \<times> string) list"
  rp_body :: gval

definition quoted :: "string \<Rightarrow> string" where
  "quoted s = [CHR 0x27] @ s @ [CHR 0x27]"

definition to_upper :: "string \<Rightarrow> string" where
  "to_upper s = map upper_char s"

definition trim_suffix :: "string \<Rightarrow> string \<Rightarrow> string" where
  "trim_suffix s p = (if has_suffix s p then take (length s - length p) s else s)"

definition get_base_url :: "openapi_document \<Rightarrow> string" where
  "get_base_url d = (case od_servers d of [] \<Rightarrow> [] | s # _ \<Rightarrow> trim_suffix (sr_url s) ''/'')"

fun find_method ::
  "string \<Rightarrow> (string \<times> openapi_operation) list \<Rightarrow> (string \<times> openapi_operation) option" where
  "find_method i [] = None"
| "find_method i ((m, x) # ms) = (if on_id x = i then Some (m, x) else find_method i ms)"

fun find_operation ::
  "string \<Rightarrow> (string \<times> (string \<times> openapi_operation) list) list \<Rightarrow>
   (string \<times> string \<times> openapi_operation) option" where
  "find_operation i [] = None"
| "find_operation i ((p, ms) # ps) =
     (case find_method i ms of Some (m, x) \<Rightarrow> Some (p, m, x) | None \<Rightarrow> find_operation i ps)"

definition resolve_operation ::
  "openapi_document option \<Rightarrow> string \<Rightarrow> (string, resolved_operation) result" where
  "resolve_operation doc i =
     (case doc of
        None \<Rightarrow> Inl ''document is nil''
      | Some d \<Rightarrow>
          if i = [] then Inl ''operationId is required''
          else case find_operation i (od_paths d) of
                 None \<Rightarrow> Inl (''operation with id '' @ quoted i @ '' not found'')
               | Some (p, m, x) \<Rightarrow>
                   Inr \<lparr>ro_operation = x, ro_method = to_upper m, ro_path = p,
                        ro_base = get_base_url d, ro_full = get_base_url d @ p\<rparr>)"

subsection \<open>Parameters\<close>

text \<open>One parameter of the operation; those of other locations are only logged.\<close>

definition add_parameter ::
  "(gval \<Rightarrow> string) \<Rightarrow> gmap \<Rightarrow> operation_arguments \<Rightarrow> openapi_parameter \<Rightarrow>
   (string, operation_arguments) result" where
  "add_parameter fmt params r p =
     (case map_of params (op_name p) of
        None \<Rightarrow>
          if op_required p then Inl (''required parameter '' @ quoted (op_name p) @ '' is missing'')
          else Inr r
      | Some v \<Rightarrow>
          Inr (if op_in p = ''path'' then r\<lparr>rp_path := put (op_name p) (fmt v) (rp_path r)\<rparr>
               else if op_in p = ''query'' then r\<lparr>rp_query := put (op_name p) (fmt v) (rp_query r)\<rparr>
               else if op_in p = ''header'' then r\<lparr>rp_header := put (op_name p) (fmt v) (rp_header r)\<rparr>
               else r))"

definition extract_parameters ::
  "(gval \<Rightarrow> string) \<Rightarrow> openapi_operation \<Rightarrow> gmap \<Rightarrow> (string, operation_arguments) result" where
  "extract_parameters fmt x params =
     bind_res
       (fold_res (add_parameter fmt params)
          \<lparr>rp_path = [], rp_query = [], rp_header = [], rp_body = GNil\<rparr> (on_parameters x))
       (\<lambda>r. Inr (if on_body x \<noteq> None then r\<lparr>rp_body := get_any params ''body''\<rparr> else r))"

definition add_located ::
  "(gval \<Rightarrow> string) \<Rightarrow> string \<Rightarrow> gmap \<Rightarrow> (string \<times> string) list \<Rightarrow> openapi_parameter \<Rightarrow>
   (string, (string \<times> string) list) result" where
  "add_located fmt location params acc p =
     (if op_in p \<noteq> location then Inr acc
      else case map_of params (op_name p) of
             None \<Rightarrow>
               if op_required p
               then Inl (''required '' @ location @ '' parameter '' @ quoted (op_name p) @ '' is missing'')
               else Inr acc
           | Some v \<Rightarrow> Inr (put (op_name p) (fmt v) acc))"

definition extract_path_parameters ::
  "(gval \<Rightarrow> string) \<Rightarrow> openapi_operation \<Rightarrow> gmap \<Rightarrow> (string, (string \<times> string) list) result" where
  "extract_path_parameters fmt x params =
     fold_res (add_located fmt ''path'' params) [] (on_parameters x)"

definition extract_query_parameters ::
  "(gval \<Rightarrow> string) \<Rightarrow> openapi_operation \<Rightarrow> gmap \<Rightarrow> (string, (string \<times> string) list) result" where
  "extract_query_parameters fmt x params =
     fold_res (add_located fmt ''query'' params) [] (on_parameters x)"

subsection \<open>The address of the request\<close>

definition placeholder :: "string \<Rightarrow> string" where
  "placeholder n = CHR ''{'' # n @ ''}''"

definition substitute :: "(string \<times> string) list \<Rightarrow> string \<Rightarrow> string" where
  "substitute ps url = fold (\<lambda>(n, v) u. replace_all (placeholder n) v u) ps url"

definition add_query :: "(string \<times> string) list \<Rightarrow> string \<Rightarrow> string" where
  "add_query q url =
     (if q = [] then url
      else if contains url ''?'' then url @ ''&'' @ encode_values q
      else url @ ''?'' @ encode_values q)"

definition build_request_url ::
  "(gval \<Rightarrow> string) \<Rightarrow> resolved_operation \<Rightarrow> gmap \<Rightarrow> (string, string) result" where
  "build_request_url fmt r params =
     (case extract_path_parameters fmt (ro_operation r) params of
        Inl e \<Rightarrow> Inl (''failed to extract path parameters: '' @ e)
      | Inr ps \<Rightarrow>
          let url = substitute ps (ro_full r)
          in if contains url ''{'' \<and> contains url ''}''
             then Inl (''unresolved path parameters in URL: '' @ url)
             else case extract_query_parameters fmt (ro_operation r) params of
                    Inl e \<Rightarrow> Inl (''failed to extract query parameters: '' @ e)
                  | Inr q \<Rightarrow> Inr (add_query q url))"

text \<open>The names the regular expression \<^verbatim>\<open>\{([^}]+)\}\<close> finds, from left to right.\<close>

lemma cut_at_shorter: "cut_at c s = (a, Some b) \<Longrightarrow> length b < length s"
  by (cases "c \<in> set s")
     (auto simp: cut_at_none cut_at_append dest!: split_list_first)

function path_names :: "string \<Rightarrow> string list" where
  "path_names [] = []"
| "path_names (c # cs) =
     (if c = CHR ''{''
      then (case cut_at (CHR ''}'') cs of
              (n, Some rest) \<Rightarrow> if n \<noteq> [] then n # path_names rest else path_names cs
            | _ \<Rightarrow> path_names cs)
      else path_names cs)"
  by pat_completeness auto
termination
  by (relation "measure length") (auto dest!: cut_at_shorter [OF sym])

definition validate_path_parameters :: "resolved_operation \<Rightarrow> gmap \<Rightarrow> string option" where
  "validate_path_parameters r params =
     (case filter (\<lambda>n. map_of params n = None) (path_names (ro_path r)) of
        [] \<Rightarrow> None
      | n # _ \<Rightarrow> Some (''required path parameter '' @ quoted n @ '' is missing''))"

subsection \<open>The request\<close>

definition build_openapi_request ::
  "http_lib \<Rightarrow> resolved_operation \<Rightarrow> string \<Rightarrow> operation_arguments \<Rightarrow> (string, http_request) result" where
  "build_openapi_request http r url ps =
     bind_res
       (if rp_body ps = GNil then Inr None
        else case to_wire (rp_body ps) of
               None \<Rightarrow> Inl ''failed to marshal request body'' | Some w \<Rightarrow> Inr (Some w))
       (\<lambda>body.
          case hl_refuse http (ro_method r) url of
            Some e \<Rightarrow> Inl (''failed to create HTTP request: '' @ e)
          | None \<Rightarrow>
              let hs = [(''User-Agent'', ''flunq-executor/1.0'')];
                  hs' = (if rp_body ps = GNil then hs else put ''Content-Type'' ''application/json'' hs)
              in Inr \<lparr>hq_method = ro_method r, hq_url = url,
                      hq_headers = fold (\<lambda>(n, v). put (canonical_header n) v) (rp_header ps) hs',
                      hq_query = [], hq_body = body\<rparr>)"

text \<open>The configuration of an authentication may be absent; reading a nil map finds nothing.\<close>

definition set_header :: "string \<Rightarrow> string \<Rightarrow> http_request \<Rightarrow> http_request" where
  "set_header n v q = q\<lparr>hq_headers := put (canonical_header n) v (hq_headers q)\<rparr>"

definition add_url_query :: "string \<Rightarrow> string \<Rightarrow> http_request \<Rightarrow> http_request" where
  "add_url_query k v q =
     q\<lparr>hq_url := set_url_query (encode_values (parse_query (url_query (hq_url q)) @ [(k, v)])) (hq_url q)\<rparr>"

definition apply_api_key ::
  "gmap \<Rightarrow> http_request \<Rightarrow> (string, http_request) result" where
  "apply_api_key config q =
     (let location = (case get_str config ''in'' of None \<Rightarrow> [] | Some l \<Rightarrow> l)
      in case (get_str config ''key'', get_str config ''value'') of
           (Some k, Some v) \<Rightarrow>
             if location = ''header'' \<or> location = [] then Inr (set_header k v q)
             else if location = ''query'' then Inr (add_url_query k v q)
             else Inl (''unsupported API key location: '' @ location)
         | _ \<Rightarrow> Inl ''key and value are required for API key authentication'')"

definition apply_authentication ::
  "string \<times> gmap option \<Rightarrow> http_request \<Rightarrow> (string, http_request) result" where
  "apply_authentication auth q =
     (let config = (case snd auth of None \<Rightarrow> [] | Some m \<Rightarrow> m)
      in if fst auth = ''bearer'' then
           (case get_str config ''token'' of
              Some t \<Rightarrow> Inr (set_header ''Authorization'' (''Bearer '' @ t) q)
            | None \<Rightarrow> Inl ''bearer token is required for bearer authentication'')
         else if fst auth = ''basic'' then
           (case (get_str config ''username'', get_str config ''password'') of
              (Some u, Some p) \<Rightarrow>
                Inr (set_header ''Authorization'' (''Basic '' @ base64 (u @ '':'' @ p)) q)
            | _ \<Rightarrow> Inl ''username and password are required for basic authentication'')
         else if fst auth = ''apikey'' then apply_api_key config q
         else Inl (''unsupported authentication type: '' @ fst auth))"

subsection \<open>The response\<close>

definition process_response_content :: "json_text \<Rightarrow> string \<Rightarrow> openapi_response \<Rightarrow> openapi_response" where
  "process_response_content json format s =
     (if (format = ''content'' \<or> format = []) \<and> os_body s \<noteq> []
      then s\<lparr>os_content := (case json of JValue v \<Rightarrow> v | _ \<Rightarrow> GStr (os_body s))\<rparr>
      else s)"

definition extract_request_headers :: "http_request \<Rightarrow> gmap" where
  "extract_request_headers q = map (\<lambda>(n, v). (n, GStr v)) (hq_headers q)"

definition request_info :: "http_request \<Rightarrow> string \<Rightarrow> gval \<Rightarrow> string \<Rightarrow> gval" where
  "request_info q url body i =
     GMap ([(''method'', GStr (hq_method q)), (''url'', GStr url),
            (''headers'', GMap (extract_request_headers q))] @
           (if body = GNil then [] else [(''body'', body)]) @
           [(''operation_id'', GStr i)])"

text \<open>Without \<^verbatim>\<open>redirect\<close> only a success is accepted, with it a redirection too.\<close>

definition accepted_status :: "bool \<Rightarrow> int \<Rightarrow> bool" where
  "accepted_status redirect code \<longleftrightarrow> 200 \<le> code \<and> code < (if redirect then 400 else 300)"

definition openapi_response_of ::
  "call_config \<Rightarrow> http_request \<Rightarrow> string \<Rightarrow> gval \<Rightarrow> http_response \<Rightarrow> openapi_response \<times> string option" where
  "openapi_response_of c q url body s =
     (process_response_content (hs_json s) (cf_output c)
        \<lparr>os_status = hs_status s, os_headers = hs_headers s, os_body = hs_body s, os_content = GNil,
         os_request = request_info q url body (cf_operation c)\<rparr>,
      if accepted_status (cf_redirect c) (hs_status s) then None
      else Some (http_status_error (hs_status s)))"

definition send_openapi_request ::
  "http_lib \<Rightarrow> call_config \<Rightarrow> http_request \<Rightarrow> string \<Rightarrow> gval \<Rightarrow>
   openapi_response option \<times> string option" where
  "send_openapi_request http c q url body =
     (case hl_send http q of
        TFailed e \<Rightarrow> (None, Some (''HTTP request failed: '' @ e))
      | TCut _ e \<Rightarrow> (None, Some (''failed to read response body: '' @ e))
      | TReceived s \<Rightarrow> map_prod Some id (openapi_response_of c q url body s))"

text \<open>The request that a loaded document makes of a configuration, with its address before
  authentication and its body value.\<close>

definition wrap_error :: "string \<Rightarrow> (string, 'a) result \<Rightarrow> (string, 'a) result" where
  "wrap_error context r = (case r of Inl e \<Rightarrow> Inl (context @ e) | Inr a \<Rightarrow> Inr a)"

definition prepare_request ::
  "http_lib \<Rightarrow> (gval \<Rightarrow> string) \<Rightarrow> call_config \<Rightarrow> openapi_document \<Rightarrow>
   (string, http_request \<times> string \<times> gval) result" where
  "prepare_request http fmt c d =
     (let params = (case cf_params c of None \<Rightarrow> [] | Some m \<Rightarrow> m)
      in bind_res (wrap_error ''failed to resolve operation: '' (resolve_operation (Some d) (cf_operation c))) (\<lambda>r.
         bind_res (wrap_error ''failed to extract parameters: '' (extract_parameters fmt (ro_operation r) params)) (\<lambda>ps.
         bind_res (wrap_error ''failed to build request URL: '' (build_request_url fmt r params)) (\<lambda>url.
         bind_res (wrap_error ''failed to build HTTP request: '' (build_openapi_request http r url ps)) (\<lambda>q.
         bind_res (case cf_auth c of
                     None \<Rightarrow> Inr q
                   | Some a \<Rightarrow> wrap_error ''failed to apply authentication: '' (apply_authentication a q)) (\<lambda>q'.
         Inr (q', url, rp_body ps)))))))"

definition execute_operation ::
  "http_lib \<Rightarrow> yaml_lib \<Rightarrow> (gval \<Rightarrow> string) \<Rightarrow> int \<Rightarrow> int \<Rightarrow> document_cache \<Rightarrow> call_config \<Rightarrow>
   document_cache \<times> openapi_response option \<times> string option" where
  "execute_operation http lib fmt now later cache c =
     (let (cache', loaded) = load_document http lib now later cache (cf_document c)
      in (cache',
          case bind_res (wrap_error ''failed to load OpenAPI document: '' loaded) (prepare_request http fmt c) of
            Inl e \<Rightarrow> (None, Some e)
          | Inr (q, url, body) \<Rightarrow> send_openapi_request http c q url body))"

text \<open>
  The client as the call executor uses it. Logging reads the endpoint before anything else, so
  a configuration without a document panics, which the call executor writes as the answer
  with neither response nor error; \<^verbatim>\<open>Validate\<close> rejects such a configuration first.
\<close>

definition openapi_client ::
  "http_lib \<Rightarrow> yaml_lib \<Rightarrow> (gval \<Rightarrow> string) \<Rightarrow> int \<Rightarrow> int \<Rightarrow> document_cache \<Rightarrow> call_config \<Rightarrow>
   openapi_response option \<times> string option" where
  "openapi_client http lib fmt now later cache c =
     (if cf_document c = None then (None, None)
      else snd (execute_operation http lib fmt now later cache c))"

definition call_openapi ::
  "http_lib \<Rightarrow> yaml_lib \<Rightarrow> int \<Rightarrow> int \<Rightarrow> document_cache \<Rightarrow> call_env \<Rightarrow> task_request \<Rightarrow>
   (failure, task_result) result" where
  "call_openapi http lib now later cache env r =
     call_execute (env\<lparr>ce_openapi := openapi_client http lib (ce_fmt env) now later cache\<rparr>) r"

end
