(* ===== verification/Openapi_Laws.thy ===== *)
theory Openapi_Laws
  imports Openapi_Client Call_Laws
begin

text \<open>
  What the OpenAPI client guarantees: the address of a request is its template filled in one
  pass, the two extractions of parameters agree, keys put into the query keep what is there,
  operations are found whatever the order of the maps, a cached document is never older than
  its expiry, and which answers are errors.
\<close>

subsection \<open>Templates\<close>

text \<open>The reference: an address as a list of fixed texts and named holes, filled at once.\<close>

datatype segment = Fixed string | Hole string

definition braceless :: "string \<Rightarrow> bool" where
  "braceless s \<longleftrightarrow> CHR ''{'' \<notin> set s \<and> CHR ''}'' \<notin> set s"

fun braceless_segment :: "segment \<Rightarrow> bool" where
  "braceless_segment (Fixed a) = braceless a"
| "braceless_segment (Hole n) = braceless n"

fun render_segment :: "segment \<Rightarrow> string" where
  "render_segment (Fixed a) = a"
| "render_segment (Hole n) = placeholder n"

definition render :: "segment list \<Rightarrow> string" where
  "render t = concat (map render_segment t)"

fun fill_segment :: "(string \<times> string) list \<Rightarrow> segment \<Rightarrow> segment" where
  "fill_segment ps (Fixed a) = Fixed a"
| "fill_segment ps (Hole n) = (case map_of ps n of Some v \<Rightarrow> Fixed v | None \<Rightarrow> Hole n)"

definition fill :: "(string \<times> string) list \<Rightarrow> segment list \<Rightarrow> segment list" where
  "fill ps t = map (fill_segment ps) t"

definition holes :: "segment list \<Rightarrow> string set" where
  "holes t = {n. Hole n \<in> set t}"

lemma render_simps [simp]:
  "render [] = []" "render (x # t) = render_segment x @ render t"
  by (simp_all add: render_def)

lemma placeholder_prefix:
  "braceless n \<Longrightarrow> braceless m \<Longrightarrow> has_prefix (placeholder m @ s) (placeholder n) \<longleftrightarrow> m = n"
proof
  assume b: "braceless n" "braceless m" and "has_prefix (placeholder m @ s) (placeholder n)"
  then obtain r where "m @ ''}'' @ s = n @ ''}'' @ r"
    by (auto simp: has_prefix_iff placeholder_def)
  then show "m = n"
    using b by (auto simp: braceless_def append_eq_append_conv2 Cons_eq_append_conv append_eq_Cons_conv)
qed (auto simp: has_prefix_iff)

lemma replace_all_placeholder:
  assumes "braceless n" "braceless m" "m \<noteq> n"
  shows "replace_all (placeholder n) v (placeholder m @ s) =
    placeholder m @ replace_all (placeholder n) v s"
proof -
  have "\<not> has_prefix (CHR ''{'' # (m @ ''}'') @ s) (placeholder n)"
    using placeholder_prefix [OF assms(1,2), of s] assms(3) by (simp add: placeholder_def)
  then have "replace_all (placeholder n) v (CHR ''{'' # (m @ ''}'') @ s) =
      CHR ''{'' # replace_all (placeholder n) v ((m @ ''}'') @ s)"
    by simp
  also have "replace_all (placeholder n) v ((m @ ''}'') @ s) =
      (m @ ''}'') @ replace_all (placeholder n) v s"
    unfolding placeholder_def using assms(2) by (intro replace_all_skip) (simp add: braceless_def)
  finally show ?thesis by (simp add: placeholder_def)
qed

lemma replace_render:
  assumes "list_all braceless_segment t" "braceless n"
  shows "replace_all (placeholder n) v (render t) = render (fill [(n, v)] t)"
  using assms(1)
proof (induction t)
  case Nil
  show ?case by (simp add: fill_def)
next
  case (Cons x t)
  have hit: "replace_all (placeholder n) v (placeholder n @ s) = v @ replace_all (placeholder n) v s" for s
    by (rule replace_all_hit) (simp add: placeholder_def)
  show ?case
  proof (cases x)
    case (Fixed a)
    then have "replace_all (placeholder n) v (a @ render t) = a @ replace_all (placeholder n) v (render t)"
      unfolding placeholder_def using Cons.prems by (intro replace_all_skip) (simp add: braceless_def)
    then show ?thesis using Cons Fixed by (simp add: fill_def)
  next
    case (Hole m)
    then show ?thesis
      using Cons assms(2) hit replace_all_placeholder [of n m v "render t"]
      by (cases "m = n") (simp_all add: fill_def)
  qed
qed

lemma fill_braceless:
  "list_all braceless_segment t \<Longrightarrow> \<forall>p \<in> set ps. braceless (snd p) \<Longrightarrow>
   list_all braceless_segment (fill ps t)"
proof (induction t)
  case (Cons x t)
  have "map_of ps n = Some v \<Longrightarrow> braceless v" for n v
    using Cons.prems(2) by (auto dest!: map_of_SomeD)
  then show ?case
    using Cons by (cases x) (auto simp: fill_def split: option.splits)
qed (simp add: fill_def)

lemma fill_Cons: "fill ((n, v) # ps) t = fill ps (fill [(n, v)] t)"
proof -
  have "fill_segment ((n, v) # ps) x = fill_segment ps (fill_segment [(n, v)] x)" for x
    by (cases x) auto
  then show ?thesis by (simp add: fill_def)
qed

lemma substitute_render:
  assumes "list_all braceless_segment t" "\<forall>p \<in> set ps. braceless (fst p) \<and> braceless (snd p)"
  shows "substitute ps (render t) = render (fill ps t)"
  using assms
proof (induction ps arbitrary: t)
  case Nil
  have "fill_segment [] x = x" for x by (cases x) auto
  then show ?case by (simp add: substitute_def fill_def cong: map_cong)
next
  case (Cons p ps)
  obtain n v where p: "p = (n, v)" by (cases p)
  have "substitute (p # ps) (render t) = substitute ps (render (fill [(n, v)] t))"
    using Cons.prems replace_render [of t n v] by (simp add: substitute_def p)
  also have "\<dots> = render (fill ps (fill [(n, v)] t))"
    using Cons.prems p by (intro Cons.IH fill_braceless) auto
  finally show ?case by (simp add: p fill_Cons [of n v ps])
qed

lemma render_braces:
  assumes "list_all braceless_segment t"
  shows "CHR ''{'' \<in> set (render t) \<longleftrightarrow> holes t \<noteq> {}" "CHR ''}'' \<in> set (render t) \<longleftrightarrow> holes t \<noteq> {}"
proof -
  have "(c \<in> set (render t)) = (holes t \<noteq> {})" if "c = CHR ''{'' \<or> c = CHR ''}''" for c
    using assms
  proof (induction t)
    case (Cons x t)
    then show ?case
      using that by (cases x) (auto simp: holes_def placeholder_def braceless_def)
  qed (simp add: holes_def)
  then show "CHR ''{'' \<in> set (render t) \<longleftrightarrow> holes t \<noteq> {}" "CHR ''}'' \<in> set (render t) \<longleftrightarrow> holes t \<noteq> {}"
    by auto
qed

lemma holes_fill: "holes (fill ps t) = holes t - fst ` set ps"
proof -
  have "Hole n = fill_segment ps x \<longleftrightarrow> x = Hole n \<and> map_of ps n = None" for n x
    by (cases x) (auto split: option.splits)
  then have "Hole n \<in> set (fill ps t) \<longleftrightarrow> Hole n \<in> set t \<and> map_of ps n = None" for n
    by (auto simp: fill_def image_iff)
  then show ?thesis
    by (auto simp: holes_def map_of_eq_None)
qed

subsection \<open>Parameters\<close>

text \<open>The two walks over the parameters agree: what the first one collects under a location is
  what the second one extracts, which therefore finds nothing missing.\<close>

lemma add_parameter_located:
  assumes "add_parameter fmt params r p = Inr r'"
  shows "add_located fmt ''path'' params (rp_path r) p = Inr (rp_path r') \<and>
    add_located fmt ''query'' params (rp_query r) p = Inr (rp_query r')"
  using assms
  by (auto simp: add_parameter_def add_located_def split: option.splits if_splits)

lemma fold_parameters_located:
  assumes "fold_res (add_parameter fmt params) r ps = Inr r'"
  shows "fold_res (add_located fmt ''path'' params) (rp_path r) ps = Inr (rp_path r') \<and>
    fold_res (add_located fmt ''query'' params) (rp_query r) ps = Inr (rp_query r')"
  using assms
proof (induction ps arbitrary: r)
  case (Cons p ps)
  then obtain r1 where "add_parameter fmt params r p = Inr r1"
    and "fold_res (add_parameter fmt params) r1 ps = Inr r'"
    by (auto simp: bind_res_eq_Inr)
  then show ?case
    using Cons.IH [of r1] add_parameter_located [of fmt params r p r1] by simp
qed simp

lemma extractions_agree:
  assumes "extract_parameters fmt x params = Inr r"
  shows "extract_path_parameters fmt x params = Inr (rp_path r) \<and>
    extract_query_parameters fmt x params = Inr (rp_query r)"
proof -
  obtain r1 where "fold_res (add_parameter fmt params)
        \<lparr>rp_path = [], rp_query = [], rp_header = [], rp_body = GNil\<rparr> (on_parameters x) = Inr r1"
    and "rp_path r = rp_path r1" "rp_query r = rp_query r1"
    using assms by (auto simp: extract_parameters_def bind_res_eq_Inr)
  then show ?thesis
    using fold_parameters_located
    by (fastforce simp: extract_path_parameters_def extract_query_parameters_def)
qed

text \<open>What is extracted: the values given for the declared parameters of the location.\<close>

lemma fold_located:
  assumes "fold_res (add_located fmt loc params) acc ps = Inr q"
  shows "map_of q n =
    (if \<exists>p \<in> set ps. op_in p = loc \<and> op_name p = n \<and> map_of params n \<noteq> None
     then map_option fmt (map_of params n) else map_of acc n)"
  using assms
proof (induction ps arbitrary: acc)
  case (Cons p ps)
  then obtain acc1 where step: "add_located fmt loc params acc p = Inr acc1"
    and rest: "fold_res (add_located fmt loc params) acc1 ps = Inr q"
    by (auto simp: bind_res_eq_Inr)
  have "map_of acc1 n =
      (if op_in p = loc \<and> op_name p = n \<and> map_of params n \<noteq> None
       then map_option fmt (map_of params n) else map_of acc n)"
    using step by (auto simp: add_located_def map_simps split: if_splits option.splits)
  then show ?case
    using Cons.IH [OF rest] by auto
qed simp

text \<open>An extraction fails exactly when a required parameter of the location is not given.\<close>

lemma fold_located_fails:
  "(\<exists>e. fold_res (add_located fmt loc params) acc ps = Inl e) \<longleftrightarrow>
   (\<exists>p \<in> set ps. op_in p = loc \<and> op_required p \<and> map_of params (op_name p) = None)"
proof (induction ps arbitrary: acc)
  case (Cons p ps)
  then show ?case
    by (auto simp: add_located_def bind_res_eq_Inl split: option.splits if_splits)
qed simp

text \<open>C25: The address of a request is the reference semantics of its template: when the address of
  an operation is written with fixed texts and holes, and no value contains a brace, the
  replacements one after the other give what filling every hole at once gives, followed by
  the encoded query; and the address is refused exactly when a hole has no parameter.\<close>
theorem request_url_fills_template:
  assumes "ro_full r = render t" "list_all braceless_segment t"
    and "extract_parameters fmt (ro_operation r) params = Inr ps"
    and "\<forall>(n, v) \<in> set (rp_path ps). braceless n \<and> braceless v"
  shows "build_request_url fmt r params =
    (if holes t \<subseteq> fst ` set (rp_path ps)
     then Inr (add_query (rp_query ps) (render (fill (rp_path ps) t)))
     else Inl (''unresolved path parameters in URL: '' @ render (fill (rp_path ps) t)))"
proof -
  have vals: "\<forall>p \<in> set (rp_path ps). braceless (fst p) \<and> braceless (snd p)"
    using assms(4) by auto
  have url: "substitute (rp_path ps) (ro_full r) = render (fill (rp_path ps) t)"
    using substitute_render [OF assms(2) vals] assms(1) by simp
  have "list_all braceless_segment (fill (rp_path ps) t)"
    using fill_braceless [OF assms(2)] vals by simp
  then have "contains (render (fill (rp_path ps) t)) ''{'' \<and> contains (render (fill (rp_path ps) t)) ''}'' \<longleftrightarrow>
      \<not> holes t \<subseteq> fst ` set (rp_path ps)"
    by (simp add: contains_char render_braces holes_fill)
  then show ?thesis
    using extractions_agree [OF assms(3)] by (simp add: build_request_url_def url Let_def)
qed

definition demo_parameter :: "string \<Rightarrow> string \<Rightarrow> bool \<Rightarrow> openapi_parameter" where
  "demo_parameter n i r = \<lparr>op_name = n, op_in = i, op_description = [], op_required = r,
     op_schema = None, op_example = GNil, op_style = [], op_explode = False\<rparr>"

definition demo_operation :: openapi_operation where
  "demo_operation = \<lparr>on_id = ''getPet'', on_summary = [], on_description = [],
     on_parameters = [demo_parameter ''id'' ''path'' True, demo_parameter ''full'' ''query'' False],
     on_body = None, on_responses = [], on_security = [], on_tags = [], on_method = [], on_path = []\<rparr>"

definition demo_document :: openapi_document where
  "demo_document = \<lparr>od_openapi = ''3.0.0'', od_swagger = [], od_info = None,
     od_servers = [\<lparr>sr_url = ''https://pets.io/'', sr_description = [], sr_variables = []\<rparr>],
     od_host = [], od_base_path = [], od_schemes = [],
     od_paths = [(''/pets/{id}'', [(''get'', demo_operation)])],
     od_components = None, od_definitions = None\<rparr>"

definition demo_resolved :: resolved_operation where
  "demo_resolved = \<lparr>ro_operation = demo_operation, ro_method = ''GET'', ro_path = ''/pets/{id}'',
     ro_base = ''https://pets.io'', ro_full = ''https://pets.io/pets/{id}''\<rparr>"

text \<open>Printing for the examples: texts as they are.\<close>

definition demo_fmt :: "gval \<Rightarrow> string" where
  "demo_fmt v = (case v of GStr s \<Rightarrow> s | _ \<Rightarrow> ''?'')"

lemma demo_resolves: "resolve_operation (Some demo_document) ''getPet'' = Inr demo_resolved"
  by code_simp

lemmas demo_openapi_defs = demo_parameter_def demo_operation_def demo_document_def
  demo_resolved_def demo_fmt_def

lemma demo_extracts:
  "extract_parameters demo_fmt demo_operation [(''id'', GStr ''7''), (''full'', GStr ''a b'')] =
    Inr \<lparr>rp_path = [(''id'', ''7'')], rp_query = [(''full'', ''a b'')], rp_header = [], rp_body = GNil\<rparr>"
  by code_simp

theorem request_url_fills_template_witness:
  "build_request_url demo_fmt demo_resolved [(''id'', GStr ''7''), (''full'', GStr ''a b'')] =
     Inr ''https://pets.io/pets/7?full=a+b''"
proof -
  have "build_request_url demo_fmt demo_resolved [(''id'', GStr ''7''), (''full'', GStr ''a b'')] =
    (if holes [Fixed ''https://pets.io/pets/'', Hole ''id''] \<subseteq> fst ` set [(''id'', ''7'')]
     then Inr (add_query [(''full'', ''a b'')] (render (fill [(''id'', ''7'')] [Fixed ''https://pets.io/pets/'', Hole ''id''])))
     else Inl (''unresolved path parameters in URL: '' @
       render (fill [(''id'', ''7'')] [Fixed ''https://pets.io/pets/'', Hole ''id''])))"
    using request_url_fills_template
      [of demo_resolved "[Fixed ''https://pets.io/pets/'', Hole ''id'']" demo_fmt
        "[(''id'', GStr ''7''), (''full'', GStr ''a b'')]"
        "\<lparr>rp_path = [(''id'', ''7'')], rp_query = [(''full'', ''a b'')], rp_header = [], rp_body = GNil\<rparr>"]
      demo_extracts
    by (simp add: demo_resolved_def placeholder_def braceless_def)
  moreover have "add_query [(''full'', ''a b'')]
      (render (fill [(''id'', ''7'')] [Fixed ''https://pets.io/pets/'', Hole ''id''])) =
      ''https://pets.io/pets/7?full=a+b''"
    by code_simp
  ultimately show ?thesis
    by (simp add: holes_def)
qed

subsection \<open>Queries\<close>

lemma query_of_request:
  assumes "CHR ''?'' \<notin> set u" "CHR ''#'' \<notin> set u"
  shows "parse_query (url_query (add_query q u)) = sort_key fst q"
proof (cases "q = []")
  case True
  then show ?thesis
    using assms by (simp add: add_query_def url_query_def cut_at_none parse_query_def parse_pair_def map_filter_simps)
next
  case False
  have "CHR ''#'' \<notin> set (u @ CHR ''?'' # encode_values q)"
    using assms encode_values_no_fragment [of q] by simp
  then show ?thesis
    using False assms
    by (simp add: add_query_def contains_char url_query_def cut_at_none cut_at_append parse_encode_values)
qed


definition demo_key :: gmap where
  "demo_key = [(''key'', GStr ''a&b''), (''value'', GStr ''s=1''), (''in'', GStr ''query'')]"

definition demo_pet_request :: http_request where
  "demo_pet_request = \<lparr>hq_method = ''GET'', hq_url = ''https://pets.io/pets?full=x'', hq_headers = [],
     hq_query = [], hq_body = None\<rparr>"


text \<open>No credentials, no request.\<close>

lemma authentication_needs_credentials:
  "apply_authentication (ty, config) q = Inr q' \<Longrightarrow>
   ty = ''bearer'' \<and> (\<exists>m t. config = Some m \<and> get_str m ''token'' = Some t \<and>
       map_of (hq_headers q') ''Authorization'' = Some (''Bearer '' @ t)) \<or>
   ty = ''basic'' \<and> (\<exists>m u p. config = Some m \<and> get_str m ''username'' = Some u \<and>
       get_str m ''password'' = Some p \<and>
       map_of (hq_headers q') ''Authorization'' = Some (''Basic '' @ base64 (u @ '':'' @ p))) \<or>
   ty = ''apikey'' \<and> (\<exists>m k v. config = Some m \<and> get_str m ''key'' = Some k \<and> get_str m ''value'' = Some v)"
proof -
  assume a: "apply_authentication (ty, config) q = Inr q'"
  have canon: "canonical_header ''Authorization'' = ''Authorization''" by code_simp
  from a show ?thesis
    by (auto simp: apply_authentication_def apply_api_key_def set_header_def canon get_str_def Let_def
        map_simps split: option.splits if_splits)
qed

subsection \<open>Operations\<close>

lemma find_method_Some: "find_method i ms = Some (m, x) \<Longrightarrow> (m, x) \<in> set ms \<and> on_id x = i"
  by (induction ms) (auto split: if_splits)

lemma find_method_None: "find_method i ms = None \<longleftrightarrow> (\<forall>(m, x) \<in> set ms. on_id x \<noteq> i)"
  by (induction ms) (auto split: if_splits)

lemma find_operation_Some:
  "find_operation i ps = Some (p, m, x) \<Longrightarrow> \<exists>ms. (p, ms) \<in> set ps \<and> (m, x) \<in> set ms \<and> on_id x = i"
  by (induction ps) (auto split: option.splits dest!: find_method_Some)

lemma find_operation_None:
  "find_operation i ps = None \<longleftrightarrow> (\<forall>(p, ms) \<in> set ps. \<forall>(m, x) \<in> set ms. on_id x \<noteq> i)"
proof (induction ps)
  case (Cons q ps)
  obtain p ms where q: "q = (p, ms)" by (cases q)
  show ?case
    using Cons.IH find_method_None [of i ms] by (cases "find_method i ms") (auto simp: q)
qed simp

text \<open>The code walks Go maps, whose order is not fixed: with one operation of the id the
  order does not matter.\<close>

lemma operation_found:
  assumes "i \<noteq> []"
    and unique: "\<forall>(p, ms) \<in> set (od_paths d). \<forall>(m, x) \<in> set ms. on_id x = i \<longrightarrow> p = p0 \<and> m = m0 \<and> x = x0"
    and "(p0, ms0) \<in> set (od_paths d)" "(m0, x0) \<in> set ms0" "on_id x0 = i"
  shows "resolve_operation (Some d) i =
    Inr \<lparr>ro_operation = x0, ro_method = to_upper m0, ro_path = p0, ro_base = get_base_url d,
      ro_full = get_base_url d @ p0\<rparr>"
proof (cases "find_operation i (od_paths d)")
  case None
  then show ?thesis using assms by (fastforce simp: find_operation_None)
next
  case (Some r)
  obtain p m x where r: "r = (p, m, x)" by (cases r)
  then obtain ms where "(p, ms) \<in> set (od_paths d)" "(m, x) \<in> set ms" "on_id x = i"
    using find_operation_Some Some by blast
  then have "p = p0 \<and> m = m0 \<and> x = x0"
    using unique by fastforce
  then show ?thesis
    using assms(1) Some r by (simp add: resolve_operation_def)
qed

lemma operation_not_found:
  "i \<noteq> [] \<Longrightarrow> (\<exists>e. resolve_operation (Some d) i = Inl e) \<longleftrightarrow>
   (\<forall>(p, ms) \<in> set (od_paths d). \<forall>(m, x) \<in> set ms. on_id x \<noteq> i)"
  unfolding find_operation_None [symmetric]
  by (cases "find_operation i (od_paths d)") (auto simp: resolve_operation_def)

text \<open>A document that is loaded has a path, and one of Swagger 2.0 with a host has a server for
  each scheme, the first of which is the base of every address.\<close>

lemma validated_document: "validate_document d = Inr d' \<Longrightarrow> od_paths d' \<noteq> [] \<and> od_paths d' = od_paths d \<and> od_openapi d' @ od_swagger d' \<noteq> []"
  by (auto simp: validate_document_def convert_swagger_def Let_def split: if_splits option.splits list.splits)

lemma swagger_base_url:
  assumes "validate_document d = Inr d'" "od_swagger d = ''2.0''" "od_host d \<noteq> []"
  shows "get_base_url d' =
    trim_suffix ((case od_schemes d of [] \<Rightarrow> ''https'' | s # _ \<Rightarrow> s) @ ''://'' @ od_host d @ od_base_path d) ''/''"
  using assms
  by (auto simp: validate_document_def convert_swagger_def swagger_server_def get_base_url_def Let_def
      split: if_splits option.splits list.splits)

subsection \<open>JSON and YAML\<close>

lemma json_object_not_yaml:
  assumes "\<not> contains (to_lower ty) ''yaml''" "\<not> contains (to_lower ty) ''yml''"
  shows "\<not> is_yaml_content ok (CHR ''{'' # s) json ty"
proof -
  obtain w where "trim_space (CHR ''{'' # s) = CHR ''{'' # w"
  proof -
    have "dropWhile is_space (CHR ''{'' # s) = CHR ''{'' # s" by (simp add: is_space_def Let_def)
    moreover have "dropWhile is_space (rev s @ [CHR ''{'']) = (dropWhile is_space (rev s)) @ [CHR ''{'']"
      by (induction "rev s" arbitrary: s) (auto simp: is_space_def Let_def dropWhile_append3 dropWhile_append)
    ultimately show ?thesis using that by (simp add: trim_space_def)
  qed
  then show ?thesis
    using assms by (simp add: is_yaml_content_def has_prefix_def Let_def)
qed

subsection \<open>The cache\<close>

text \<open>What happens to the cache of a loader: loads, the periodic clean-up, clearing.\<close>

datatype loader_op =
    Load http_lib yaml_lib int int "string option"
  | Cleanup int
  | Clear

fun loader_step :: "document_cache \<Rightarrow> loader_op \<Rightarrow> document_cache" where
  "loader_step c (Load http lib now later r) = fst (load_document http lib now later c r)"
| "loader_step c (Cleanup now) = cleanup_expired_cache now c"
| "loader_step c Clear = clear_cache c"

definition run_loader :: "loader_op list \<Rightarrow> document_cache" where
  "run_loader ops = fold (\<lambda>x c. loader_step c x) ops []"

text \<open>A load among the operations fetched this document, and the entry expires with it.\<close>

definition fetched_by :: "loader_op list \<Rightarrow> string \<Rightarrow> cached_document \<Rightarrow> bool" where
  "fetched_by ops u e \<longleftrightarrow> (\<exists>http lib now later. Load http lib now later (Some u) \<in> set ops \<and>
     fetch_document http lib u = Inr (cd_document e) \<and> cd_loaded e = later \<and>
     cd_expires e = later + cache_expiry)"

definition cache_ok :: "loader_op list \<Rightarrow> document_cache \<Rightarrow> bool" where
  "cache_ok ops c \<longleftrightarrow> (\<forall>u e. (u, e) \<in> set c \<longrightarrow> fetched_by ops u e)"

lemma fetched_by_mono: "fetched_by ops u e \<Longrightarrow> fetched_by (ops @ [x]) u e"
  by (auto simp: fetched_by_def)

lemma cached_entries: "set (fst (get_cached_document now c u)) \<subseteq> set c"
  by (auto simp: get_cached_document_def AList.delete_eq split: option.splits)

lemma cached_document_entry:
  "snd (get_cached_document now c u) = Some d \<Longrightarrow>
   \<exists>e. (u, e) \<in> set c \<and> cd_document e = d \<and> now \<le> cd_expires e"
  by (auto simp: get_cached_document_def dest: map_of_SomeD split: option.splits if_splits)

lemma set_update_subset: "set (put k v m) \<subseteq> insert (k, v) (set m)"
  by (induction m) auto

lemma load_entries:
  "(u, e) \<in> set (fst (load_document http lib now later c r)) \<Longrightarrow>
   (u, e) \<in> set c \<or>
   (\<exists>d. r = Some u \<and> fetch_document http lib u = Inr d \<and>
     e = \<lparr>cd_document = d, cd_loaded = later, cd_expires = later + cache_expiry\<rparr>)"
proof (cases "\<exists>endpoint. r = Some endpoint \<and> endpoint \<noteq> []")
  case True
  then obtain v where r: "r = Some v" "v \<noteq> []" by blast
  obtain c' o' where g: "get_cached_document now c v = (c', o')" by fastforce
  have sub: "set c' \<subseteq> set c" using cached_entries [of now c v] by (simp add: g)
  show "(u, e) \<in> set (fst (load_document http lib now later c r)) \<Longrightarrow> ?thesis"
    using r sub set_update_subset [of v _ c']
    by (auto simp: load_document_def g cache_document_def split: option.splits sum.splits)
qed (auto simp: load_document_def split: option.splits)

lemma cache_ok_step: "cache_ok ops c \<Longrightarrow> cache_ok (ops @ [x]) (loader_step c x)"
proof (cases x)
  case (Load http lib now later r)
  assume "cache_ok ops c"
  then show ?thesis
    using load_entries [of _ _ http lib now later c r]
    by (fastforce simp: Load cache_ok_def fetched_by_def)
qed (auto simp: cache_ok_def cleanup_expired_cache_def clear_cache_def fetched_by_mono)

lemma cache_ok_run: "cache_ok ops (run_loader ops)"
proof (induction ops rule: rev_induct)
  case Nil
  show ?case by (simp add: run_loader_def cache_ok_def)
next
  case (snoc x ops)
  then show ?case using cache_ok_step by (simp add: run_loader_def)
qed

text \<open>C26: A document is never served beyond its expiry: whatever loads, clean-ups and clearings went
  before, the document a load returns is the one fetched now, or one that an earlier load
  fetched from the same endpoint and stored at most five minutes ago.\<close>
theorem loaded_document_fresh:
  assumes "snd (load_document http lib now later (run_loader ops) (Some u)) = Inr d"
  shows "fetch_document http lib u = Inr d \<or>
    (\<exists>http' lib' now' later'. Load http' lib' now' later' (Some u) \<in> set ops \<and>
       fetch_document http' lib' u = Inr d \<and> now \<le> later' + 5 * 60 * second)"
proof -
  obtain c' o' where g: "get_cached_document now (run_loader ops) u = (c', o')" by fastforce
  show ?thesis
  proof (cases o')
    case None
    then show ?thesis
      using assms by (auto simp: load_document_def g split: if_splits sum.splits)
  next
    case (Some d')
    then have "d' = d"
      using assms by (auto simp: load_document_def g split: if_splits)
    then obtain e where "(u, e) \<in> set (run_loader ops)" "cd_document e = d" "now \<le> cd_expires e"
      using cached_document_entry [of now "run_loader ops" u d] g Some by auto
    then have "fetched_by ops u e" "cd_document e = d" "now \<le> cd_expires e"
      using cache_ok_run [of ops] by (auto simp: cache_ok_def)
    then show ?thesis
      by (auto simp: fetched_by_def cache_expiry_def)
  qed
qed

text \<open>A document in the cache is served without a request, as long as it has not expired.\<close>

lemma cached_document_served:
  assumes "u \<noteq> []" "snd (load_document http lib now later c (Some u)) = Inr d"
    and "map_of c u = None" "now' \<le> later + cache_expiry"
  shows "load_document http' lib' now' later' (fst (load_document http lib now later c (Some u))) (Some u) =
    (fst (load_document http lib now later c (Some u)), Inr d)"
  using assms
  by (auto simp: load_document_def get_cached_document_def cache_document_def map_simps
      split: sum.splits)

lemma cleanup_keeps_unexpired:
  "(u, e) \<in> set (cleanup_expired_cache now c) \<longleftrightarrow> (u, e) \<in> set c \<and> now \<le> cd_expires e"
  by (auto simp: cleanup_expired_cache_def)

text \<open>The libraries of the examples: every request gets the same response.\<close>

definition demo_pet_http :: "http_response \<Rightarrow> http_lib" where
  "demo_pet_http s = \<lparr>hl_refuse = \<lambda>_ _. None, hl_send = \<lambda>_. TReceived s\<rparr>"

definition demo_yaml :: yaml_lib where
  "demo_yaml = \<lparr>yl_accepts = \<lambda>_. True, yl_document = \<lambda>_. Inr demo_document\<rparr>"

definition demo_answer :: "int \<Rightarrow> string \<Rightarrow> json_text \<Rightarrow> http_response" where
  "demo_answer code body json = \<lparr>hs_status = code, hs_headers = GMap [], hs_body = body, hs_json = json\<rparr>"

lemma demo_fetch: "fetch_document (demo_pet_http (demo_answer 200 ''openapi: 3.0.0'' JInvalid)) demo_yaml ''https://pets.io/d'' = Inr demo_document"
  by code_simp

lemma demo_load_cached:
  "snd (load_document (demo_pet_http (demo_answer 500 [] JEmpty)) demo_yaml (60 * second) (61 * second)
     (run_loader [Load (demo_pet_http (demo_answer 200 ''openapi: 3.0.0'' JInvalid)) demo_yaml 0 second
       (Some ''https://pets.io/d'')]) (Some ''https://pets.io/d'')) = Inr demo_document"
proof -
  have "run_loader [Load (demo_pet_http (demo_answer 200 ''openapi: 3.0.0'' JInvalid)) demo_yaml 0 second
       (Some ''https://pets.io/d'')] =
     [(''https://pets.io/d'', \<lparr>cd_document = demo_document, cd_loaded = second, cd_expires = second + cache_expiry\<rparr>)]"
    using demo_fetch by (simp add: run_loader_def load_document_def get_cached_document_def cache_document_def)
  then show ?thesis
    by (simp add: load_document_def get_cached_document_def cache_expiry_def second_def)
qed

theorem loaded_document_fresh_witness:
  "fetch_document (demo_pet_http (demo_answer 500 [] JEmpty)) demo_yaml ''https://pets.io/d'' = Inr demo_document \<or>
    (60 * second \<le> second + 5 * 60 * second)"
  using loaded_document_fresh [OF demo_load_cached] by auto

subsection \<open>Answers\<close>

text \<open>An answered operation fails exactly when its status is not accepted: outside 200 to 299,
  or outside 200 to 399 when redirections are allowed; the response is handed on in either
  case, with the status, the headers and the body that were received, and in content format
  the value its body decodes to or, where it does not decode, its text.\<close>
theorem operation_answer:
  assumes "load_document http lib now later cache (cf_document c) = (cache', Inr d)"
    and "prepare_request http fmt c d = Inr (q, url, body)"
    and "hl_send http q = TReceived s"
  shows "\<exists>resp err. execute_operation http lib fmt now later cache c = (cache', Some resp, err) \<and>
    (err = None \<longleftrightarrow> 200 \<le> hs_status s \<and> hs_status s < (if cf_redirect c then 400 else 300)) \<and>
    (\<forall>e. err = Some e \<longrightarrow> e = http_status_error (hs_status s)) \<and>
    os_status resp = hs_status s \<and> os_headers resp = hs_headers s \<and> os_body resp = hs_body s \<and>
    (cf_output c = ''content'' \<and> hs_body s \<noteq> [] \<longrightarrow>
       os_content resp = (case hs_json s of JValue v \<Rightarrow> v | _ \<Rightarrow> GStr (hs_body s))) \<and>
    (cf_output c \<in> {''raw'', ''response''} \<longrightarrow> os_content resp = GNil)"
proof -
  have "execute_operation http lib fmt now later cache c =
      (cache', Some (fst (openapi_response_of c q url body s)), snd (openapi_response_of c q url body s))"
    using assms
    by (simp add: execute_operation_def wrap_error_def send_openapi_request_def map_prod_def split_beta)
  then show ?thesis
    by (intro exI conjI, assumption)
       (auto simp: openapi_response_of_def process_response_content_def accepted_status_def
         split: json_text.splits)
qed

definition demo_pet_config :: "bool \<Rightarrow> call_config" where
  "demo_pet_config redirect = \<lparr>cf_url = [], cf_method = [], cf_headers = None, cf_body = GNil, cf_query = None,
     cf_type = ''openapi'', cf_document = Some ''https://pets.io/d'', cf_operation = ''getPet'',
     cf_params = Some [(''id'', GStr ''7''), (''full'', GStr ''a b'')], cf_auth = None,
     cf_output = ''content'', cf_redirect = redirect\<rparr>"

definition demo_pet_get :: http_request where
  "demo_pet_get = \<lparr>hq_method = ''GET'', hq_url = ''https://pets.io/pets/7?full=a+b'',
     hq_headers = [(''User-Agent'', ''flunq-executor/1.0'')], hq_query = [], hq_body = None\<rparr>"

lemma demo_prepared:
  "prepare_request (demo_pet_http s) demo_fmt (demo_pet_config b) demo_document =
     Inr (demo_pet_get, ''https://pets.io/pets/7?full=a+b'', GNil)"
proof -
  have url: "build_request_url demo_fmt demo_resolved [(''id'', GStr ''7''), (''full'', GStr ''a b'')] =
      Inr ''https://pets.io/pets/7?full=a+b''"
    by code_simp
  show ?thesis
    using demo_resolves demo_extracts url
    by (simp add: prepare_request_def demo_pet_config_def wrap_error_def demo_resolved_def
        build_openapi_request_def demo_pet_http_def demo_pet_get_def Let_def)
qed

definition demo_cache :: document_cache where
  "demo_cache = [(''https://pets.io/d'', \<lparr>cd_document = demo_document, cd_loaded = 0, cd_expires = cache_expiry\<rparr>)]"

lemma demo_loaded:
  "load_document http lib 0 1 demo_cache (cf_document (demo_pet_config b)) = (demo_cache, Inr demo_document)"
  by (simp add: load_document_def get_cached_document_def demo_cache_def demo_pet_config_def cache_expiry_def second_def)

theorem operation_answer_witness:
  "\<exists>resp. execute_operation (demo_pet_http (demo_answer 503 ''busy'' JInvalid)) demo_yaml demo_fmt 0 1 demo_cache
     (demo_pet_config False) = (demo_cache, Some resp, Some (http_status_error 503)) \<and>
     os_content resp = GStr ''busy''"
  using operation_answer [OF demo_loaded [of "demo_pet_http (demo_answer 503 ''busy'' JInvalid)" demo_yaml False] demo_prepared]
  by (fastforce simp: demo_pet_http_def demo_answer_def demo_pet_config_def)

text \<open>A cached document answers although its server is gone, and so does the operation of an
  expired one only after a new fetch; errors of every stage carry no response.\<close>

lemma stage_errors_without_response:
  "(\<exists>e. bind_res (wrap_error ''failed to load OpenAPI document: '' (snd (load_document http lib now later cache (cf_document c))))
        (prepare_request http fmt c) = Inl e) \<Longrightarrow>
   \<exists>e. snd (execute_operation http lib fmt now later cache c) = (None, Some e)"
  by (auto simp: execute_operation_def split_beta Let_def)

text \<open>Allowing redirections does not make a redirection a success: with \<^verbatim>\<open>redirect\<close> set, the
  client accepts an answer of status 300 to 399 without an error, but the call executor
  reports the task as unsuccessful all the same.\<close>
theorem accepted_redirection_unsuccessful:
  assumes "evaluate_parameter_expressions c r = Inr c'" "cf_document c' \<noteq> None" "cf_redirect c'"
    and "load_document http lib now later cache (cf_document c') = (cache', Inr d)"
    and "prepare_request http (ce_fmt env) c' d = Inr (q, url, body)"
    and "hl_send http q = TReceived s" "300 \<le> hs_status s" "hs_status s < 400"
    and "execute_openapi_call (env\<lparr>ce_openapi := openapi_client http lib (ce_fmt env) now later cache\<rparr>) r c = Inr res"
  shows "snd (openapi_client http lib (ce_fmt env) now later cache c') = None \<and> \<not> tr_success res"
proof -
  have client: "openapi_client http lib (ce_fmt env) now later cache c' =
      (Some (fst (openapi_response_of c' q url body s)), None)"
    using assms(2-8)
    by (simp add: openapi_client_def execute_operation_def wrap_error_def send_openapi_request_def
        openapi_response_of_def accepted_status_def)
  have "os_status (fst (openapi_response_of c' q url body s)) = hs_status s"
    by (simp add: openapi_response_of_def process_response_content_def)
  then show ?thesis
    using assms(1,7,8,9) client
    by (auto simp: execute_openapi_call_def bind_res_eq_Inr result_of_def is_success_def)
qed

definition demo_openapi_env :: call_env where
  "demo_openapi_env = \<lparr>ce_http = \<lambda>_. HFailed ''none'', ce_openapi = \<lambda>_. (None, None), ce_fmt = demo_fmt,
     ce_clock = \<lparr>ck_start = 0, ck_mid = 0, ck_end = 1, ck_done = 1\<rparr>\<rparr>"

lemma demo_evaluated:
  "evaluate_parameter_expressions (demo_pet_config b) (demo_request [] demo_openapi) = Inr (demo_pet_config b)"
  by (cases b) code_simp+

lemma demo_redirected:
  "\<exists>res. execute_openapi_call
     (demo_openapi_env\<lparr>ce_openapi := openapi_client (demo_pet_http (demo_answer 304 [] JEmpty)) demo_yaml demo_fmt 0 1 demo_cache\<rparr>)
     (demo_request [] demo_openapi) (demo_pet_config True) = Inr res"
proof -
  have "openapi_client (demo_pet_http (demo_answer 304 [] JEmpty)) demo_yaml demo_fmt 0 1 demo_cache (demo_pet_config True) =
      (Some (fst (openapi_response_of (demo_pet_config True) demo_pet_get ''https://pets.io/pets/7?full=a+b'' GNil
         (demo_answer 304 [] JEmpty))), None)"
    using demo_loaded [of "demo_pet_http (demo_answer 304 [] JEmpty)" demo_yaml True]
      demo_prepared [of "demo_answer 304 [] JEmpty" True]
    by (simp add: openapi_client_def execute_operation_def wrap_error_def send_openapi_request_def
        openapi_response_of_def accepted_status_def demo_pet_config_def demo_pet_http_def demo_answer_def)
  moreover have "cf_output (demo_pet_config True) = ''content''" by (simp add: demo_pet_config_def)
  ultimately show ?thesis
    unfolding execute_openapi_call_def demo_evaluated bind_res_simps
    by (simp add: apply_output_transformation_def) (simp add: demo_request_def)
qed

theorem accepted_redirection_unsuccessful_witness:
  "\<exists>res. execute_openapi_call
     (demo_openapi_env\<lparr>ce_openapi := openapi_client (demo_pet_http (demo_answer 304 [] JEmpty)) demo_yaml demo_fmt 0 1 demo_cache\<rparr>)
     (demo_request [] demo_openapi) (demo_pet_config True) = Inr res \<and> \<not> tr_success res"
proof -
  let ?http = "demo_pet_http (demo_answer 304 [] JEmpty)"
  obtain res where res: "execute_openapi_call
     (demo_openapi_env\<lparr>ce_openapi := openapi_client ?http demo_yaml demo_fmt 0 1 demo_cache\<rparr>)
     (demo_request [] demo_openapi) (demo_pet_config True) = Inr res"
    using demo_redirected by blast
  have fmt: "ce_fmt demo_openapi_env = demo_fmt" by (simp add: demo_openapi_env_def)
  have "\<not> tr_success res"
    using accepted_redirection_unsuccessful
      [OF demo_evaluated [of True] _ _ demo_loaded [of ?http demo_yaml True]
        demo_prepared [of "demo_answer 304 [] JEmpty" True, folded fmt], of "demo_answer 304 [] JEmpty" res] res
    by (simp add: demo_pet_config_def demo_pet_http_def demo_answer_def fmt)
  with res show ?thesis by blast
qed

text \<open>A value is put into the path as it is: characters that end the path or separate its parts
  are not escaped.\<close>

lemma path_value_not_escaped:
  "build_request_url demo_fmt demo_resolved [(''id'', GStr ''7/owner?admin=true#'')] =
     Inr ''https://pets.io/pets/7/owner?admin=true#''"
  by code_simp

end
