(* ===== verification/Api_Models.thy ===== *)
theory Api_Models
  imports Workflow_Database Go_Int "HOL-Library.Char_ord" "HOL-Library.List_Lexorder"
begin

text \<open>
  The data of the API service (\<^verbatim>\<open>api/internal/models\<close>) and the helpers its lists are built with
  (\<^verbatim>\<open>api/internal/services/utils.go\<close>): workflows and executions as the API shows them, their
  validation and life cycle, pagination, filters on text, tags and dates, and \<^verbatim>\<open>sort.Slice\<close>.
  Strings are compared byte by byte; the case of a letter is folded in ASCII.
\<close>

subsection \<open>Workflows and executions\<close>

record api_workflow =
  aw_id :: string
  aw_name :: string
  aw_description :: string
  aw_tenant :: string
  aw_definition :: "gmap option"
  aw_state :: string
  aw_tags :: "string list"
  aw_created :: time
  aw_updated :: time

datatype api_status = SPending | SRunning | SWaiting | SSuspended | SCancelled | SFaulted | SCompleted

fun status_text :: "api_status \<Rightarrow> string" where
  "status_text SPending = ''pending''"
| "status_text SRunning = ''running''"
| "status_text SWaiting = ''waiting''"
| "status_text SSuspended = ''suspended''"
| "status_text SCancelled = ''cancelled''"
| "status_text SFaulted = ''faulted''"
| "status_text SCompleted = ''completed''"

record execution_error =
  xe_message :: string
  xe_code :: string
  xe_details :: gmap

record api_execution =
  ax_id :: string
  ax_workflow :: string
  ax_tenant :: string
  ax_status :: api_status
  ax_correlation :: string
  ax_input :: "gmap option"
  ax_output :: "gmap option"
  ax_error :: "execution_error option"
  ax_state :: string
  ax_started :: time
  ax_completed :: "time option"
  ax_duration :: "int option"

definition empty_api_execution :: api_execution where
  "empty_api_execution =
     \<lparr>ax_id = [], ax_workflow = [], ax_tenant = [], ax_status = SPending, ax_correlation = [],
      ax_input = None, ax_output = None, ax_error = None, ax_state = [], ax_started = zero_time,
      ax_completed = None, ax_duration = None\<rparr>"

text \<open>\<open>t.Sub(u)\<close> saturates at the bounds of a 64-bit duration.\<close>

definition time_sub :: "time \<Rightarrow> time \<Rightarrow> int" where
  "time_sub t u = max (- (2 ^ 63)) (min (2 ^ 63 - 1) (t - u))"

definition set_error :: "string \<Rightarrow> string \<Rightarrow> gmap \<Rightarrow> api_execution \<Rightarrow> api_execution" where
  "set_error code message details x =
     x\<lparr>ax_error := Some \<lparr>xe_message = message, xe_code = code, xe_details = details\<rparr>,
       ax_status := SFaulted\<rparr>"

definition complete_execution :: "time \<Rightarrow> gmap option \<Rightarrow> api_execution \<Rightarrow> api_execution" where
  "complete_execution now out x =
     x\<lparr>ax_status := SCompleted, ax_output := out, ax_completed := Some now,
       ax_duration := Some (milliseconds (time_sub now (ax_started x)))\<rparr>"

definition cancel_execution :: "time \<Rightarrow> string \<Rightarrow> api_execution \<Rightarrow> api_execution" where
  "cancel_execution now reason x =
     (let x1 = x\<lparr>ax_status := SCancelled, ax_completed := Some now\<rparr>;
          x2 = set_error ''EXECUTION_CANCELLED'' ''Execution was cancelled'' [(''reason'', GStr reason)] x1
      in x2\<lparr>ax_duration := Some (milliseconds (time_sub now (ax_started x)))\<rparr>)"

definition fail_execution :: "time \<Rightarrow> string \<Rightarrow> string \<Rightarrow> gmap \<Rightarrow> api_execution \<Rightarrow> api_execution" where
  "fail_execution now code message details x =
     (set_error code message details (x\<lparr>ax_status := SFaulted, ax_completed := Some now\<rparr>))
       \<lparr>ax_duration := Some (milliseconds (time_sub now (ax_started x)))\<rparr>"

definition is_running :: "api_execution \<Rightarrow> bool" where
  "is_running x \<longleftrightarrow> ax_status x = SPending \<or> ax_status x = SRunning"

definition is_completed :: "api_execution \<Rightarrow> bool" where
  "is_completed x \<longleftrightarrow> ax_status x = SCompleted \<or> ax_status x = SFaulted \<or> ax_status x = SCancelled"

record execution_response =
  re_id :: string
  re_workflow :: string
  re_status :: api_status
  re_correlation :: string
  re_started :: time
  re_completed :: "time option"

definition to_response :: "api_execution \<Rightarrow> execution_response" where
  "to_response x =
     \<lparr>re_id = ax_id x, re_workflow = ax_workflow x, re_status = ax_status x,
      re_correlation = ax_correlation x,
      re_started =
        (if ax_started x = zero_time \<and> is_completed x
         then (case ax_completed x of Some t \<Rightarrow> t | None \<Rightarrow> ax_started x) else ax_started x),
      re_completed = ax_completed x\<rparr>"

text \<open>The first field that is invalid and the message about it.\<close>

definition validate_workflow :: "api_workflow \<Rightarrow> (string \<times> string) option" where
  "validate_workflow w =
     (if aw_name w = [] then Some (''name'', ''name is required'')
      else case aw_definition w of
             None \<Rightarrow> Some (''definition'', ''definition is required'')
           | Some d \<Rightarrow>
               if map_of d ''id'' \<in> {None, Some (GStr [])}
               then Some (''definition.id'', ''workflow definition must have an id'')
               else if map_of d ''specVersion'' \<in> {None, Some (GStr [])}
               then Some (''definition.specVersion'', ''workflow definition must have a specVersion'')
               else None)"

subsection \<open>Pagination\<close>

record page_params =
  pp_limit :: int
  pp_offset :: int
  pp_page :: int
  pp_size :: int

record page_meta =
  pm_total :: int
  pm_limit :: int
  pm_offset :: int
  pm_page :: int
  pm_size :: int
  pm_total_pages :: int
  pm_has_next :: bool
  pm_has_previous :: bool

text \<open>Limit and offset, from either pattern; the product wraps around.\<close>

definition page_window :: "page_params \<Rightarrow> int \<times> int" where
  "page_window p =
     (if 0 < pp_page p \<and> 0 < pp_size p then (pp_size p, wrap64 ((pp_page p - 1) * pp_size p))
      else (if pp_limit p = 0 then 20 else pp_limit p, pp_offset p))"

definition new_page_meta :: "int \<Rightarrow> int \<Rightarrow> page_params \<Rightarrow> page_meta" where
  "new_page_meta count filtered p =
     (let (limit, offset) = page_window p;
          pages = (filtered + limit - 1) div limit
      in \<lparr>pm_total = count, pm_limit = limit, pm_offset = offset,
          pm_page = (if 0 < pp_page p \<and> 0 < pp_size p then pp_page p else offset div limit + 1),
          pm_size = limit, pm_total_pages = (if pages = 0 then 1 else pages),
          pm_has_next = (wrap64 (offset + limit) < filtered), pm_has_previous = (0 < offset)\<rparr>)"

text \<open>What binding the query guarantees: the ranges in the tags of the struct.\<close>

definition page_params_ok :: "page_params \<Rightarrow> bool" where
  "page_params_ok p \<longleftrightarrow>
     (pp_limit p = 0 \<or> 1 \<le> pp_limit p \<and> pp_limit p \<le> 100) \<and>
     0 \<le> pp_offset p \<and> pp_offset p < 2 ^ 63 \<and> 0 \<le> pp_page p \<and> pp_page p < 2 ^ 63 \<and> (pp_size p = 0 \<or> 1 \<le> pp_size p \<and> pp_size p \<le> 100)"

text \<open>\<open>xs[offset:end]\<close>, empty past the end; a negative offset panics.\<close>

definition paginate :: "'a list \<Rightarrow> page_params \<Rightarrow> 'a list option" where
  "paginate xs p =
     (let (limit, offset) = page_window p; n = int (length xs)
      in if n \<le> offset then Some []
         else if offset < 0 then None
         else Some (take (nat (min (offset + limit) n - offset)) (drop (nat offset) xs)))"

subsection \<open>Filters\<close>

definition contains_ignore_case :: "string \<Rightarrow> string \<Rightarrow> bool" where
  "contains_ignore_case s sub \<longleftrightarrow> contains (to_lower s) (to_lower sub)"

definition parse_comma_separated :: "string \<Rightarrow> string list" where
  "parse_comma_separated s =
     (if s = [] then [] else filter (\<lambda>w. w \<noteq> []) (map trim_space (split_on (CHR '','') s)))"

definition has_any_tag :: "string list \<Rightarrow> string list \<Rightarrow> bool" where
  "has_any_tag tags wanted \<longleftrightarrow> list_ex (\<lambda>f. list_ex (\<lambda>t. to_lower t = to_lower f) tags) wanted"

text \<open>\<open>time.Parse("2006-01-02", s)\<close>.\<close>

definition parse_date :: "string \<Rightarrow> time option" where
  "parse_date s =
     (if length s \<noteq> 10 \<or> s ! 4 \<noteq> CHR ''-'' \<or> s ! 7 \<noteq> CHR ''-'' then None
      else Option.bind (parse_uint (Go_Time.slice s 0 4) 0 9999) (\<lambda>y.
           Option.bind (parse_uint (Go_Time.slice s 5 7) 1 12) (\<lambda>m.
           map_option (\<lambda>d. (days_before_year y + days_before_month y m + (d - 1) - epoch_days) *
               86400 * second)
             (parse_uint (Go_Time.slice s 8 10) 1 (month_days y m)))))"

definition is_in_date_range :: "time \<Rightarrow> string \<Rightarrow> bool" where
  "is_in_date_range t period =
     (if period = [] then True
      else case split_on (CHR '','') period of
             [a, b] \<Rightarrow>
               (case parse_date (trim_space a) of
                  None \<Rightarrow> True
                | Some start \<Rightarrow>
                    (case parse_date (trim_space b) of
                       None \<Rightarrow> True
                     | Some stop \<Rightarrow> start < t \<and> t < stop + 86400 * second))
           | _ \<Rightarrow> True)"

subsection \<open>Sorting\<close>

text \<open>
  \<open>sort.Slice\<close> as Go runs it: insertion sort on slices of at most twelve elements; the
  arrangement of a longer slice, where pattern-defeating quicksort takes over, is the
  argument \<open>large\<close>. The prefix that is already arranged is kept reversed.
\<close>

fun insert_back :: "('a \<Rightarrow> 'a \<Rightarrow> bool) \<Rightarrow> 'a \<Rightarrow> 'a list \<Rightarrow> 'a list" where
  "insert_back lt x [] = [x]"
| "insert_back lt x (y # ys) = (if lt x y then y # insert_back lt x ys else x # y # ys)"

definition insertion_sort :: "('a \<Rightarrow> 'a \<Rightarrow> bool) \<Rightarrow> 'a list \<Rightarrow> 'a list" where
  "insertion_sort lt xs = rev (fold (insert_back lt) xs [])"

definition sort_slice ::
  "(('a \<Rightarrow> 'a \<Rightarrow> bool) \<Rightarrow> 'a list \<Rightarrow> 'a list) \<Rightarrow> ('a \<Rightarrow> 'a \<Rightarrow> bool) \<Rightarrow> 'a list \<Rightarrow> 'a list" where
  "sort_slice large lt xs = (if length xs \<le> 12 then insertion_sort lt xs else large lt xs)"

end
