(* ===== verification/Api_Repositories.thy ===== *)
theory Api_Repositories
  imports Api_Models
begin

text \<open>
  How the API stores what it shows: \<^verbatim>\<open>adapters/workflow_adapter.go\<close> over the workflow
  definitions and \<^verbatim>\<open>adapters/shared_execution_repository.go\<close> over the executions of the shared
  database. The two representations differ: a stored definition has no state and no tags, and
  a stored execution comes back without its tenant, its correlation id and its error.
\<close>

record api_db =
  db_definitions :: "stored_definition store"
  db_executions :: "execution store"

subsection \<open>Workflows\<close>

definition to_shared_workflow_definition :: "api_workflow \<Rightarrow> stored_definition" where
  "to_shared_workflow_definition w =
     \<lparr>sd_id = aw_id w, sd_name = aw_name w, sd_description = aw_description w, sd_version = ''1.0.0'',
      sd_spec_version = ''1.0.0'', sd_definition = aw_definition w, sd_created = aw_created w,
      sd_updated = aw_updated w, sd_created_by = ''api'', sd_tenant = aw_tenant w\<rparr>"

definition to_api_workflow :: "stored_definition \<Rightarrow> api_workflow" where
  "to_api_workflow d =
     \<lparr>aw_id = sd_id d, aw_name = sd_name d, aw_description = sd_description d, aw_tenant = sd_tenant d,
      aw_definition = sd_definition d, aw_state = ''active'', aw_tags = [], aw_created = sd_created d,
      aw_updated = sd_updated d\<rparr>"

definition repo_create_workflow ::
  "faults \<Rightarrow> bool \<Rightarrow> time \<Rightarrow> stored_definition store \<Rightarrow> api_workflow \<Rightarrow>
   stored_definition store \<times> (string, unit) result" where
  "repo_create_workflow faults mode now ds w =
     create_workflow faults mode now ds (to_shared_workflow_definition w)"

definition repo_get_workflow ::
  "faults \<Rightarrow> stored_definition store \<Rightarrow> string \<Rightarrow> (string, api_workflow) result" where
  "repo_get_workflow faults ds wid =
     bind_res (get_workflow_definition faults ds wid) (\<lambda>d. Inr (to_api_workflow d))"

definition repo_get_workflow_with_tenant ::
  "faults \<Rightarrow> bool \<Rightarrow> stored_definition store \<Rightarrow> string \<Rightarrow> string \<Rightarrow> (string, api_workflow) result" where
  "repo_get_workflow_with_tenant faults mode ds tenant wid =
     bind_res (get_workflow_definition_with_tenant faults mode ds tenant wid)
       (\<lambda>d. Inr (to_api_workflow d))"

definition repo_update_workflow ::
  "faults \<Rightarrow> bool \<Rightarrow> time \<Rightarrow> stored_definition store \<Rightarrow> api_workflow \<Rightarrow>
   stored_definition store \<times> (string, unit) result" where
  "repo_update_workflow faults mode now ds w =
     update_workflow_definition faults mode now ds (aw_id w) (to_shared_workflow_definition w)"

text \<open>The filters carry only a limit and an offset, which the database does not read.\<close>

definition repo_list_workflows ::
  "faults \<Rightarrow> bool \<Rightarrow> stored_definition store \<Rightarrow> (string, api_workflow list) result" where
  "repo_list_workflows faults mode ds =
     bind_res (list_workflows faults mode ds \<lparr>wf_name = [], wf_version = [], wf_tenant = []\<rparr>)
       (\<lambda>ws. Inr (map to_api_workflow ws))"

subsection \<open>Executions\<close>

definition stored_status :: "api_status \<Rightarrow> exec_status" where
  "stored_status s =
     (case s of SPending \<Rightarrow> EPending | SRunning \<Rightarrow> ERunning | SCompleted \<Rightarrow> ECompleted
      | SFaulted \<Rightarrow> EFailed | SCancelled \<Rightarrow> ECancelled | _ \<Rightarrow> EPending)"

definition shown_status :: "exec_status \<Rightarrow> api_status" where
  "shown_status s =
     (case s of EPending \<Rightarrow> SPending | ERunning \<Rightarrow> SRunning | ECompleted \<Rightarrow> SCompleted
      | EFailed \<Rightarrow> SFaulted | ECancelled \<Rightarrow> SCancelled)"

definition to_shared_execution :: "api_execution \<Rightarrow> execution" where
  "to_shared_execution x =
     \<lparr>ex_id = ax_id x, ex_workflow = ax_workflow x, ex_status = stored_status (ax_status x),
      ex_input = ax_input x, ex_output = ax_output x, ex_started_by = ''api-service'',
      ex_started = ax_started x, ex_completed = ax_completed x, ex_duration = 0,
      ex_tenant = (if ax_tenant x = [] then ''default-tenant'' else ax_tenant x)\<rparr>"

definition to_api_execution :: "execution \<Rightarrow> api_execution" where
  "to_api_execution x =
     empty_api_execution\<lparr>ax_id := ex_id x, ax_workflow := ex_workflow x, ax_started := ex_started x,
       ax_status := shown_status (ex_status x), ax_input := ex_input x, ax_output := ex_output x,
       ax_completed := ex_completed x\<rparr>"

definition repo_create_execution ::
  "faults \<Rightarrow> bool \<Rightarrow> time \<Rightarrow> execution store \<Rightarrow> api_execution \<Rightarrow>
   execution store \<times> (string, unit) result" where
  "repo_create_execution faults mode now xs x =
     create_execution faults mode now xs (to_shared_execution x)"

definition repo_get_execution ::
  "faults \<Rightarrow> bool \<Rightarrow> execution store \<Rightarrow> string \<Rightarrow> (string, api_execution) result" where
  "repo_get_execution faults mode xs eid =
     bind_res (get_execution faults mode xs eid) (\<lambda>x. Inr (to_api_execution x))"

definition repo_update_execution ::
  "faults \<Rightarrow> bool \<Rightarrow> time \<Rightarrow> execution store \<Rightarrow> api_execution \<Rightarrow>
   execution store \<times> (string, unit) result" where
  "repo_update_execution faults mode now xs x =
     update_execution faults mode now xs (ax_id x) (to_shared_execution x)"

record execution_params =
  xl_page :: page_params
  xl_sort_by :: string
  xl_sort_order :: string
  xl_search :: string
  xl_workflow :: string
  xl_status :: string
  xl_correlation :: string
  xl_tenant :: string

text \<open>A status the switch does not name leaves the filter at its zero value, which is the
  pending status and means no filter to the database.\<close>

definition status_filter :: "string \<Rightarrow> exec_status" where
  "status_filter s =
     (if s = ''running'' then ERunning else if s = ''completed'' then ECompleted
      else if s = ''failed'' then EFailed else if s = ''cancelled'' then ECancelled else EPending)"

definition repo_list_executions ::
  "faults \<Rightarrow> bool \<Rightarrow> execution store \<Rightarrow> execution_params \<Rightarrow> (string, api_execution list) result" where
  "repo_list_executions faults mode xs p =
     bind_res (list_executions faults mode xs (xl_workflow p)
         \<lparr>ef_status = status_filter (xl_status p), ef_started_by = [], ef_from = zero_time,
          ef_to = zero_time, ef_tenant = xl_tenant p\<rparr>)
       (\<lambda>ys. Inr (map to_api_execution ys))"

end
