(* ===== verification/Api_Workflows.thy ===== *)
theory Api_Workflows
  imports Api_Repositories Engine_Events
begin

text \<open>
  The workflow endpoints of the API: the service (\<^verbatim>\<open>services/workflow_service.go\<close>) and the
  handlers over it (\<^verbatim>\<open>handlers/workflow_handler.go\<close>). An operation yields the database it leaves,
  the events it published and its answer; publishing that fails is only logged. The clock of
  one request is read once (\<open>ap_now\<close>), the identifiers the uuid library draws and the decoded
  body or query of the request are arguments. An answer is a status code with either the
  body or the error code and message; \<^verbatim>\<open>gin\<close> answers a panic with 500 and an empty body.
\<close>

datatype service_error =
  WorkflowNotFound | ExecutionNotFound | ExecutionNotRunning | Invalid string string | Other string

record api_env =
  ap_faults :: faults
  ap_mode :: bool
  ap_now :: time
  ap_pub :: publisher
  ap_uuid :: string
  ap_event_uuid :: string

type_synonym 'a service = "api_db \<times> cloud_event list \<times> (service_error, 'a) result"

datatype 'a http_reply = Reply int 'a | Refuse int string string | Crash

definition emit :: "api_env \<Rightarrow> cloud_event \<Rightarrow> cloud_event list" where
  "emit env e = (if ap_pub env e = None then [e] else [])"

text \<open>Only these two texts count as not found.\<close>

definition is_not_found_error :: "string \<Rightarrow> bool" where
  "is_not_found_error err \<longleftrightarrow> err = ''not found'' \<or> err = ''record not found''"

definition workflow_lookup_error :: "string \<Rightarrow> service_error" where
  "workflow_lookup_error err =
     (if is_not_found_error err then WorkflowNotFound else Other (''failed to get workflow: '' @ err))"

subsection \<open>Creating, reading, updating and deleting\<close>

record create_request =
  cr_name :: string
  cr_description :: string
  cr_tenant :: string
  cr_definition :: "gmap option"
  cr_tags :: "string list"

definition generate_workflow_id :: "string \<Rightarrow> string" where
  "generate_workflow_id uuid = ''wf_'' @ take 16 uuid"

definition generate_execution_id :: "string \<Rightarrow> string" where
  "generate_execution_id uuid = ''ex_'' @ take 16 uuid"

text \<open>The id of the definition, or its name where it has no id; \<open>default\<close> when that is no text.\<close>

definition workflow_definition_id :: "gmap option \<Rightarrow> string" where
  "workflow_definition_id d =
     (let pick = (\<lambda>v. case v of GStr s \<Rightarrow> if s = [] then ''default'' else s | _ \<Rightarrow> ''default'')
      in case d of
           None \<Rightarrow> ''default''
         | Some m \<Rightarrow>
             (case map_of m ''id'' of
                Some v \<Rightarrow> pick v
              | None \<Rightarrow> (case map_of m ''name'' of Some v \<Rightarrow> pick v | None \<Rightarrow> ''default'')))"

definition map_value :: "gmap option \<Rightarrow> gval" where
  "map_value m = (case m of None \<Rightarrow> GNil | Some x \<Rightarrow> GMap x)"

definition new_workflow :: "api_env \<Rightarrow> create_request \<Rightarrow> api_workflow" where
  "new_workflow env r =
     \<lparr>aw_id = generate_workflow_id (ap_uuid env), aw_name = cr_name r,
      aw_description = cr_description r, aw_tenant = cr_tenant r, aw_definition = cr_definition r,
      aw_state = ''active'', aw_tags = cr_tags r, aw_created = ap_now env, aw_updated = ap_now env\<rparr>"

definition workflow_event :: "api_env \<Rightarrow> string \<Rightarrow> string \<Rightarrow> string \<Rightarrow> gmap \<Rightarrow> cloud_event" where
  "workflow_event env etype tenant wid d =
     (set_data (GMap d) (new_cloud_event (ap_now env) (ap_event_uuid env) ''io.flunq.api'' etype))
       \<lparr>ev_tenant := tenant, ev_workflow := wid\<rparr>"

definition workflow_created_event :: "api_env \<Rightarrow> api_workflow \<Rightarrow> cloud_event" where
  "workflow_created_event env w =
     workflow_event env ''io.flunq.workflow.created'' (aw_tenant w) (aw_id w)
       [(''name'', GStr (aw_name w)), (''description'', GStr (aw_description w)),
        (''state'', GStr (aw_state w)), (''tenant_id'', GStr (aw_tenant w)),
        (''workflow_definition_id'', GStr (workflow_definition_id (aw_definition w))),
        (''definition'', map_value (aw_definition w)), (''created_by'', GStr ''api'')]"

definition service_create_workflow :: "api_env \<Rightarrow> api_db \<Rightarrow> create_request \<Rightarrow> api_workflow service" where
  "service_create_workflow env db r =
     (let w = new_workflow env r
      in case validate_workflow w of
           Some (field, message) \<Rightarrow> (db, [], Inl (Invalid field message))
         | None \<Rightarrow>
             (case repo_create_workflow (ap_faults env) (ap_mode env) (ap_now env) (db_definitions db) w of
                (_, Inl err) \<Rightarrow> (db, [], Inl (Other (''failed to create workflow: '' @ err)))
              | (ds, Inr _) \<Rightarrow>
                  (db\<lparr>db_definitions := ds\<rparr>, emit env (workflow_created_event env w), Inr w)))"

definition service_get_workflow ::
  "api_env \<Rightarrow> api_db \<Rightarrow> string \<Rightarrow> (service_error, api_workflow) result" where
  "service_get_workflow env db wid =
     (case repo_get_workflow (ap_faults env) (db_definitions db) wid of
        Inl err \<Rightarrow> Inl (workflow_lookup_error err) | Inr w \<Rightarrow> Inr w)"

definition service_get_workflow_by_tenant ::
  "api_env \<Rightarrow> api_db \<Rightarrow> string \<Rightarrow> string \<Rightarrow> (service_error, api_workflow) result" where
  "service_get_workflow_by_tenant env db tenant wid =
     (case repo_get_workflow_with_tenant (ap_faults env) (ap_mode env) (db_definitions db) tenant wid of
        Inl err \<Rightarrow> Inl (workflow_lookup_error err) | Inr w \<Rightarrow> Inr w)"

record update_request =
  up_name :: "string option"
  up_description :: "string option"
  up_definition :: "gmap option"
  up_tags :: "string list option"

definition updated_workflow :: "time \<Rightarrow> update_request \<Rightarrow> api_workflow \<Rightarrow> api_workflow" where
  "updated_workflow now r w =
     w\<lparr>aw_name := (case up_name r of Some s \<Rightarrow> s | None \<Rightarrow> aw_name w),
       aw_description := (case up_description r of Some s \<Rightarrow> s | None \<Rightarrow> aw_description w),
       aw_definition := (case up_definition r of Some d \<Rightarrow> Some d | None \<Rightarrow> aw_definition w),
       aw_tags := (case up_tags r of Some t \<Rightarrow> t | None \<Rightarrow> aw_tags w), aw_updated := now\<rparr>"

definition service_update_workflow ::
  "api_env \<Rightarrow> api_db \<Rightarrow> string \<Rightarrow> update_request \<Rightarrow> api_workflow service" where
  "service_update_workflow env db wid r =
     (case service_get_workflow env db wid of
        Inl err \<Rightarrow> (db, [], Inl err)
      | Inr old \<Rightarrow>
          (let w = updated_workflow (ap_now env) r old
           in case validate_workflow w of
                Some (field, message) \<Rightarrow> (db, [], Inl (Invalid field message))
              | None \<Rightarrow>
                  (case repo_update_workflow (ap_faults env) (ap_mode env) (ap_now env) (db_definitions db) w of
                     (_, Inl err) \<Rightarrow> (db, [], Inl (Other (''failed to update workflow: '' @ err)))
                   | (ds, Inr _) \<Rightarrow>
                       (db\<lparr>db_definitions := ds\<rparr>,
                        emit env (workflow_event env ''io.flunq.workflow.updated'' (aw_tenant w) wid
                          [(''name'', GStr (aw_name w)), (''description'', GStr (aw_description w)),
                           (''state'', GStr (aw_state w)), (''updated_by'', GStr ''api'')]), Inr w))))"

definition service_delete_workflow :: "api_env \<Rightarrow> api_db \<Rightarrow> string \<Rightarrow> unit service" where
  "service_delete_workflow env db wid =
     (case service_get_workflow env db wid of
        Inl err \<Rightarrow> (db, [], Inl err)
      | Inr w \<Rightarrow>
          (case delete_workflow (ap_faults env) (ap_mode env) (db_definitions db) wid of
             (_, Inl err) \<Rightarrow> (db, [], Inl (Other (''failed to delete workflow: '' @ err)))
           | (ds, Inr _) \<Rightarrow>
               (db\<lparr>db_definitions := ds\<rparr>,
                emit env (workflow_event env ''io.flunq.workflow.deleted'' (aw_tenant w) wid
                  [(''deleted_by'', GStr ''api'')]), Inr ())))"

subsection \<open>Starting an execution\<close>

record execute_request =
  xr_input :: "gmap option"
  xr_correlation :: string
  xr_tenant :: string

definition new_execution :: "api_env \<Rightarrow> string \<Rightarrow> execute_request \<Rightarrow> api_execution" where
  "new_execution env wid r =
     empty_api_execution\<lparr>ax_id := generate_execution_id (ap_uuid env), ax_workflow := wid,
       ax_status := SPending, ax_correlation := xr_correlation r, ax_input := xr_input r,
       ax_started := ap_now env, ax_tenant := xr_tenant r\<rparr>"

definition execution_started_event ::
  "api_env \<Rightarrow> api_workflow \<Rightarrow> execute_request \<Rightarrow> string \<Rightarrow> cloud_event" where
  "execution_started_event env w r eid =
     (workflow_event env ''io.flunq.execution.started'' (xr_tenant r) (aw_id w)
       [(''workflow_name'', GStr (aw_name w)),
        (''workflow_definition_id'', GStr (workflow_definition_id (aw_definition w))),
        (''correlation_id'', GStr (xr_correlation r)), (''input'', map_value (xr_input r)),
        (''tenant_id'', GStr (xr_tenant r)), (''started_by'', GStr ''api'')])\<lparr>ev_execution := eid\<rparr>"

definition service_execute_workflow ::
  "api_env \<Rightarrow> api_db \<Rightarrow> string \<Rightarrow> execute_request \<Rightarrow> api_execution service" where
  "service_execute_workflow env db wid r =
     (case service_get_workflow_by_tenant env db (xr_tenant r) wid of
        Inl err \<Rightarrow> (db, [], Inl err)
      | Inr w \<Rightarrow>
          if aw_state w = ''inactive''
          then (db, [], Inl (Other ''workflow cannot be executed in inactive state''))
          else
            (let x = new_execution env wid r
             in case repo_create_execution (ap_faults env) (ap_mode env) (ap_now env) (db_executions db) x of
                  (_, Inl err) \<Rightarrow> (db, [], Inl (Other (''failed to create execution: '' @ err)))
                | (xs, Inr _) \<Rightarrow>
                    (db\<lparr>db_executions := xs\<rparr>, emit env (execution_started_event env w r (ax_id x)), Inr x)))"

subsection \<open>Listing\<close>

record workflow_params =
  wl_page :: page_params
  wl_sort_by :: string
  wl_sort_order :: string
  wl_search :: string
  wl_created :: string
  wl_updated :: string
  wl_status :: string
  wl_tags :: string
  wl_name :: string
  wl_description :: string
  wl_tenant :: string

definition search_workflow :: "api_workflow \<Rightarrow> string \<Rightarrow> bool" where
  "search_workflow w term \<longleftrightarrow>
     contains_ignore_case (aw_name w) term \<or> contains_ignore_case (aw_description w) term \<or>
     list_ex (\<lambda>t. contains_ignore_case t term) (aw_tags w) \<or> contains_ignore_case (aw_tenant w) term"

definition workflow_included :: "workflow_params \<Rightarrow> api_workflow \<Rightarrow> bool" where
  "workflow_included p w \<longleftrightarrow>
     (wl_status p = [] \<or> aw_state w = wl_status p) \<and>
     (wl_name p = [] \<or> contains_ignore_case (aw_name w) (wl_name p)) \<and>
     (wl_description p = [] \<or> contains_ignore_case (aw_description w) (wl_description p)) \<and>
     (wl_tags p = [] \<or> has_any_tag (aw_tags w) (parse_comma_separated (wl_tags p))) \<and>
     (wl_search p = [] \<or> search_workflow w (wl_search p)) \<and>
     (wl_tenant p = [] \<or> aw_tenant w = wl_tenant p) \<and>
     (wl_created p = [] \<or> is_in_date_range (aw_created w) (wl_created p)) \<and>
     (wl_updated p = [] \<or> is_in_date_range (aw_updated w) (wl_updated p))"

text \<open>The filters that were applied, as the answer reports them: none where there was nothing
  to filter.\<close>

definition workflow_applied_filters :: "workflow_params \<Rightarrow> gmap" where
  "workflow_applied_filters p =
     (let str = (\<lambda>k s. if s = [] then [] else [(k, GStr s)])
      in str ''status'' (wl_status p) @ str ''name'' (wl_name p) @ str ''description'' (wl_description p) @
         (if wl_tags p = [] then [] else [(''tags'', GList (map GStr (parse_comma_separated (wl_tags p))))]) @
         str ''search'' (wl_search p) @ str ''tenant_id'' (wl_tenant p) @
         str ''created_at'' (wl_created p) @ str ''updated_at'' (wl_updated p))"

definition apply_workflow_filters :: "api_workflow list \<Rightarrow> workflow_params \<Rightarrow> api_workflow list \<times> gmap" where
  "apply_workflow_filters ws p =
     (filter (workflow_included p) ws, if ws = [] then [] else workflow_applied_filters p)"

text \<open>The clause of \<open>created_at\<close> is empty, so that \<open>lt\<close> stays false there.\<close>

definition workflow_less :: "string \<Rightarrow> string \<Rightarrow> api_workflow \<Rightarrow> api_workflow \<Rightarrow> bool" where
  "workflow_less sort_by sort_order v w =
     (let by = (if sort_by = [] then ''created_at'' else sort_by);
          order = (if sort_order = [] then ''desc'' else sort_order);
          lt = (if by = ''name'' then aw_name v < aw_name w
                else if by = ''description'' then aw_description v < aw_description w
                else if by = ''state'' then aw_state v < aw_state w
                else if by = ''tenant_id'' then aw_tenant v < aw_tenant w
                else if by = ''updated_at'' then aw_updated v < aw_updated w
                else if by = ''created_at'' then False
                else aw_created v < aw_created w)
      in if order = ''desc'' then \<not> lt else lt)"

type_synonym 'a sorter = "('a \<Rightarrow> 'a \<Rightarrow> bool) \<Rightarrow> 'a list \<Rightarrow> 'a list"

definition sort_workflows ::
  "api_workflow sorter \<Rightarrow> api_workflow list \<Rightarrow> string \<Rightarrow> string \<Rightarrow> api_workflow list" where
  "sort_workflows large ws sort_by sort_order = sort_slice large (workflow_less sort_by sort_order) ws"

record workflow_listing =
  li_items :: "api_workflow list"
  li_total :: int
  li_filtered :: int
  li_filters :: gmap

text \<open>\<open>None\<close> is the panic of a page whose offset is out of range.\<close>

definition list_workflows_with_filters ::
  "api_env \<Rightarrow> api_workflow sorter \<Rightarrow> api_db \<Rightarrow> workflow_params \<Rightarrow>
   (service_error, workflow_listing) result option" where
  "list_workflows_with_filters env large db p =
     (case repo_list_workflows (ap_faults env) (ap_mode env) (db_definitions db) of
        Inl err \<Rightarrow> Some (Inl (Other (''failed to list workflows: '' @ err)))
      | Inr ws \<Rightarrow>
          (let (found, applied) = apply_workflow_filters ws p
           in map_option (\<lambda>items. Inr \<lparr>li_items = items, li_total = int (length ws),
                  li_filtered = int (length found), li_filters = applied\<rparr>)
                (paginate (sort_workflows large found (wl_sort_by p) (wl_sort_order p)) (wl_page p))))"

text \<open>Newest first; an execution without a start counts from its completion.\<close>

definition start_or_completion :: "api_execution \<Rightarrow> time" where
  "start_or_completion x =
     (if ax_started x = zero_time then (case ax_completed x of Some t \<Rightarrow> t | None \<Rightarrow> zero_time)
      else ax_started x)"

definition newest_first :: "api_execution sorter \<Rightarrow> api_execution list \<Rightarrow> api_execution list" where
  "newest_first large = sort_slice large (\<lambda>x y. start_or_completion y < start_or_completion x)"

definition executions_of_workflow ::
  "api_env \<Rightarrow> api_execution sorter \<Rightarrow> api_db \<Rightarrow> string \<Rightarrow> execution_params \<Rightarrow>
   (service_error, api_execution list) result" where
  "executions_of_workflow env large db wid p =
     (case repo_list_executions (ap_faults env) (ap_mode env) (db_executions db) (p\<lparr>xl_workflow := wid\<rparr>) of
        Inl err \<Rightarrow> Inl (Other (''failed to list executions: '' @ err))
      | Inr xs \<Rightarrow> Inr (newest_first large xs))"

definition get_workflow_executions ::
  "api_env \<Rightarrow> api_execution sorter \<Rightarrow> api_db \<Rightarrow> string \<Rightarrow> execution_params \<Rightarrow>
   (service_error, api_execution list) result" where
  "get_workflow_executions env large db wid p =
     bind_res (service_get_workflow env db wid) (\<lambda>_. executions_of_workflow env large db wid p)"

definition get_workflow_executions_by_tenant ::
  "api_env \<Rightarrow> api_execution sorter \<Rightarrow> api_db \<Rightarrow> string \<Rightarrow> string \<Rightarrow> execution_params \<Rightarrow>
   (service_error, api_execution list) result" where
  "get_workflow_executions_by_tenant env large db tenant wid p =
     bind_res (service_get_workflow_by_tenant env db tenant wid)
       (\<lambda>_. executions_of_workflow env large db wid p)"

end
