(* ===== verification/Api_Executions.thy ===== *)
theory Api_Executions
  imports Api_Workflows Event_Log
begin

text \<open>
  The execution endpoints of the API (\<^verbatim>\<open>services/execution_service.go\<close>): listing, reading and
  cancelling executions, the events of one execution, and the older way of finding an
  execution among the workflow states that an earlier worker kept in Redis. The history of a
  workflow is an argument, the answer of the event stream.
\<close>

subsection \<open>Listing and reading\<close>

definition service_list_executions ::
  "api_env \<Rightarrow> api_execution sorter \<Rightarrow> api_db \<Rightarrow> execution_params \<Rightarrow>
   (service_error, api_execution list \<times> int) result" where
  "service_list_executions env large db p =
     (case repo_list_executions (ap_faults env) (ap_mode env) (db_executions db) p of
        Inl err \<Rightarrow> Inl (Other (''failed to list executions: '' @ err))
      | Inr xs \<Rightarrow> Inr (newest_first large xs, int (length (newest_first large xs))))"

definition execution_applied_filters :: "execution_params \<Rightarrow> gmap" where
  "execution_applied_filters p =
     (let str = (\<lambda>k s. if s = [] then [] else [(k, GStr s)])
      in str ''status'' (xl_status p) @ str ''workflow_id'' (xl_workflow p) @
         str ''correlation_id'' (xl_correlation p) @ str ''search'' (xl_search p) @
         str ''tenant_id'' (xl_tenant p))"

definition list_executions_with_filters ::
  "api_env \<Rightarrow> api_db \<Rightarrow> execution_params \<Rightarrow> (service_error, api_execution list \<times> gmap) result" where
  "list_executions_with_filters env db p =
     (case repo_list_executions (ap_faults env) (ap_mode env) (db_executions db) p of
        Inl err \<Rightarrow> Inl (Other (''failed to list executions: '' @ err))
      | Inr xs \<Rightarrow> Inr (xs, execution_applied_filters p))"

definition execution_lookup_error :: "string \<Rightarrow> service_error" where
  "execution_lookup_error err =
     (if is_not_found_error err then ExecutionNotFound else Other (''failed to get execution: '' @ err))"

text \<open>The tenant is not looked at.\<close>

definition get_execution_by_tenant ::
  "api_env \<Rightarrow> api_db \<Rightarrow> string \<Rightarrow> string \<Rightarrow> (service_error, api_execution) result" where
  "get_execution_by_tenant env db eid tenant =
     (case repo_get_execution (ap_faults env) (ap_mode env) (db_executions db) eid of
        Inl err \<Rightarrow> Inl (execution_lookup_error err) | Inr x \<Rightarrow> Inr x)"

subsection \<open>Cancelling\<close>

definition execution_cancelled_event ::
  "api_env \<Rightarrow> api_execution \<Rightarrow> string \<Rightarrow> string \<Rightarrow> string \<Rightarrow> cloud_event" where
  "execution_cancelled_event env x eid reason tenant =
     (workflow_event env ''io.flunq.execution.cancelled'' tenant (ax_workflow x)
       [(''reason'', GStr reason), (''cancelled_by'', GStr ''api''),
        (''status'', GStr (status_text (ax_status x)))])\<lparr>ev_execution := eid\<rparr>"

definition service_cancel_execution :: "api_env \<Rightarrow> api_db \<Rightarrow> string \<Rightarrow> string \<Rightarrow> api_execution service" where
  "service_cancel_execution env db eid reason =
     (case repo_get_execution (ap_faults env) (ap_mode env) (db_executions db) eid of
        Inl err \<Rightarrow> (db, [], Inl (execution_lookup_error err))
      | Inr old \<Rightarrow>
          if \<not> is_running old then (db, [], Inl ExecutionNotRunning)
          else
            (let x = cancel_execution (ap_now env) reason old
             in case repo_update_execution (ap_faults env) (ap_mode env) (ap_now env) (db_executions db) x of
                  (_, Inl err) \<Rightarrow> (db, [], Inl (Other (''failed to update execution: '' @ err)))
                | (xs, Inr _) \<Rightarrow>
                    (let tenant = (case repo_get_workflow (ap_faults env) (db_definitions db) (ax_workflow x) of
                                     Inr w \<Rightarrow> aw_tenant w | Inl _ \<Rightarrow> [])
                     in (db\<lparr>db_executions := xs\<rparr>,
                         emit env (execution_cancelled_event env x eid reason tenant), Inr x))))"

subsection \<open>The events of an execution\<close>

record api_event =
  pe_id :: string
  pe_source :: string
  pe_specversion :: string
  pe_type :: string
  pe_time :: time
  pe_data :: "gmap option"
  pe_workflow :: string
  pe_execution :: string

definition to_api_event :: "cloud_event \<Rightarrow> api_event" where
  "to_api_event e =
     \<lparr>pe_id = ev_id e, pe_source = ev_source e, pe_specversion = ev_specversion e, pe_type = ev_type e,
      pe_time = ev_time e, pe_data = as_map (ev_data e), pe_workflow = ev_workflow e,
      pe_execution = ev_execution e\<rparr>"

definition single_types :: "string list" where
  "single_types = [''io.flunq.workflow.completed'', ''io.flunq.execution.started'']"

text \<open>One event per id, and of some types only the first event.\<close>

fun select_events :: "string \<Rightarrow> string list \<Rightarrow> string list \<Rightarrow> cloud_event list \<Rightarrow> api_event list" where
  "select_events eid ids types [] = []"
| "select_events eid ids types (e # es) =
     (if ev_execution e \<noteq> eid then select_events eid ids types es
      else if ev_id e \<in> set ids then select_events eid ids types es
      else if ev_type e \<in> set single_types \<and> ev_type e \<in> set types then select_events eid ids types es
      else to_api_event e #
        select_events eid (ev_id e # ids)
          (if ev_type e \<in> set single_types then ev_type e # types else types) es)"

definition get_execution_events ::
  "api_env \<Rightarrow> (string \<Rightarrow> (string, cloud_event list) result) \<Rightarrow> api_db \<Rightarrow> string \<Rightarrow> int \<Rightarrow>
   (service_error, api_event list) result" where
  "get_execution_events env history db eid limit =
     (case repo_get_execution (ap_faults env) (ap_mode env) (db_executions db) eid of
        Inl err \<Rightarrow> Inl (execution_lookup_error err)
      | Inr x \<Rightarrow>
          (case history (ax_workflow x) of
             Inl err \<Rightarrow> Inl (Other (''failed to get event history: '' @ err))
           | Inr es \<Rightarrow>
               (let evs = select_events eid [] [] es
                in Inr (if 0 < limit \<and> limit < int (length evs) then take (nat limit) evs else evs))))"

subsection \<open>Workflow states\<close>

definition convert_numeric_status :: "int \<Rightarrow> api_status" where
  "convert_numeric_status n =
     (if n = 1 then SPending else if n = 2 then SRunning else if n = 3 then SCompleted
      else if n = 4 then SFaulted else if n = 5 then SCancelled else SPending)"

definition state_seconds :: "gmap \<Rightarrow> string \<Rightarrow> time option" where
  "state_seconds state k =
     map_option (\<lambda>r. int64_of_f64 r * second) (Option.bind (get_map state k) (\<lambda>m. get_float m ''seconds''))"

definition convert_workflow_state :: "gmap \<Rightarrow> string \<Rightarrow> (string, api_execution) result" where
  "convert_workflow_state state wid =
     (case Option.bind (get_map state ''context'') (\<lambda>c. get_str c ''execution_id'') of
        None \<Rightarrow> Inl ''execution_id not found in workflow state''
      | Some eid \<Rightarrow>
          if eid = [] then Inl ''execution_id not found in workflow state''
          else
            (let status = (case get_float state ''status'' of
                             Some r \<Rightarrow> convert_numeric_status (int64_of_f64 r) | None \<Rightarrow> SPending);
                 started = (case state_seconds state ''created_at'' of Some t \<Rightarrow> t | None \<Rightarrow> zero_time);
                 completed = (if status \<in> {SCompleted, SFaulted, SCancelled}
                              then state_seconds state ''updated_at'' else None)
             in Inr (empty_api_execution\<lparr>ax_id := eid, ax_workflow := wid, ax_status := status,
                  ax_input := get_map state ''input'', ax_output := get_map state ''variables'',
                  ax_started := started, ax_completed := completed,
                  ax_duration := map_option (\<lambda>t. milliseconds (time_sub t started)) completed\<rparr>)))"

definition extract_workflow_id_from_key :: "string \<Rightarrow> string" where
  "extract_workflow_id_from_key key = drop (length ''workflow:state:'') key"

text \<open>The states under the keys that were found; one that cannot be read or parsed is \<open>None\<close>
  and is passed over.\<close>

fun find_execution_in_states ::
  "(string \<times> gmap option) list \<Rightarrow> string \<Rightarrow> (service_error, api_execution) result" where
  "find_execution_in_states [] eid = Inl ExecutionNotFound"
| "find_execution_in_states ((key, None) # ks) eid = find_execution_in_states ks eid"
| "find_execution_in_states ((key, Some state) # ks) eid =
     (if Option.bind (get_map state ''context'') (\<lambda>c. get_str c ''execution_id'') = Some eid
      then (case convert_workflow_state state (extract_workflow_id_from_key key) of
              Inl err \<Rightarrow> Inl (Other (''failed to get execution: failed to convert workflow state to execution: '' @ err))
            | Inr x \<Rightarrow> Inr x)
      else find_execution_in_states ks eid)"

end
