(* ===== verification/Api_Handlers.thy ===== *)
theory Api_Handlers
  imports Api_Executions Go_Json
begin

text \<open>
  The HTTP handlers (\<^verbatim>\<open>handlers/workflow_handler.go\<close>, \<^verbatim>\<open>handlers/execution_handler.go\<close>): from
  the parts of a request, as the router and the binding of \<^verbatim>\<open>gin\<close> hand them over, to the
  status code and the body or error of the answer. A body or query that does not bind is
  \<open>Inl\<close>; a path parameter may be empty.
\<close>

abbreviation bad_request :: "string \<Rightarrow> 'a http_reply" where
  "bad_request message \<equiv> Refuse 400 ''VALIDATION_ERROR'' message"

abbreviation invalid_data :: "'a http_reply" where
  "invalid_data \<equiv> bad_request ''The request contains invalid data''"

abbreviation internal_error :: "'a http_reply" where
  "internal_error \<equiv> Refuse 500 ''INTERNAL_ERROR'' ''An unexpected error occurred''"

abbreviation workflow_not_found :: "'a http_reply" where
  "workflow_not_found \<equiv> Refuse 404 ''WORKFLOW_NOT_FOUND'' ''The specified workflow does not exist''"

abbreviation execution_not_found :: "'a http_reply" where
  "execution_not_found \<equiv> Refuse 404 ''EXECUTION_NOT_FOUND'' ''The specified execution does not exist''"

subsection \<open>Workflows\<close>

text \<open>\<open>json.Unmarshal\<close> of the raw body into the request: the \<^verbatim>\<open>binding:"required"\<close> tags are of
  no effect there.\<close>

definition json_strings :: "gmap \<Rightarrow> string \<Rightarrow> (string, string list) result" where
  "json_strings m k =
     (case map_of m k of
        None \<Rightarrow> Inr []
      | Some GNil \<Rightarrow> Inr []
      | Some (GList xs) \<Rightarrow>
          if list_all (\<lambda>x. x = GNil \<or> as_str x \<noteq> None) xs
          then Inr (map (\<lambda>x. case as_str x of Some s \<Rightarrow> s | None \<Rightarrow> []) xs)
          else Inl (json_mismatch ''string'')
      | _ \<Rightarrow> Inl (json_mismatch ''[]string''))"

definition decode_create_request :: "gmap \<Rightarrow> (string, create_request) result" where
  "decode_create_request m =
     bind_res (json_string m ''name'') (\<lambda>n.
     bind_res (json_string m ''description'') (\<lambda>d.
     bind_res (json_string m ''tenant_id'') (\<lambda>t.
     bind_res (json_map m ''definition'') (\<lambda>def.
     bind_res (json_strings m ''tags'') (\<lambda>tags.
       Inr \<lparr>cr_name = n, cr_description = d, cr_tenant = t, cr_definition = def, cr_tags = tags\<rparr>)))))"

definition handle_create_workflow ::
  "api_env \<Rightarrow> api_db \<Rightarrow> (string, gmap) result \<Rightarrow> api_db \<times> cloud_event list \<times> api_workflow http_reply" where
  "handle_create_workflow env db body =
     (case body of
        Inl _ \<Rightarrow> (db, [], invalid_data)
      | Inr raw \<Rightarrow>
          if map_of raw ''inputSchema'' \<noteq> None
          then (db, [], bad_request (''The '' @ [CHR 0x27] @ ''inputSchema'' @ [CHR 0x27] @
                  '' field is deprecated. Please define input schema in the workflow definition using SDL 1.0.0 format under the '' @
                  [CHR 0x27] @ ''input:'' @ [CHR 0x27] @ '' section.''))
          else
            (case decode_create_request raw of
               Inl _ \<Rightarrow> (db, [], invalid_data)
             | Inr r \<Rightarrow>
                 (case service_create_workflow env db r of
                    (db', evs, Inr w) \<Rightarrow> (db', evs, Reply 201 w)
                  | (db', evs, Inl (Invalid _ message)) \<Rightarrow> (db', evs, bad_request message)
                  | (db', evs, Inl _) \<Rightarrow> (db', evs, internal_error))))"

text \<open>The tenant comes from a header or the query; the one in the path is not read.\<close>

definition handle_get_workflow ::
  "api_env \<Rightarrow> api_db \<Rightarrow> string \<Rightarrow> string \<Rightarrow> string \<Rightarrow> api_workflow http_reply" where
  "handle_get_workflow env db header qtenant wid =
     (if wid = [] then bad_request ''workflow ID is required''
      else
        let tenant = (if header = [] then qtenant else header)
        in case (if tenant \<noteq> [] then service_get_workflow_by_tenant env db tenant wid
                 else service_get_workflow env db wid) of
             Inr w \<Rightarrow> Reply 200 w
           | Inl WorkflowNotFound \<Rightarrow> workflow_not_found
           | Inl _ \<Rightarrow> internal_error)"

definition handle_update_workflow ::
  "api_env \<Rightarrow> api_db \<Rightarrow> string \<Rightarrow> (string, update_request) result \<Rightarrow>
   api_db \<times> cloud_event list \<times> api_workflow http_reply" where
  "handle_update_workflow env db wid body =
     (if wid = [] then (db, [], bad_request ''workflow ID is required'')
      else case body of
        Inl _ \<Rightarrow> (db, [], invalid_data)
      | Inr r \<Rightarrow>
          (case service_update_workflow env db wid r of
             (db', evs, Inr w) \<Rightarrow> (db', evs, Reply 200 w)
           | (db', evs, Inl WorkflowNotFound) \<Rightarrow> (db', evs, workflow_not_found)
           | (db', evs, Inl (Invalid _ message)) \<Rightarrow> (db', evs, bad_request message)
           | (db', evs, Inl _) \<Rightarrow> (db', evs, internal_error)))"

definition handle_delete_workflow ::
  "api_env \<Rightarrow> api_db \<Rightarrow> string \<Rightarrow> api_db \<times> cloud_event list \<times> unit http_reply" where
  "handle_delete_workflow env db wid =
     (if wid = [] then (db, [], bad_request ''workflow ID is required'')
      else case service_delete_workflow env db wid of
             (db', evs, Inr _) \<Rightarrow> (db', evs, Reply 204 ())
           | (db', evs, Inl WorkflowNotFound) \<Rightarrow> (db', evs, workflow_not_found)
           | (db', evs, Inl _) \<Rightarrow> (db', evs, internal_error))"

definition handle_execute_workflow ::
  "api_env \<Rightarrow> api_db \<Rightarrow> string \<Rightarrow> string \<Rightarrow> (string, execute_request) result \<Rightarrow>
   api_db \<times> cloud_event list \<times> execution_response http_reply" where
  "handle_execute_workflow env db tenant wid body =
     (if wid = [] then (db, [], bad_request ''workflow ID is required'')
      else if tenant = [] then (db, [], bad_request ''Missing tenant_id in path'')
      else case body of
        Inl _ \<Rightarrow> (db, [], invalid_data)
      | Inr r \<Rightarrow>
          (case service_execute_workflow env db wid (r\<lparr>xr_tenant := tenant\<rparr>) of
             (db', evs, Inr x) \<Rightarrow> (db', evs, Reply 202 (to_response x))
           | (db', evs, Inl WorkflowNotFound) \<Rightarrow> (db', evs, workflow_not_found)
           | (db', evs, Inl (Invalid _ message)) \<Rightarrow> (db', evs, bad_request message)
           | (db', evs, Inl _) \<Rightarrow> (db', evs, internal_error)))"

definition default_page :: "page_params \<Rightarrow> page_params" where
  "default_page p = (if pp_limit p = 0 \<and> pp_size p = 0 then p\<lparr>pp_limit := 20\<rparr> else p)"

definition workflow_list_params :: "string \<Rightarrow> workflow_params \<Rightarrow> workflow_params" where
  "workflow_list_params tenant p =
     p\<lparr>wl_page := default_page (wl_page p),
       wl_tenant := (if tenant = [] then wl_tenant p else tenant),
       wl_sort_by := (if wl_sort_by p = [] then ''created_at'' else wl_sort_by p),
       wl_sort_order := (if wl_sort_order p = [] then ''desc'' else wl_sort_order p)\<rparr>"

definition handle_list_workflows ::
  "api_env \<Rightarrow> api_workflow sorter \<Rightarrow> api_db \<Rightarrow> string \<Rightarrow> (string, workflow_params) result \<Rightarrow>
   (api_workflow list \<times> page_meta \<times> gmap \<times> int) http_reply" where
  "handle_list_workflows env large db tenant query =
     (case query of
        Inl _ \<Rightarrow> invalid_data
      | Inr q \<Rightarrow>
          (let p = workflow_list_params tenant q
           in case list_workflows_with_filters env large db p of
                None \<Rightarrow> Crash
              | Some (Inl _) \<Rightarrow> internal_error
              | Some (Inr l) \<Rightarrow>
                  Reply 200 (li_items l, new_page_meta (li_total l) (li_filtered l) (wl_page p),
                    li_filters l, li_filtered l)))"

text \<open>The parameters the handler makes up: no tenant, no filter.\<close>

definition no_execution_params :: execution_params where
  "no_execution_params =
     \<lparr>xl_page = \<lparr>pp_limit = 0, pp_offset = 0, pp_page = 0, pp_size = 0\<rparr>, xl_sort_by = [],
      xl_sort_order = [], xl_search = [], xl_workflow = [], xl_status = [], xl_correlation = [],
      xl_tenant = []\<rparr>"

definition handle_get_workflow_executions ::
  "api_env \<Rightarrow> api_execution sorter \<Rightarrow> api_db \<Rightarrow> string \<Rightarrow> string \<Rightarrow> string \<Rightarrow> (string list \<times> int) http_reply" where
  "handle_get_workflow_executions env large db header qtenant wid =
     (if wid = [] then bad_request ''workflow ID is required''
      else
        let tenant = (if header = [] then qtenant else header)
        in case (if tenant \<noteq> [] then get_workflow_executions_by_tenant env large db tenant wid no_execution_params
                 else get_workflow_executions env large db wid no_execution_params) of
             Inr xs \<Rightarrow> Reply 200 (map ax_id xs, int (length xs))
           | Inl WorkflowNotFound \<Rightarrow> workflow_not_found
           | Inl _ \<Rightarrow> internal_error)"

subsection \<open>Executions\<close>

definition execution_list_params :: "string \<Rightarrow> execution_params \<Rightarrow> execution_params" where
  "execution_list_params tenant p =
     p\<lparr>xl_page := default_page (xl_page p), xl_tenant := tenant,
       xl_sort_by := (if xl_sort_by p = [] then ''started_at'' else xl_sort_by p),
       xl_sort_order := (if xl_sort_order p = [] then ''desc'' else xl_sort_order p)\<rparr>"

definition handle_list_executions ::
  "api_env \<Rightarrow> api_execution sorter \<Rightarrow> api_db \<Rightarrow> string \<Rightarrow> (string, execution_params) result \<Rightarrow>
   (execution_response list \<times> page_meta \<times> gmap) http_reply" where
  "handle_list_executions env large db tenant query =
     (if tenant = [] then bad_request ''Missing tenant_id in path''
      else case query of
        Inl _ \<Rightarrow> invalid_data
      | Inr q \<Rightarrow>
          (let p = execution_list_params tenant q;
               answer = (\<lambda>xs applied. Reply 200 (map to_response xs,
                  new_page_meta (int (length xs)) (int (length xs)) (xl_page p), applied))
           in case list_executions_with_filters env db p of
                Inr (xs, applied) \<Rightarrow> answer xs applied
              | Inl _ \<Rightarrow>
                  (case service_list_executions env large db p of
                     Inr (xs, _) \<Rightarrow> answer xs []
                   | Inl _ \<Rightarrow> internal_error)))"

definition handle_get_execution ::
  "api_env \<Rightarrow> api_db \<Rightarrow> string \<Rightarrow> string \<Rightarrow> api_execution http_reply" where
  "handle_get_execution env db tenant eid =
     (if tenant = [] then bad_request ''Missing tenant_id in path''
      else if eid = [] then bad_request ''execution ID is required''
      else case get_execution_by_tenant env db eid tenant of
             Inr x \<Rightarrow> Reply 200 x
           | Inl ExecutionNotFound \<Rightarrow> execution_not_found
           | Inl _ \<Rightarrow> internal_error)"

text \<open>The reason of a cancellation; a body that does not bind leaves the default one.\<close>

definition handle_cancel_execution ::
  "api_env \<Rightarrow> api_db \<Rightarrow> string \<Rightarrow> (string, string) result \<Rightarrow>
   api_db \<times> cloud_event list \<times> execution_response http_reply" where
  "handle_cancel_execution env db eid body =
     (if eid = [] then (db, [], bad_request ''execution ID is required'')
      else
        let reason = (case body of Inr r \<Rightarrow> r | Inl _ \<Rightarrow> ''User requested cancellation'')
        in case service_cancel_execution env db eid reason of
             (db', evs, Inr x) \<Rightarrow> (db', evs, Reply 200 (to_response x))
           | (db', evs, Inl ExecutionNotFound) \<Rightarrow> (db', evs, execution_not_found)
           | (db', evs, Inl ExecutionNotRunning) \<Rightarrow>
               (db', evs, Refuse 400 ''INVALID_STATUS'' ''Execution is not running and cannot be cancelled'')
           | (db', evs, Inl _) \<Rightarrow> (db', evs, internal_error))"

definition handle_get_execution_events ::
  "api_env \<Rightarrow> (string \<Rightarrow> (string, cloud_event list) result) \<Rightarrow> api_db \<Rightarrow> string \<Rightarrow> string \<Rightarrow>
   (string, int) result \<Rightarrow> (api_event list \<times> int) http_reply" where
  "handle_get_execution_events env history db tenant eid query =
     (if tenant = [] then bad_request ''Missing tenant_id in path''
      else if eid = [] then bad_request ''execution ID is required''
      else case query of
        Inl _ \<Rightarrow> invalid_data
      | Inr n \<Rightarrow>
          (case bind_res (get_execution_by_tenant env db eid tenant)
                  (\<lambda>_. get_execution_events env history db eid (if n = 0 then 100 else n)) of
             Inr evs \<Rightarrow> Reply 200 (evs, int (length evs))
           | Inl ExecutionNotFound \<Rightarrow> execution_not_found
           | Inl _ \<Rightarrow> internal_error))"

end
