(* ===== verification/Api_Laws.thy ===== *)
theory Api_Laws
  imports Api_Handlers Worker_Database "HOL-Library.Sublist"
begin

text \<open>
  Correctness of the API service: what is created can be read, an execution that is started
  reaches the engine, pages partition a list, the events of an execution are shown once; and
  where the service does not do what its answers say (workflows of a tenant cannot be updated
  or deleted, a cancelled execution is faulted and goes on, the default order is none).
\<close>

subsection \<open>Workflows\<close>

lemma create_workflow_Inr:
  assumes "create_workflow faults mode now ds d = (ds', Inr u)"
  obtains m where "wire_opt (sd_definition d) = Some m"
    "ds' = put (workflow_key_with_tenant mode (sd_tenant d) (sd_id d))
       (d\<lparr>sd_created := now, sd_updated := now, sd_definition := m\<rparr>) ds"
    "map_of ds (workflow_key_with_tenant mode (sd_tenant d) (sd_id d)) = None"
  using assms
  by (auto simp: create_workflow_def marshal_definition_def Let_def split: option.splits if_splits)

lemma service_create_Inr:
  assumes "service_create_workflow env db r = (db', evs, Inr w)"
  obtains m where "w = new_workflow env r" "wire_opt (cr_definition r) = Some m"
    "db_definitions db' = put (workflow_key_with_tenant (ap_mode env) (cr_tenant r) (aw_id w))
       ((to_shared_workflow_definition w)\<lparr>sd_definition := m\<rparr>) (db_definitions db)"
    "map_of (db_definitions db) (workflow_key_with_tenant (ap_mode env) (cr_tenant r) (aw_id w)) = None"
    "db_executions db' = db_executions db" "evs = emit env (workflow_created_event env w)"
proof -
  let ?w = "new_workflow env r"
  from assms obtain ds where c: "w = ?w" "db' = db\<lparr>db_definitions := ds\<rparr>"
    "create_workflow (ap_faults env) (ap_mode env) (ap_now env) (db_definitions db)
       (to_shared_workflow_definition ?w) = (ds, Inr ())" "evs = emit env (workflow_created_event env ?w)"
    by (auto simp: service_create_workflow_def Let_def repo_create_workflow_def
        split: option.splits prod.splits sum.splits)
  have f: "sd_id (to_shared_workflow_definition ?w) = aw_id ?w" "sd_tenant (to_shared_workflow_definition ?w) = cr_tenant r"
    "sd_definition (to_shared_workflow_definition ?w) = cr_definition r"
    "(to_shared_workflow_definition ?w)\<lparr>sd_created := ap_now env, sd_updated := ap_now env, sd_definition := m\<rparr> =
       (to_shared_workflow_definition ?w)\<lparr>sd_definition := m\<rparr>" for m
    by (simp_all add: to_shared_workflow_definition_def new_workflow_def)
  from create_workflow_Inr [OF c(3)] c that show thesis unfolding f by force
qed


definition demo_env_api :: api_env where
  "demo_env_api = \<lparr>ap_faults = no_faults, ap_mode = True, ap_now = 5, ap_pub = (\<lambda>_. None),
     ap_uuid = ''0123456789abcdef0123'', ap_event_uuid = ''e''\<rparr>"

definition demo_create :: create_request where
  "demo_create = \<lparr>cr_name = ''w'', cr_description = [], cr_tenant = ''acme'',
     cr_definition = Some [(''id'', GStr ''w''), (''specVersion'', GStr ''1''), (''n'', GInt 2)],
     cr_tags = [''x'']\<rparr>"

abbreviation empty_db :: api_db where "empty_db \<equiv> \<lparr>db_definitions = [], db_executions = []\<rparr>"

lemma demo_created:
  "\<exists>db. service_create_workflow demo_env_api empty_db demo_create =
     (db, [workflow_created_event demo_env_api (new_workflow demo_env_api demo_create)],
      Inr (new_workflow demo_env_api demo_create))"
  by (simp add: service_create_workflow_def new_workflow_def demo_env_api_def demo_create_def
      validate_workflow_def repo_create_workflow_def to_shared_workflow_definition_def
      create_workflow_def marshal_definition_def no_faults_def emit_def Let_def)


text \<open>The texts of the database are none of the two that count as not found.\<close>

lemma get_definition_error:
  "get_workflow_definition faults ds wid = Inl err \<Longrightarrow> \<not> is_not_found_error err"
  by (auto simp: get_workflow_definition_def is_not_found_error_def split: if_splits option.splits)

lemma get_definition_with_tenant_error:
  "get_workflow_definition_with_tenant faults mode ds tenant wid = Inl err \<Longrightarrow> \<not> is_not_found_error err"
  by (auto simp: get_workflow_definition_with_tenant_def is_not_found_error_def split: if_splits option.splits)

lemma get_execution_error: "get_execution faults mode xs eid = Inl err \<Longrightarrow> \<not> is_not_found_error err"
  by (auto simp: get_execution_def is_not_found_error_def split: if_splits option.splits)

lemma service_get_error:
  assumes "service_get_workflow env db wid = Inl err" shows "\<exists>text. err = Other text"
  using assms get_definition_error
  by (auto simp: service_get_workflow_def repo_get_workflow_def workflow_lookup_error_def
      bind_res_eq_Inl split: sum.splits if_splits)

lemma service_get_by_tenant_error:
  assumes "service_get_workflow_by_tenant env db tenant wid = Inl err" shows "\<exists>text. err = Other text"
  using assms get_definition_with_tenant_error
  by (auto simp: service_get_workflow_by_tenant_def repo_get_workflow_with_tenant_def
      workflow_lookup_error_def bind_res_eq_Inl split: sum.splits if_splits)

text \<open>No request is ever answered with 404. The services recognise a missing workflow or
  execution by an error text the database does not use, so that reading, updating, deleting,
  executing and cancelling what does not exist are answered with 500.\<close>

theorem not_found_never_answered:
  "handle_get_workflow env db header query wid \<noteq> workflow_not_found \<and>
   snd (snd (handle_update_workflow env db wid body)) \<noteq> workflow_not_found \<and>
   snd (snd (handle_delete_workflow env db wid)) \<noteq> workflow_not_found \<and>
   snd (snd (handle_execute_workflow env db tenant wid request)) \<noteq> workflow_not_found \<and>
   handle_get_execution env db tenant eid \<noteq> execution_not_found \<and>
   snd (snd (handle_cancel_execution env db eid reason)) \<noteq> execution_not_found"
proof (intro conjI)
  have x: "repo_get_execution (ap_faults env) (ap_mode env) (db_executions db) eid = Inl err \<Longrightarrow>
      \<not> is_not_found_error err" for err
    using get_execution_error by (auto simp: repo_get_execution_def bind_res_eq_Inl)
  show "handle_get_execution env db tenant eid \<noteq> execution_not_found"
    using x by (auto simp: handle_get_execution_def get_execution_by_tenant_def
        execution_lookup_error_def split: sum.splits service_error.splits)
  show "snd (snd (handle_cancel_execution env db eid reason)) \<noteq> execution_not_found"
    using x by (auto simp: handle_cancel_execution_def service_cancel_execution_def Let_def
        execution_lookup_error_def split: sum.splits service_error.splits prod.splits)
qed (auto simp: handle_get_workflow_def handle_update_workflow_def service_update_workflow_def
    handle_delete_workflow_def service_delete_workflow_def handle_execute_workflow_def
    service_execute_workflow_def Let_def
    dest: service_get_error service_get_by_tenant_error
    split: sum.splits service_error.splits prod.splits option.splits if_splits)

lemma get_definition_missing:
  "map_of ds (workflow_key wid) = None \<Longrightarrow> \<exists>err. get_workflow_definition faults ds wid = Inl err"
  by (cases "faults ''GET''") (simp_all add: get_workflow_definition_def)

text \<open>C38: A workflow of a tenant can never be changed. The database keeps it under the key of its
  tenant, while updating and deleting look under the plain key, as does reading without a
  tenant header: all three are answered with 500 and leave the database as it is, whatever the
  request.\<close>

theorem tenant_workflow_frozen:
  assumes "service_create_workflow env db r = (db', evs, Inr w)" and "ap_mode env" and "cr_tenant r \<noteq> []"
    and "map_of (db_definitions db) (workflow_key (aw_id w)) = None"
  shows "handle_update_workflow env' db' (aw_id w) (Inr u) = (db', [], internal_error) \<and>
    handle_delete_workflow env' db' (aw_id w) = (db', [], internal_error) \<and>
    handle_get_workflow env' db' [] [] (aw_id w) = internal_error"
proof -
  obtain m where m: "w = new_workflow env r"
    "db_definitions db' = put (workflow_key_with_tenant (ap_mode env) (cr_tenant r) (aw_id w))
       ((to_shared_workflow_definition w)\<lparr>sd_definition := m\<rparr>) (db_definitions db)"
    using assms(1) by (rule service_create_Inr)
  have "workflow_key (aw_id w) \<noteq> workflow_key_with_tenant (ap_mode env) (cr_tenant r) (aw_id w)"
    using assms(2,3) by (simp add: workflow_key_def workflow_key_with_tenant_def)
  with m(2) assms(4) have "map_of (db_definitions db') (workflow_key (aw_id w)) = None"
    by (simp add: map_of_put)
  then obtain err where "get_workflow_definition (ap_faults env') (db_definitions db') (aw_id w) = Inl err"
    using get_definition_missing by blast
  then have "service_get_workflow env' db' (aw_id w) = Inl (workflow_lookup_error err)"
    by (simp add: service_get_workflow_def repo_get_workflow_def)
  moreover from service_get_error [OF this] obtain msg where "workflow_lookup_error err = Other msg" by blast
  moreover have "aw_id w \<noteq> []" using m(1) by (simp add: new_workflow_def generate_workflow_id_def)
  ultimately show ?thesis
    by (simp add: handle_update_workflow_def service_update_workflow_def handle_delete_workflow_def
        service_delete_workflow_def handle_get_workflow_def)
qed

theorem tenant_workflow_frozen_witness:
  "\<exists>db' evs w. service_create_workflow demo_env_api empty_db demo_create = (db', evs, Inr w) \<and>
     handle_delete_workflow demo_env_api db' (aw_id w) = (db', [], internal_error)"
proof -
  obtain db' evs w where c: "service_create_workflow demo_env_api empty_db demo_create = (db', evs, Inr w)"
    using demo_created by blast
  have "ap_mode demo_env_api" "cr_tenant demo_create \<noteq> []"
    by (simp_all add: demo_env_api_def demo_create_def)
  with c tenant_workflow_frozen [OF c, of demo_env_api
      "\<lparr>up_name = None, up_description = None, up_definition = None, up_tags = None\<rparr>"] show ?thesis by force
qed

subsection \<open>Executions\<close>

lemma create_execution_Inr:
  assumes "create_execution faults mode now xs x = (xs', Inr u)" and "ex_started x \<noteq> zero_time"
  obtains y where "marshal_execution (if terminal (ex_status x) then x else x\<lparr>ex_completed := None\<rparr>) = Some y"
    "xs' = put (execution_key_with_tenant mode (ex_tenant x) (ex_id x)) y xs"
  using assms by (auto simp: create_execution_def Let_def split: option.splits if_splits)

lemma service_execute_Inr:
  assumes "service_execute_workflow env db wid r = (db', evs, Inr x)" and "ap_now env \<noteq> zero_time"
  obtains d y where "get_workflow_definition_with_tenant (ap_faults env) (ap_mode env) (db_definitions db) (xr_tenant r) wid = Inr d"
    "x = new_execution env wid r" "marshal_execution (to_shared_execution x) = Some y"
    "db_executions db' = put (execution_key_with_tenant (ap_mode env) (ex_tenant (to_shared_execution x)) (ax_id x)) y (db_executions db)"
    "evs = emit env (execution_started_event env (to_api_workflow d) r (ax_id x))"
proof -
  let ?x = "new_execution env wid r"
  from assms(1) obtain d xs where c:
    "get_workflow_definition_with_tenant (ap_faults env) (ap_mode env) (db_definitions db) (xr_tenant r) wid = Inr d"
    "x = ?x" "db' = db\<lparr>db_executions := xs\<rparr>"
    "create_execution (ap_faults env) (ap_mode env) (ap_now env) (db_executions db) (to_shared_execution ?x) = (xs, Inr ())"
    "evs = emit env (execution_started_event env (to_api_workflow d) r (ax_id ?x))"
    by (auto simp: service_execute_workflow_def service_get_workflow_by_tenant_def
        repo_get_workflow_with_tenant_def repo_create_execution_def Let_def bind_res_eq_Inr
        split: sum.splits prod.splits if_splits)
  have f: "ex_started (to_shared_execution ?x) = ap_now env" "ex_id (to_shared_execution ?x) = ax_id ?x"
    "\<not> terminal (ex_status (to_shared_execution ?x))"
    "(to_shared_execution ?x)\<lparr>ex_completed := None\<rparr> = to_shared_execution ?x"
    by (simp_all add: to_shared_execution_def new_execution_def empty_api_execution_def terminal_def stored_status_def)
  show thesis
    using create_execution_Inr [OF c(4)] assms(2) c(1,2,3,5) that [of d] unfolding f by force
qed

lemma started_event_fields [simp]:
  "ev_type (execution_started_event env w r eid) = ''io.flunq.execution.started''"
  "ev_tenant (execution_started_event env w r eid) = xr_tenant r"
  "ev_workflow (execution_started_event env w r eid) = aw_id w"
  "ev_execution (execution_started_event env w r eid) = eid"
  by (simp_all add: execution_started_event_def workflow_event_def set_data_def new_cloud_event_def)

lemma started_event_data:
  assumes "wire_map m = Some m'" and "xr_input r = Some m"
  obtains d where "to_wire (ev_data (execution_started_event env w r eid)) = Some (GMap d)"
    "get_map d ''input'' = Some m'" "get_str d ''correlation_id'' = Some (xr_correlation r)"
  using assms that
  by (simp add: execution_started_event_def workflow_event_def set_data_def map_value_def get_defs)

text \<open>C14: An execution started through the API is the execution the engine runs. The request
  leaves a pending record with the input, under the tenant of the path and the id in the
  answer; the one event it publishes is one the worker subscribes to, on the stream of that
  tenant and workflow, and when the engine applies it, the workflow is running, under that
  execution id and tenant, and has the input, the same the record holds.\<close>

theorem started_execution_reaches_engine:
  assumes "service_execute_workflow env db wid r = (db', evs, Inr x)" and "ap_now env \<noteq> zero_time"
    and "ap_pub env = (\<lambda>_. None)" and "xr_tenant r \<noteq> []" and "xr_input r = Some m"
    and "\<And>d. get_workflow_definition_with_tenant (ap_faults env) (ap_mode env) (db_definitions db) (xr_tenant r) wid = Inr d \<Longrightarrow> sd_id d = wid"
  shows "\<exists>e d y m'. evs = [e] \<and> should_process_event worker_filters e \<and>
    get_stream_key e = ''tenant:'' @ xr_tenant r @ '':workflow:'' @ (if wid = [] then ''default'' else wid) @ '':events'' \<and>
    to_wire (ev_data e) = Some (GMap d) \<and>
    ws_status (process_execution_started s (wire_event (GMap d) e)) = WRunning \<and>
    ws_input (process_execution_started s (wire_event (GMap d) e)) = Some m' \<and>
    context_ids (process_execution_started s (wire_event (GMap d) e)) = (xr_tenant r, ax_id x) \<and>
    map_of (db_executions db') (execution_key_with_tenant (ap_mode env) (xr_tenant r) (ax_id x)) = Some y \<and>
    ex_status y = EPending \<and> ex_input y = Some m' \<and> ex_workflow y = wid \<and> ex_tenant y = xr_tenant r"
proof -
  obtain w y where c:
    "get_workflow_definition_with_tenant (ap_faults env) (ap_mode env) (db_definitions db) (xr_tenant r) wid = Inr w"
    "x = new_execution env wid r" "marshal_execution (to_shared_execution x) = Some y"
    "db_executions db' = put (execution_key_with_tenant (ap_mode env) (ex_tenant (to_shared_execution x)) (ax_id x)) y (db_executions db)"
    "evs = emit env (execution_started_event env (to_api_workflow w) r (ax_id x))"
    using assms(1,2) by (rule service_execute_Inr)
  let ?e = "execution_started_event env (to_api_workflow w) r (ax_id x)"
  have x: "ex_tenant (to_shared_execution x) = xr_tenant r" "ex_input (to_shared_execution x) = Some m"
    "ex_status (to_shared_execution x) = EPending" "ex_workflow (to_shared_execution x) = wid"
    using c(2) assms(4,5) by (simp_all add: to_shared_execution_def new_execution_def empty_api_execution_def stored_status_def)
  obtain m' where m': "wire_map m = Some m'" "ex_input y = Some m'"
    using c(3) x(2) by (auto simp: marshal_execution_def bind_eq_Some_conv)
  obtain d where d: "to_wire (ev_data ?e) = Some (GMap d)" "get_map d ''input'' = Some m'"
    using started_event_data [OF m'(1) assms(5)] by metis
  have "aw_id (to_api_workflow w) = wid" using assms(6) [OF c(1)] by (simp add: to_api_workflow_def)
  then show ?thesis
    using c(4,5) x d m' assms(3,4) wire_map_idem [OF m'(1)] marshal_execution_fields [OF c(3)]
    by (intro exI [of _ ?e] exI [of _ d] exI [of _ y] exI [of _ m'])
      (simp add: emit_def should_process_event_def worker_filters_def get_stream_key_def
        process_execution_started_def context_ids_def Let_def map_of_put)
qed

definition demo_definition_store :: "stored_definition store" where
  "demo_definition_store =
     [(''tenant:acme:workflow:definition:w1'',
       \<lparr>sd_id = ''w1'', sd_name = ''w'', sd_description = [], sd_version = ''1.0.0'', sd_spec_version = ''1.0.0'',
        sd_definition = Some [], sd_created = 1, sd_updated = 1, sd_created_by = ''api'', sd_tenant = ''acme''\<rparr>)]"

definition demo_execute :: execute_request where
  "demo_execute = \<lparr>xr_input = Some [(''n'', GFloat 2)], xr_correlation = [], xr_tenant = ''acme''\<rparr>"

lemma demo_lookup:
  "get_workflow_definition_with_tenant (ap_faults demo_env_api) (ap_mode demo_env_api) demo_definition_store
     (xr_tenant demo_execute) ''w1'' = Inr (snd (hd demo_definition_store))"
  by (simp add: get_workflow_definition_with_tenant_def demo_definition_store_def demo_env_api_def
      no_faults_def workflow_key_with_tenant_def demo_execute_def)

abbreviation demo_db :: api_db where
  "demo_db \<equiv> \<lparr>db_definitions = demo_definition_store, db_executions = []\<rparr>"

lemma demo_executed:
  "\<exists>db' evs. service_execute_workflow demo_env_api demo_db ''w1'' demo_execute =
     (db', evs, Inr (new_execution demo_env_api ''w1'' demo_execute))"
proof -
  have "service_get_workflow_by_tenant demo_env_api demo_db (xr_tenant demo_execute) ''w1'' =
      Inr (to_api_workflow (snd (hd demo_definition_store)))"
    by (simp add: service_get_workflow_by_tenant_def repo_get_workflow_with_tenant_def demo_lookup)
  moreover have "\<exists>xs. create_execution (ap_faults demo_env_api) (ap_mode demo_env_api) (ap_now demo_env_api) []
      (to_shared_execution (new_execution demo_env_api ''w1'' demo_execute)) = (xs, Inr ())"
    by (simp add: create_execution_def demo_env_api_def no_faults_def to_shared_execution_def
        new_execution_def empty_api_execution_def demo_execute_def marshal_execution_def
        zero_time_def second_def stored_status_def terminal_def)
  ultimately show ?thesis
    by (force simp: service_execute_workflow_def repo_create_execution_def Let_def to_api_workflow_def)
qed

theorem started_execution_reaches_engine_witness:
  "\<exists>db' evs x e d m'. service_execute_workflow demo_env_api demo_db ''w1'' demo_execute = (db', evs, Inr x) \<and>
     evs = [e] \<and> should_process_event worker_filters e \<and> to_wire (ev_data e) = Some (GMap d) \<and>
     ws_input (process_execution_started (empty_state demo_definition) (wire_event (GMap d) e)) = Some m'"
proof -
  obtain db' evs x where c: "service_execute_workflow demo_env_api demo_db ''w1'' demo_execute = (db', evs, Inr x)"
    using demo_executed by blast
  have "ap_now demo_env_api \<noteq> zero_time" "ap_pub demo_env_api = (\<lambda>_. None)" "xr_tenant demo_execute \<noteq> []"
    "xr_input demo_execute = Some [(''n'', GFloat 2)]"
    by (simp_all add: demo_env_api_def demo_execute_def zero_time_def second_def)
  moreover have "get_workflow_definition_with_tenant (ap_faults demo_env_api) (ap_mode demo_env_api)
      (db_definitions demo_db) (xr_tenant demo_execute) ''w1'' = Inr d \<Longrightarrow> sd_id d = ''w1''" for d
    using demo_lookup by (auto simp: demo_definition_store_def)
  ultimately show ?thesis
    using started_execution_reaches_engine [OF c, of "[(''n'', GFloat 2)]" "empty_state demo_definition"] c by blast
qed

lemma cancelled_event_fields [simp]:
  "ev_type (execution_cancelled_event env x eid reason tenant) = ''io.flunq.execution.cancelled''"
  "ev_tenant (execution_cancelled_event env x eid reason tenant) = tenant"
  "ev_execution (execution_cancelled_event env x eid reason tenant) = eid"
  by (simp_all add: execution_cancelled_event_def workflow_event_def set_data_def new_cloud_event_def)

lemma cancel_execution_fields:
  "ax_status (cancel_execution now reason x) = SFaulted" "ax_id (cancel_execution now reason x) = ax_id x"
  "ax_tenant (cancel_execution now reason x) = ax_tenant x" "ax_completed (cancel_execution now reason x) = Some now"
  by (simp_all add: cancel_execution_def set_error_def Let_def)

lemma service_cancel_Inr:
  assumes "service_cancel_execution env db eid reason = (db', evs, Inr x)"
  obtains old xs tenant where "get_execution (ap_faults env) (ap_mode env) (db_executions db) eid = Inr old"
    "x = cancel_execution (ap_now env) reason (to_api_execution old)" "db' = db\<lparr>db_executions := xs\<rparr>"
    "update_execution (ap_faults env) (ap_mode env) (ap_now env) (db_executions db) (ax_id x) (to_shared_execution x) = (xs, Inr ())"
    "evs = emit env (execution_cancelled_event env x eid reason tenant)"
  using assms
  by (auto simp: service_cancel_execution_def repo_get_execution_def repo_update_execution_def Let_def
      bind_res_eq_Inr split: sum.splits prod.splits if_splits)

text \<open>C37: Cancelling an execution fails it, moves it to another tenant and does not stop it. The
  answer and the stored record say that the execution faulted, since recording the reason sets
  the status again; the record is written under the tenant \<open>default-tenant\<close>, since the one it
  had is not read back; and the event that is published is none the worker subscribes to.\<close>

theorem cancel_faults_execution:
  assumes "handle_cancel_execution env db eid body = (db', evs, Reply 200 r)"
    and "ap_faults env = no_faults"
    and "get_execution no_faults (ap_mode env) (db_executions db) eid = Inr old" and "ex_id old = eid"
  shows "re_status r = SFaulted \<and>
    (\<exists>y. get_execution no_faults (ap_mode env) (db_executions db') eid = Inr y \<and> ex_status y = EFailed \<and>
       ex_tenant y = ''default-tenant'') \<and>
    (\<forall>e \<in> set evs. ev_execution e = eid \<and> \<not> should_process_event worker_filters e)"
proof -
  obtain reason x where c: "service_cancel_execution env db eid reason = (db', evs, Inr x)" "r = to_response x"
    using assms(1) by (auto simp: handle_cancel_execution_def Let_def
        split: if_splits prod.splits sum.splits service_error.splits)
  from service_cancel_Inr [OF c(1)] obtain xs tenant where s:
    "x = cancel_execution (ap_now env) reason (to_api_execution old)" "db' = db\<lparr>db_executions := xs\<rparr>"
    "update_execution no_faults (ap_mode env) (ap_now env) (db_executions db) (ax_id x) (to_shared_execution x) = (xs, Inr ())"
    "evs = emit env (execution_cancelled_event env x eid reason tenant)"
    using assms(2,3) by (metis Inr_inject)
  have x: "ax_status x = SFaulted" "ax_id x = eid" "ax_tenant x = []"
    using s(1) assms(4) by (simp_all add: cancel_execution_fields to_api_execution_def empty_api_execution_def)
  from execs.upd_ok [OF s(3)] obtain y where y: "stored_execution (ap_now env) old eid (to_shared_execution x) = Some y"
    "get_execution no_faults (ap_mode env) xs eid = Inr y"
    using x(2) assms(3) by auto
  have "ex_status y = EFailed \<and> ex_tenant y = ''default-tenant''"
    using y(1) x by (auto simp: stored_execution_def marshal_execution_fields normalize_fields normalize_execution_def
        to_shared_execution_def stored_status_def Let_def)
  then show ?thesis
    using y(2) s(2,4) c(2) x
    by (auto simp: to_response_def emit_def should_process_event_def worker_filters_def)
qed

definition demo_running :: execution where
  "demo_running =
     \<lparr>ex_id = ''x1'', ex_workflow = ''w1'', ex_status = ERunning, ex_input = None, ex_output = None,
      ex_started_by = ''api-service'', ex_started = 1, ex_completed = None, ex_duration = 0, ex_tenant = ''acme''\<rparr>"

abbreviation demo_running_db :: api_db where
  "demo_running_db \<equiv> \<lparr>db_definitions = [], db_executions = [(''execution:x1'', demo_running)]\<rparr>"

lemma demo_cancelled:
  "\<exists>db' evs r. handle_cancel_execution demo_env_api demo_running_db ''x1'' (Inr ''stop'') = (db', evs, Reply 200 r)"
  by (simp add: handle_cancel_execution_def service_cancel_execution_def repo_get_execution_def
      repo_update_execution_def get_execution_def update_execution_def find_execution_key_def
      execution_key_def demo_env_api_def no_faults_def to_api_execution_def demo_running_def
      empty_api_execution_def is_running_def shown_status_def cancel_execution_def set_error_def
      to_shared_execution_def stored_status_def normalize_execution_def marshal_execution_def Let_def)

theorem cancel_faults_execution_witness:
  "\<exists>db' evs r. handle_cancel_execution demo_env_api demo_running_db ''x1'' (Inr ''stop'') = (db', evs, Reply 200 r) \<and>
     re_status r = SFaulted"
proof -
  obtain db' evs r where c: "handle_cancel_execution demo_env_api demo_running_db ''x1'' (Inr ''stop'') = (db', evs, Reply 200 r)"
    using demo_cancelled by blast
  have "ap_faults demo_env_api = no_faults" "ex_id demo_running = ''x1''"
    "get_execution no_faults (ap_mode demo_env_api) (db_executions demo_running_db) ''x1'' = Inr demo_running"
    by (simp_all add: demo_env_api_def demo_running_def get_execution_def find_execution_key_def execution_key_def)
  with cancel_faults_execution [OF c] c show ?thesis by blast
qed

text \<open>What the selection keeps, by induction on the history.\<close>

lemma select_events_ids:
  "x \<in> set (select_events eid ids types es) \<Longrightarrow>
     pe_execution x = eid \<and> pe_id x \<notin> set ids \<and> (pe_type x \<in> set single_types \<longrightarrow> pe_type x \<notin> set types)"
proof (induction es arbitrary: ids types)
  case Nil
  then show ?case by simp
next
  case (Cons e es)
  show ?case
    using Cons.prems Cons.IH [of ids types] Cons.IH [of "ev_id e # ids" types]
      Cons.IH [of "ev_id e # ids" "ev_type e # types"]
    by (auto simp: to_api_event_def split: if_splits)
qed

lemma select_events_no_repeat:
  "y \<in> set (select_events eid ids (t # types) es) \<Longrightarrow> t \<in> set single_types \<Longrightarrow> pe_type y \<noteq> t"
  using select_events_ids by fastforce

lemma select_events_distinct: "distinct (map pe_id (select_events eid ids types es))"
proof (induction es arbitrary: ids types)
  case Nil
  show ?case by simp
next
  case (Cons e es)
  have "pe_id (to_api_event e) \<notin> pe_id ` set (select_events eid (ev_id e # ids) types' es)" for types'
    using select_events_ids by (fastforce simp: to_api_event_def)
  with Cons show ?case by simp
qed

lemma select_events_subseq:
  "subseq (select_events eid ids types es) (map to_api_event (filter (\<lambda>e. ev_execution e = eid) es))"
  by (induction es arbitrary: ids types) (auto intro: list_emb_Cons)

lemma select_events_single:
  "\<lbrakk>x \<in> set (select_events eid ids types es); y \<in> set (select_events eid ids types es);
    pe_type x = pe_type y; pe_type x \<in> set single_types\<rbrakk> \<Longrightarrow> x = y"
proof (induction es arbitrary: ids types)
  case Nil
  then show ?case by simp
next
  case (Cons e es)
  show ?case
    using Cons.prems Cons.IH select_events_no_repeat [of x eid "ev_id e # ids" "ev_type e" types es]
      select_events_no_repeat [of y eid "ev_id e # ids" "ev_type e" types es]
    by (auto simp: to_api_event_def split: if_splits)
qed

lemma select_events_complete:
  assumes "e \<in> set es" and "ev_execution e = eid" and "ev_id e \<notin> set ids"
    and "ev_type e \<in> set single_types \<longrightarrow> ev_type e \<notin> set types"
  shows "\<exists>x \<in> set (select_events eid ids types es).
     pe_id x = ev_id e \<or> (pe_type x = ev_type e \<and> ev_type e \<in> set single_types)"
  using assms
proof (induction es arbitrary: ids types)
  case Nil
  then show ?case by simp
next
  case (Cons a es)
  show ?case
  proof (cases "a = e")
    case True
    with Cons.prems show ?thesis by (auto simp: to_api_event_def)
  next
    case False
    then have "e \<in> set es" using Cons.prems(1) by simp
    with Cons.IH [of ids types] Cons.IH [of "ev_id a # ids" types] Cons.IH [of "ev_id a # ids" "ev_type a # types"]
      Cons.prems(2-4) show ?thesis
      by (cases "ev_id a = ev_id e"; cases "ev_type a = ev_type e") (auto simp: to_api_event_def)
  qed
qed

text \<open>C30: The events shown for an execution are those of its history, each once. They appear in the
  order of the history, all belong to the execution, no id appears twice, and of the start of
  an execution and the completion of a workflow only the first is shown; where the limit does
  not cut the list, every event of the execution is shown, up to an earlier one of its id or,
  of those two types, of its type.\<close>

theorem execution_events_once:
  assumes "get_execution_events env history db eid limit = Inr evs"
    and "get_execution (ap_faults env) (ap_mode env) (db_executions db) eid = Inr x"
    and "history (ex_workflow x) = Inr es"
  shows "subseq evs (map to_api_event (filter (\<lambda>e. ev_execution e = eid) es)) \<and>
    distinct (map pe_id evs) \<and>
    (\<forall>a \<in> set evs. \<forall>b \<in> set evs. pe_type a = pe_type b \<and> pe_type a \<in> set single_types \<longrightarrow> a = b) \<and>
    (limit \<le> 0 \<or> int (length evs) < limit \<longrightarrow>
       (\<forall>e \<in> set es. ev_execution e = eid \<longrightarrow>
          (\<exists>a \<in> set evs. pe_id a = ev_id e \<or> (pe_type a = ev_type e \<and> ev_type e \<in> set single_types))))"
proof -
  let ?all = "select_events eid [] [] es"
  have e: "evs = (if 0 < limit \<and> limit < int (length ?all) then take (nat limit) ?all else ?all)"
    using assms by (simp add: get_execution_events_def repo_get_execution_def to_api_execution_def Let_def split: if_splits)
  then obtain n where n: "evs = take n ?all" by (metis take_all order_refl)
  have "subseq evs ?all" unfolding n by (rule sublist_imp_subseq) (rule sublist_take)
  moreover have "subseq ?all (map to_api_event (filter (\<lambda>e. ev_execution e = eid) es))"
    by (rule select_events_subseq)
  ultimately have "subseq evs (map to_api_event (filter (\<lambda>e. ev_execution e = eid) es))"
    by (rule subseq_order.trans)
  moreover have "distinct (map pe_id evs)"
    unfolding n using select_events_distinct [of eid "[]" "[]" es] by (simp add: take_map [symmetric] distinct_take)
  moreover have "\<forall>a \<in> set evs. \<forall>b \<in> set evs. pe_type a = pe_type b \<and> pe_type a \<in> set single_types \<longrightarrow> a = b"
    unfolding n using select_events_single [of _ eid "[]" "[]" es] in_set_takeD by metis
  moreover have "evs = ?all" if "limit \<le> 0 \<or> int (length evs) < limit"
    using that e by (auto split: if_splits)
  ultimately show ?thesis
    using select_events_complete [of _ es eid "[]" "[]"] by auto
qed

definition demo_api_history :: "cloud_event list" where
  "demo_api_history =
     [empty_event\<lparr>ev_id := ''a'', ev_type := ''io.flunq.execution.started'', ev_execution := ''x1''\<rparr>,
      empty_event\<lparr>ev_id := ''b'', ev_type := ''io.flunq.execution.started'', ev_execution := ''x1''\<rparr>,
      empty_event\<lparr>ev_id := ''c'', ev_type := ''io.flunq.task.completed'', ev_execution := ''x2''\<rparr>,
      empty_event\<lparr>ev_id := ''d'', ev_type := ''io.flunq.task.completed'', ev_execution := ''x1''\<rparr>]"

theorem execution_events_once_witness:
  "\<exists>evs. get_execution_events demo_env_api (\<lambda>_. Inr demo_api_history) demo_running_db ''x1'' 100 = Inr evs \<and>
     map pe_id evs = [''a'', ''d''] \<and> distinct (map pe_id evs)"
proof -
  let ?evs = "select_events ''x1'' [] [] demo_api_history"
  have x: "get_execution (ap_faults demo_env_api) (ap_mode demo_env_api) (db_executions demo_running_db) ''x1'' = Inr demo_running"
    by (simp add: demo_env_api_def get_execution_def find_execution_key_def execution_key_def)
  have i: "map pe_id ?evs = [''a'', ''d'']"
    by (simp add: demo_api_history_def to_api_event_def single_types_def empty_event_def)
  then have "length ?evs = 2" by (metis length_map length_Cons list.size(3) numeral_2_eq_2)
  then have g: "get_execution_events demo_env_api (\<lambda>_. Inr demo_api_history) demo_running_db ''x1'' 100 = Inr ?evs"
    using x by (simp add: get_execution_events_def repo_get_execution_def Let_def)
  from execution_events_once [OF g x, of demo_api_history] i g show ?thesis by auto
qed

subsection \<open>Lists\<close>

lemma le_div_int: "0 < n \<Longrightarrow> m \<le> x div n \<longleftrightarrow> m * n \<le> (x :: int)"
proof
  assume n: "0 < n" and "m \<le> x div n"
  then have "m * n \<le> x div n * n" by (simp add: mult_right_mono)
  also have "\<dots> \<le> x" using n by (simp add: minus_mod_eq_div_mult [symmetric])
  finally show "m * n \<le> x" .
next
  assume "0 < n" and "m * n \<le> x"
  then show "m \<le> x div n" using zdiv_mono1 [of "m * n" x n] by simp
qed

text \<open>The page of number \<open>k\<close> and size \<open>n\<close>.\<close>

definition nth_page :: "int \<Rightarrow> int \<Rightarrow> page_params" where
  "nth_page n k = \<lparr>pp_limit = 0, pp_offset = 0, pp_page = k, pp_size = n\<rparr>"

lemma paginate_page:
  assumes "0 < n" and "k * n < 2 ^ 63" and "0 \<le> k"
  shows "paginate xs (nth_page n (k + 1)) = Some (take (nat n) (drop (nat (k * n)) xs))"
proof -
  have "0 \<le> k * n" using assms by simp
  then have o: "wrap64 (k * n) = k * n" "0 \<le> k * n" using assms(2) by simp_all
  show ?thesis
  proof (cases "int (length xs) \<le> k * n")
    case True
    then have "drop (nat (k * n)) xs = []" by simp
    with True o assms show ?thesis by (simp add: paginate_def page_window_def nth_page_def)
  next
    case False
    have "take (nat (min (k * n + n) (int (length xs)) - k * n)) (drop (nat (k * n)) xs) =
        take (nat n) (drop (nat (k * n)) xs)"
      using False o by (cases "k * n + n \<le> int (length xs)") (simp_all add: min_def nat_diff_distrib)
    moreover have "\<not> k * n < 0" using o(2) by linarith
    ultimately show ?thesis using False o(1) assms(1,3) by (simp add: paginate_def page_window_def nth_page_def)
  qed
qed

lemma pages_prefix:
  assumes "0 < n" and "int p * n < 2 ^ 63"
  shows "concat (map (\<lambda>k. the (paginate xs (nth_page n (int k + 1)))) [0..<p]) = take (p * nat n) xs"
  using assms
proof (induction p)
  case 0
  then show ?case by simp
next
  case (Suc p)
  have le: "int p * n \<le> int (Suc p) * n" using Suc.prems(1) by (simp add: mult_right_mono)
  then have "int p * n < 2 ^ 63" using Suc.prems(2) by linarith
  moreover have "nat (int p * n) = p * nat n" using Suc.prems(1) by (simp add: nat_mult_distrib)
  ultimately show ?case
    using Suc.IH Suc.prems(1) paginate_page [of n "int p" xs] take_add [of "p * nat n" "nat n" xs]
    by (simp add: add.commute)
qed

text \<open>C29: The pages of a list partition it. For every size of a page, the pages from the first to
  the last that the answer announces, put together, are the whole list in its order, and only
  the last of them announces no further page.\<close>

theorem pages_partition:
  assumes "0 < n" and "n \<le> 100" and "int (length xs) < 2 ^ 62"
    and "pages = pm_total_pages (new_page_meta count (int (length xs)) (nth_page n 1))"
  shows "concat (map (\<lambda>k. the (paginate xs (nth_page n (int k + 1)))) [0..<nat pages]) = xs \<and>
    (\<forall>k. 0 \<le> k \<and> k < pages \<longrightarrow>
      (pm_has_next (new_page_meta count (int (length xs)) (nth_page n (k + 1))) \<longleftrightarrow> k + 1 < pages))"
proof (intro conjI allI impI)
  define len where "len = int (length xs)"
  define q where "q = (len + n - 1) div n"
  have len: "0 \<le> len" "len < 2 ^ 62" using assms(3) by (simp_all add: len_def)
  have p: "pages = (if q = 0 then 1 else q)"
    using assms(1,4) by (simp add: q_def len_def new_page_meta_def page_window_def nth_page_def)
  have q: "m \<le> q \<longleftrightarrow> m * n \<le> len + n - 1" for m
    using assms(1) by (simp add: q_def le_div_int)
  have "q * n \<le> len + n - 1" using q [of q] by simp
  then have pn: "pages * n \<le> len + n" using len(1) assms(1) by (simp add: p)
  have "\<not> (q + 1) * n \<le> len + n - 1" using q [of "q + 1"] by simp
  then have "len \<le> q * n" by (simp add: distrib_right)
  moreover have "0 \<le> q" using q [of 0] len(1) assms(1) by simp
  ultimately have cover: "len \<le> pages * n" "1 \<le> pages" using assms(1) by (cases "q = 0"; simp add: p)+
  have "length xs \<le> nat pages * nat n"
    using cover assms(1) by (simp add: len_def nat_mult_distrib [symmetric] le_nat_iff)
  moreover have "int (nat pages) * n < 2 ^ 63" using pn cover(2) len(2) assms(2) by simp
  ultimately show "concat (map (\<lambda>k. the (paginate xs (nth_page n (int k + 1)))) [0..<nat pages]) = xs"
    using pages_prefix [OF assms(1), of "nat pages" xs] by simp
  fix k assume k: "0 \<le> k \<and> k < pages"
  then have "(k + 1) * n \<le> pages * n" using assms(1) by (simp add: mult_right_mono)
  then have b: "0 \<le> k * n" "k * n + n < 2 ^ 63" using pn k len(2) assms(1,2) by (simp_all add: distrib_right)
  then have "wrap64 (k * n) = k * n" "wrap64 (k * n + n) = k * n + n" using assms(1) by (simp_all del: zero_le_mult_iff)
  then have "pm_has_next (new_page_meta count len (nth_page n (k + 1))) \<longleftrightarrow> k * n + n < len"
    using k assms(1) by (simp add: new_page_meta_def page_window_def nth_page_def Let_def)
  also have "\<dots> \<longleftrightarrow> (k + 2) \<le> q" using q [of "k + 2"] by (auto simp: distrib_right)
  also have "\<dots> \<longleftrightarrow> k + 1 < pages" using k by (auto simp: p)
  finally show "pm_has_next (new_page_meta count (int (length xs)) (nth_page n (k + 1))) \<longleftrightarrow> k + 1 < pages"
    by (simp add: len_def)
qed

theorem pages_partition_witness:
  "concat (map (\<lambda>k. the (paginate [1, 2, 3, 4, 5::nat] (nth_page 2 (int k + 1)))) [0..<3]) = [1, 2, 3, 4, 5]"
proof -
  have "(3::int) = pm_total_pages (new_page_meta 5 (int (length [1, 2, 3, 4, 5::nat])) (nth_page 2 1))"
    by (simp add: new_page_meta_def page_window_def nth_page_def)
  from pages_partition [OF _ _ _ this] show ?thesis by (simp only: nat_numeral) simp
qed

text \<open>Insertion sort with a comparison that does not look at the elements.\<close>

lemma insert_back_const: "insert_back (\<lambda>_ _. b) x xs = (if b then xs @ [x] else x # xs)"
  by (cases b) (induction xs; simp)+

lemma insertion_sort_const: "insertion_sort (\<lambda>_ _. b) xs = (if b then rev xs else xs)"
proof -
  have "fold (insert_back (\<lambda>_ _. b)) xs ys = (if b then ys @ xs else rev xs @ ys)" for ys
    by (induction xs arbitrary: ys) (simp_all add: insert_back_const)
  then show ?thesis by (simp add: insertion_sort_def)
qed

text \<open>The default order of the workflow list is no order. The comparison the service hands to
  \<open>sort.Slice\<close> for \<open>created_at\<close> does not look at the workflows, since that clause of the switch
  is empty: it is always true when descending and always false when ascending, so that a list
  of at most twelve workflows is shown in the reverse of the order in which the database found
  them, or in that order, whenever they were created.\<close>

theorem default_order_ignores_creation:
  assumes "length ws \<le> 12"
  shows "sort_workflows large ws ''created_at'' ''desc'' = rev ws \<and>
    sort_workflows large ws ''created_at'' ''asc'' = ws \<and>
    sort_workflows large ws [] [] = rev ws"
proof -
  have "workflow_less ''created_at'' ''desc'' = (\<lambda>_ _. True)" "workflow_less [] [] = (\<lambda>_ _. True)"
    "workflow_less ''created_at'' ''asc'' = (\<lambda>_ _. False)"
    by (simp_all add: workflow_less_def fun_eq_iff)
  with assms show ?thesis by (simp add: sort_workflows_def sort_slice_def insertion_sort_const)
qed

definition demo_workflow :: "string \<Rightarrow> time \<Rightarrow> api_workflow" where
  "demo_workflow i t = \<lparr>aw_id = i, aw_name = i, aw_description = [], aw_tenant = ''acme'', aw_definition = None,
     aw_state = ''active'', aw_tags = [], aw_created = t, aw_updated = t\<rparr>"

theorem default_order_ignores_creation_witness:
  "map aw_id (sort_workflows (\<lambda>_ ws. ws) [demo_workflow ''a'' 3, demo_workflow ''b'' 1, demo_workflow ''c'' 2]
     ''created_at'' ''desc'') = [''c'', ''b'', ''a'']"
  using default_order_ignores_creation [of "[demo_workflow ''a'' 3, demo_workflow ''b'' 1, demo_workflow ''c'' 2]" "\<lambda>_ ws. ws"]
  by (simp add: demo_workflow_def)

text \<open>A page far enough out crashes the request. The offset of a page is computed in 64 bits;
  where the product wraps around to a negative number, which the checked ranges of the query
  allow, the slice of the list is taken with a negative bound and panics.\<close>

theorem far_page_crashes:
  assumes "2 ^ 63 \<le> (pp_page (wl_page q) - 1) * pp_size (wl_page q)"
    and "(pp_page (wl_page q) - 1) * pp_size (wl_page q) < 2 ^ 64"
    and "0 < pp_page (wl_page q)" and "0 < pp_size (wl_page q)"
    and "\<not> ap_faults env ''SCAN''"
  shows "handle_list_workflows env large db tenant (Inr q) = Crash"
proof -
  let ?p = "workflow_list_params tenant q"
  let ?i = "(pp_page (wl_page q) - 1) * pp_size (wl_page q)"
  have w: "page_window (wl_page ?p) = (pp_size (wl_page q), wrap64 ?i)"
    using assms(3,4) by (simp add: page_window_def workflow_list_params_def default_page_def)
  have "wrap64 ?i = wrap64 (?i - 2 ^ 64)" by (rule wrap64_minus [symmetric])
  also have "\<dots> = ?i - 2 ^ 64" using assms(1,2) by (intro wrap64_id) simp_all
  finally have "wrap64 ?i < 0" using assms(2) by simp
  then have "paginate xs (wl_page ?p) = None" for xs :: "api_workflow list"
    using w by (simp add: paginate_def)
  moreover obtain ws where "repo_list_workflows (ap_faults env) (ap_mode env) (db_definitions db) = Inr ws"
    using assms(5) by (simp add: repo_list_workflows_def list_workflows_def)
  ultimately show ?thesis
    by (simp add: handle_list_workflows_def list_workflows_with_filters_def Let_def split: prod.split)
qed

definition far_page :: workflow_params where
  "far_page =
     \<lparr>wl_page = \<lparr>pp_limit = 0, pp_offset = 0, pp_page = 2 ^ 60, pp_size = 10\<rparr>, wl_sort_by = [],
      wl_sort_order = [], wl_search = [], wl_created = [], wl_updated = [], wl_status = [], wl_tags = [],
      wl_name = [], wl_description = [], wl_tenant = []\<rparr>"

theorem far_page_crashes_witness:
  "page_params_ok (wl_page far_page) \<and>
   handle_list_workflows demo_env_api (\<lambda>_ ws. ws) empty_db ''acme'' (Inr far_page) = Crash"
proof
  show "page_params_ok (wl_page far_page)" by (simp add: far_page_def page_params_ok_def)
  show "handle_list_workflows demo_env_api (\<lambda>_ ws. ws) empty_db ''acme'' (Inr far_page) = Crash"
    by (rule far_page_crashes) (simp_all add: far_page_def demo_env_api_def)
qed

end
