(* ===== verification/Api_Accessors.thy ===== *)
theory Api_Accessors
  imports Api_Handlers
begin

text \<open>
  The rest of the API service: the accessors, JSON forms and copies of workflows and
  executions (\<^verbatim>\<open>models/workflow.go\<close>, \<^verbatim>\<open>models/execution.go\<close>), error and health answers
  (\<^verbatim>\<open>models/response.go\<close>, \<^verbatim>\<open>handlers/health_handler.go\<close>), the middleware, the filters and
  the order of executions that no endpoint uses, and the endpoint of workflow events.
\<close>

subsection \<open>Workflow definitions\<close>

definition definition_field :: "api_workflow \<Rightarrow> string \<Rightarrow> gval option" where
  "definition_field w k = Option.bind (aw_definition w) (\<lambda>d. map_of d k)"

definition set_definition_field :: "string \<Rightarrow> gval \<Rightarrow> api_workflow \<Rightarrow> api_workflow" where
  "set_definition_field k v w =
     w\<lparr>aw_definition := Some (put k v (case aw_definition w of None \<Rightarrow> [] | Some d \<Rightarrow> d))\<rparr>"

definition text_field :: "api_workflow \<Rightarrow> string \<Rightarrow> string" where
  "text_field w k = (case Option.bind (definition_field w k) as_str of Some s \<Rightarrow> s | None \<Rightarrow> [])"

definition list_field :: "api_workflow \<Rightarrow> string \<Rightarrow> gval list option" where
  "list_field w k = Option.bind (definition_field w k) as_list"

definition definition_id :: "api_workflow \<Rightarrow> string" where "definition_id w = text_field w ''id''"
definition spec_version :: "api_workflow \<Rightarrow> string" where "spec_version w = text_field w ''specVersion''"
definition start_state :: "api_workflow \<Rightarrow> string" where "start_state w = text_field w ''start''"
definition states_of :: "api_workflow \<Rightarrow> gval list option" where "states_of w = list_field w ''states''"
definition functions_of :: "api_workflow \<Rightarrow> gval list option" where "functions_of w = list_field w ''functions''"
definition events_of :: "api_workflow \<Rightarrow> gval list option" where "events_of w = list_field w ''events''"

text \<open>A JSON text is written as the value it decodes to; a nil map is written as null. Decoding
  into a map that is there keeps the keys the text does not name.\<close>

definition map_to_json :: "gmap option \<Rightarrow> gval option" where
  "map_to_json m = (case m of None \<Rightarrow> Some GNil | Some x \<Rightarrow> to_wire (GMap x))"

definition map_from_json :: "json_text \<Rightarrow> gmap option \<Rightarrow> (string, gmap option) result" where
  "map_from_json t m =
     (case t of
        JValue GNil \<Rightarrow> Inr None
      | JValue (GMap n) \<Rightarrow> Inr (Some (merge_into (case m of None \<Rightarrow> [] | Some x \<Rightarrow> x) n))
      | JValue _ \<Rightarrow> Inl (json_mismatch ''map[string]interface {}'')
      | JEmpty \<Rightarrow> Inl ''unexpected end of JSON input''
      | JInvalid \<Rightarrow> Inl ''invalid JSON'')"

definition workflow_to_json :: "api_workflow \<Rightarrow> gval option" where
  "workflow_to_json w = map_to_json (aw_definition w)"

definition workflow_from_json :: "json_text \<Rightarrow> api_workflow \<Rightarrow> (string, api_workflow) result" where
  "workflow_from_json t w =
     bind_res (map_from_json t (aw_definition w)) (\<lambda>d. Inr (w\<lparr>aw_definition := d\<rparr>))"

text \<open>The copy through JSON: its errors are ignored, and what cannot be marshalled is lost.\<close>

definition json_copy :: "gmap option \<Rightarrow> gmap option" where
  "json_copy m = Option.bind m wire_map"

definition clone_workflow :: "api_workflow \<Rightarrow> api_workflow" where
  "clone_workflow w = w\<lparr>aw_definition := json_copy (aw_definition w)\<rparr>"

subsection \<open>Input and output of executions\<close>

definition input_field :: "api_execution \<Rightarrow> string \<Rightarrow> gval option" where
  "input_field x k = Option.bind (ax_input x) (\<lambda>m. map_of m k)"

definition set_input_field :: "string \<Rightarrow> gval \<Rightarrow> api_execution \<Rightarrow> api_execution" where
  "set_input_field k v x = x\<lparr>ax_input := Some (put k v (case ax_input x of None \<Rightarrow> [] | Some m \<Rightarrow> m))\<rparr>"

definition output_field :: "api_execution \<Rightarrow> string \<Rightarrow> gval option" where
  "output_field x k = Option.bind (ax_output x) (\<lambda>m. map_of m k)"

definition set_output_field :: "string \<Rightarrow> gval \<Rightarrow> api_execution \<Rightarrow> api_execution" where
  "set_output_field k v x = x\<lparr>ax_output := Some (put k v (case ax_output x of None \<Rightarrow> [] | Some m \<Rightarrow> m))\<rparr>"

text \<open>No input is written as the empty object here.\<close>

definition input_to_json :: "api_execution \<Rightarrow> gval option" where
  "input_to_json x = (case ax_input x of None \<Rightarrow> Some (GMap []) | Some m \<Rightarrow> to_wire (GMap m))"

definition output_to_json :: "api_execution \<Rightarrow> gval option" where
  "output_to_json x = (case ax_output x of None \<Rightarrow> Some (GMap []) | Some m \<Rightarrow> to_wire (GMap m))"

definition from_input_json :: "json_text \<Rightarrow> api_execution \<Rightarrow> (string, api_execution) result" where
  "from_input_json t x =
     (if t = JEmpty then Inr (x\<lparr>ax_input := Some []\<rparr>)
      else bind_res (map_from_json t (ax_input x)) (\<lambda>m. Inr (x\<lparr>ax_input := m\<rparr>)))"

definition from_output_json :: "json_text \<Rightarrow> api_execution \<Rightarrow> (string, api_execution) result" where
  "from_output_json t x =
     (if t = JEmpty then Inr (x\<lparr>ax_output := Some []\<rparr>)
      else bind_res (map_from_json t (ax_output x)) (\<lambda>m. Inr (x\<lparr>ax_output := m\<rparr>)))"

text \<open>The clone leaves the tenant out.\<close>

definition clone_execution :: "api_execution \<Rightarrow> api_execution" where
  "clone_execution x =
     x\<lparr>ax_tenant := [], ax_input := json_copy (ax_input x), ax_output := json_copy (ax_output x),
       ax_error := map_option (\<lambda>e. e\<lparr>xe_details := (case wire_map (xe_details e) of Some d \<Rightarrow> d | None \<Rightarrow> [])\<rparr>)
         (ax_error x)\<rparr>"

subsection \<open>Answers\<close>

record error_response =
  rr_error :: string
  rr_message :: string
  rr_details :: "gmap option"
  rr_request :: string

definition new_error_response :: "string \<Rightarrow> string \<Rightarrow> error_response" where
  "new_error_response code message =
     \<lparr>rr_error = code, rr_message = message, rr_details = None, rr_request = []\<rparr>"

definition with_details :: "gmap \<Rightarrow> error_response \<Rightarrow> error_response" where
  "with_details d r = r\<lparr>rr_details := Some d\<rparr>"

definition with_request_id :: "string \<Rightarrow> error_response \<Rightarrow> error_response" where
  "with_request_id i r = r\<lparr>rr_request := i\<rparr>"

record health_response =
  hr_status :: string
  hr_timestamp :: time
  hr_version :: string
  hr_dependencies :: "(string \<times> string) list"

definition check_redis :: "(unit \<Rightarrow> bool) option \<Rightarrow> string" where
  "check_redis ping =
     (case ping of None \<Rightarrow> ''unhealthy'' | Some p \<Rightarrow> if p () then ''healthy'' else ''unhealthy'')"

text \<open>A placeholder in the code.\<close>

definition check_event_store :: string where "check_event_store = ''healthy''"

definition handle_health :: "(unit \<Rightarrow> bool) option \<Rightarrow> time \<Rightarrow> int \<times> health_response" where
  "handle_health ping now =
     (let deps = [(''redis'', check_redis ping), (''event_store'', check_event_store)];
          status = (if list_ex (\<lambda>(n, s). s \<noteq> ''healthy'') deps then ''unhealthy'' else ''healthy'')
      in (if status = ''healthy'' then 200 else 503,
          \<lparr>hr_status = status, hr_timestamp = now, hr_version = ''1.0.0'', hr_dependencies = deps\<rparr>))"

text \<open>The metrics are not implemented; the time is given as the JSON of the answer has it.\<close>

definition handle_metrics :: "string \<Rightarrow> int \<times> gmap" where
  "handle_metrics now =
     (200, [(''service'', GStr ''flunq-api''), (''version'', GStr ''1.0.0''), (''timestamp'', GStr now),
            (''uptime'', GStr ''not_implemented''), (''requests'', GStr ''not_implemented''),
            (''errors'', GStr ''not_implemented'')])"

text \<open>The middleware: the id of a request, and the headers for requests across origins with the
  answer to a preflight, which ends the request.\<close>

definition request_id :: "string \<Rightarrow> string \<Rightarrow> string" where
  "request_id header uuid = (if header = [] then uuid else header)"

definition cors_headers :: "string \<Rightarrow> (string \<times> string) list" where
  "cors_headers origin =
     (if origin \<noteq> [] then [(''Access-Control-Allow-Origin'', origin), (''Vary'', ''Origin'')]
      else [(''Access-Control-Allow-Origin'', ''*'')]) @
     [(''Access-Control-Allow-Credentials'', ''true''),
      (''Access-Control-Allow-Headers'', ''Content-Type, Content-Length, Accept-Encoding, X-CSRF-Token, Authorization, accept, origin, Cache-Control, X-Requested-With, X-Tenant-ID''),
      (''Access-Control-Allow-Methods'', ''POST, OPTIONS, GET, PUT, DELETE'')]"

definition cors :: "string \<Rightarrow> string \<Rightarrow> (string \<times> string) list \<times> int option" where
  "cors meth origin = (cors_headers origin, if meth = ''OPTIONS'' then Some 204 else None)"

subsection \<open>Input schemas\<close>

text \<open>\<^verbatim>\<open>services/input_validator.go\<close>. The schema library is an argument: the errors it finds in
  an input, none for a valid one, or its own failure.\<close>

record input_error =
  ie_field :: string
  ie_message :: string
  ie_value :: gval

type_synonym schema_lib = "gval \<Rightarrow> gval \<Rightarrow> (string, input_error list) result"

definition validate_input ::
  "schema_lib \<Rightarrow> gmap option \<Rightarrow> gmap option \<Rightarrow> (string, bool \<times> input_error list) result" where
  "validate_input lib schema input =
     (if schema = None \<or> schema = Some [] then Inr (True, [])
      else case map_to_json schema of
             None \<Rightarrow> Inl ''invalid input schema''
           | Some s \<Rightarrow>
               (case map_to_json input of
                  None \<Rightarrow> Inl ''invalid input data''
                | Some i \<Rightarrow>
                    (case lib s i of
                       Inl e \<Rightarrow> Inl (''schema validation error: '' @ e)
                     | Inr errs \<Rightarrow> Inr (errs = [], errs))))"

definition validate_schema :: "schema_lib \<Rightarrow> gmap option \<Rightarrow> string option" where
  "validate_schema lib schema =
     (case schema of
        None \<Rightarrow> None
      | Some m \<Rightarrow>
          (case to_wire (GMap m) of
             None \<Rightarrow> Some ''invalid schema format''
           | Some s \<Rightarrow>
               (case lib s (GMap []) of Inl e \<Rightarrow> Some (''invalid JSON schema: '' @ e) | Inr _ \<Rightarrow> None)))"

definition error_line :: "(gval \<Rightarrow> string) \<Rightarrow> input_error \<Rightarrow> string" where
  "error_line fmt e =
     (if ie_field e \<noteq> []
      then ''  - Field '' @ [CHR 0x27] @ ie_field e @ [CHR 0x27] @ '': '' @ ie_message e
      else ''  - '' @ ie_message e) @
     (if ie_value e \<noteq> GNil then '' (received: '' @ fmt (ie_value e) @ '')'' else [])"

definition property_line :: "(gval \<Rightarrow> string) \<Rightarrow> gmap \<Rightarrow> string \<times> gval \<Rightarrow> string list" where
  "property_line fmt schema p =
     (case snd p of
        GMap field \<Rightarrow>
          [''  - '' @ fst p @ '': '' @
           (case map_of field ''type'' of Some t \<Rightarrow> fmt t | None \<Rightarrow> ''any'') @
           (case map_of field ''description'' of Some d \<Rightarrow> '' - '' @ fmt d | None \<Rightarrow> []) @
           (case get_list schema ''required'' of
              Some rs \<Rightarrow> if GStr (fst p) \<in> set rs then '' (required)'' else [] | None \<Rightarrow> [])]
      | _ \<Rightarrow> [])"

definition format_validation_errors ::
  "(gval \<Rightarrow> string) \<Rightarrow> input_error list \<Rightarrow> gmap option \<Rightarrow> string" where
  "format_validation_errors fmt errs schema =
     (if errs = [] then []
      else join_with (CHR 0x0A)
        (''Input validation failed:'' # map (error_line fmt) errs @
         (case schema of
            None \<Rightarrow> []
          | Some m \<Rightarrow>
              [[], ''Expected input schema:''] @
              (case get_map m ''properties'' of
                 Some ps \<Rightarrow> concat (map (property_line fmt m) ps) | None \<Rightarrow> []))))"

subsection \<open>Executions: filters and order\<close>

record execution_query = execution_params +
  el_started :: string
  el_completed :: string
  el_created :: string
  el_updated :: string

definition search_execution :: "api_execution \<Rightarrow> string \<Rightarrow> bool" where
  "search_execution x term \<longleftrightarrow>
     contains_ignore_case (ax_workflow x) term \<or> contains_ignore_case (ax_correlation x) term \<or>
     contains_ignore_case (ax_tenant x) term \<or> contains_ignore_case (status_text (ax_status x)) term"

definition execution_included :: "execution_query \<Rightarrow> api_execution \<Rightarrow> bool" where
  "execution_included p x \<longleftrightarrow>
     (xl_status p = [] \<or> status_text (ax_status x) = xl_status p) \<and>
     (xl_workflow p = [] \<or> ax_workflow x = xl_workflow p) \<and>
     (xl_correlation p = [] \<or> ax_correlation x = xl_correlation p) \<and>
     (xl_tenant p = [] \<or> ax_tenant x = xl_tenant p) \<and>
     (xl_search p = [] \<or> search_execution x (xl_search p)) \<and>
     (el_started p = [] \<or> is_in_date_range (ax_started x) (el_started p)) \<and>
     (el_completed p = [] \<or>
       (case ax_completed x of None \<Rightarrow> True | Some t \<Rightarrow> is_in_date_range t (el_completed p))) \<and>
     (el_created p = [] \<or> is_in_date_range (ax_started x) (el_created p)) \<and>
     (el_updated p = [] \<or>
       is_in_date_range (case ax_completed x of Some t \<Rightarrow> t | None \<Rightarrow> ax_started x) (el_updated p))"

text \<open>The filters are noted while an execution is looked at: none without one, and the date of
  completion only with a completed one.\<close>

definition noted_filters :: "execution_query \<Rightarrow> api_execution \<Rightarrow> gmap" where
  "noted_filters p x =
     (let str = (\<lambda>k s. if s = [] then [] else [(k, GStr s)])
      in str ''status'' (xl_status p) @ str ''workflow_id'' (xl_workflow p) @
         str ''correlation_id'' (xl_correlation p) @ str ''tenant_id'' (xl_tenant p) @
         str ''search'' (xl_search p) @ str ''started_at'' (el_started p) @
         (if ax_completed x = None then [] else str ''completed_at'' (el_completed p)) @
         str ''created_at'' (el_created p) @ str ''updated_at'' (el_updated p))"

definition apply_execution_filters ::
  "api_execution list \<Rightarrow> execution_query \<Rightarrow> api_execution list \<times> gmap" where
  "apply_execution_filters xs p =
     (filter (execution_included p) xs, fold (\<lambda>x m. merge_into m (noted_filters p x)) xs [])"

text \<open>Again an empty clause, the one of \<open>started_at\<close>, the default.\<close>

definition execution_less :: "string \<Rightarrow> string \<Rightarrow> api_execution \<Rightarrow> api_execution \<Rightarrow> bool" where
  "execution_less sort_by sort_order x y =
     (let by = (if sort_by = [] then ''started_at'' else sort_by);
          order = (if sort_order = [] then ''desc'' else sort_order);
          lt = (if by = ''workflow_id'' then ax_workflow x < ax_workflow y
                else if by = ''status'' then status_text (ax_status x) < status_text (ax_status y)
                else if by = ''correlation_id'' then ax_correlation x < ax_correlation y
                else if by = ''tenant_id'' then ax_tenant x < ax_tenant y
                else if by = ''completed_at'' then
                  (case (ax_completed x, ax_completed y) of
                     (None, _) \<Rightarrow> False | (Some _, None) \<Rightarrow> True | (Some s, Some t) \<Rightarrow> s < t)
                else if by = ''started_at'' then False
                else ax_started x < ax_started y)
      in if order = ''desc'' then \<not> lt else lt)"

definition sort_executions ::
  "api_execution sorter \<Rightarrow> api_execution list \<Rightarrow> string \<Rightarrow> string \<Rightarrow> api_execution list" where
  "sort_executions large xs sort_by sort_order = sort_slice large (execution_less sort_by sort_order) xs"

text \<open>The same code as for workflows.\<close>

definition paginate_executions :: "api_execution list \<Rightarrow> page_params \<Rightarrow> api_execution list option" where
  "paginate_executions xs p = paginate xs p"

definition service_get_execution ::
  "(string \<times> gmap option) list \<Rightarrow> string \<Rightarrow> (service_error, api_execution) result" where
  "service_get_execution states eid = find_execution_in_states states eid"

text \<open>The state of the earlier worker: absent, not readable, or the JSON it holds.\<close>

definition executions_from_state ::
  "(string, json_text option) result \<Rightarrow> string \<Rightarrow> (string, api_execution list) result" where
  "executions_from_state answer wid =
     (case answer of
        Inl e \<Rightarrow> Inl (''failed to get workflow state from Redis: '' @ e)
      | Inr None \<Rightarrow> Inr []
      | Inr (Some t) \<Rightarrow>
          (case map_from_json t None of
             Inl e \<Rightarrow> Inl (''failed to parse workflow state JSON: '' @ e)
           | Inr m \<Rightarrow>
               (case convert_workflow_state (case m of None \<Rightarrow> [] | Some x \<Rightarrow> x) wid of
                  Inl e \<Rightarrow> Inl (''failed to convert workflow state to execution: '' @ e)
                | Inr x \<Rightarrow> Inr [x])))"

subsection \<open>Workflow events\<close>

text \<open>Reading the history is not implemented: the list is empty whatever the workflow is.\<close>

record event_history_response =
  eh_events :: "api_event list"
  eh_count :: int
  eh_since :: string

definition get_workflow_events :: "string \<Rightarrow> int \<Rightarrow> api_event list" where
  "get_workflow_events wid limit = []"

definition handle_get_workflow_events ::
  "string \<Rightarrow> (string, string \<times> int) result \<Rightarrow> event_history_response http_reply" where
  "handle_get_workflow_events wid query =
     (if wid = [] then bad_request ''workflow ID is required''
      else case query of
        Inl _ \<Rightarrow> invalid_data
      | Inr (since, limit) \<Rightarrow>
          (let evs = get_workflow_events wid (if limit = 0 then 100 else limit)
           in Reply 200 \<lparr>eh_events = evs, eh_count = int (length evs), eh_since = since\<rparr>))"

definition service_list_workflows ::
  "api_env \<Rightarrow> api_db \<Rightarrow> (string, api_workflow list \<times> int) result" where
  "service_list_workflows env db =
     (case repo_list_workflows (ap_faults env) (ap_mode env) (db_definitions db) of
        Inl err \<Rightarrow> Inl (''failed to list workflows: '' @ err)
      | Inr ws \<Rightarrow> Inr (ws, int (length ws)))"

subsection \<open>What holds of them\<close>

lemma definition_field_set:
  "definition_field (set_definition_field k v w) k' = (if k' = k then Some v else definition_field w k')"
  by (simp add: definition_field_def set_definition_field_def map_simps split: option.splits)

lemma execution_field_set:
  "input_field (set_input_field k v x) k' = (if k' = k then Some v else input_field x k')"
  "output_field (set_output_field k v x) k' = (if k' = k then Some v else output_field x k')"
  by (simp_all add: input_field_def set_input_field_def output_field_def set_output_field_def map_simps
      split: option.splits)

text \<open>A workflow survives its JSON: what comes back is what a copy has.\<close>

lemma workflow_json_roundtrip:
  assumes "workflow_to_json w = Some j" "distinct (map fst (case aw_definition w of None \<Rightarrow> [] | Some d \<Rightarrow> d))"
  shows "workflow_from_json (JValue j) (w\<lparr>aw_definition := None\<rparr>) = Inr (clone_workflow w)"
proof -
  have merge: "merge_into [] m = m" if "distinct (map fst m)" for m :: gmap
  proof -
    have "distinct (map fst (n @ m)) \<Longrightarrow> merge_into n m = n @ m" for n
    proof (induction m arbitrary: n)
      case (Cons p m)
      obtain k v where p: "p = (k, v)" by (cases p)
      have "k \<notin> fst ` set n" using Cons.prems by (auto simp: p)
      then have "put k v n = n @ [(k, v)]" by (induction n) auto
      then show ?case using Cons p by simp
    qed simp
    from this [of "[]"] that show ?thesis by simp
  qed
  show ?thesis
  proof (cases "aw_definition w")
    case None
    then show ?thesis
      using assms(1) by (simp add: workflow_to_json_def map_to_json_def workflow_from_json_def
          map_from_json_def clone_workflow_def json_copy_def)
  next
    case (Some d)
    then obtain n where n: "wire_map d = Some n" "j = GMap n"
      using assms(1) by (auto simp: workflow_to_json_def map_to_json_def split: option.splits)
    have "map fst n = map fst d" using keys_wire_map [OF n(1)] .
    then show ?thesis
      using Some n assms(2) merge [of n]
      by (simp add: workflow_from_json_def map_from_json_def clone_workflow_def json_copy_def)
  qed
qed

text \<open>The copy of an execution has lost its tenant.\<close>

lemma clone_loses_tenant: "ax_tenant (clone_execution x) = []"
  by (simp add: clone_execution_def)

lemma filtered_executions:
  "x \<in> set (fst (apply_execution_filters xs p)) \<longleftrightarrow> x \<in> set xs \<and> execution_included p x"
  by (auto simp: apply_execution_filters_def)

text \<open>By default, and by the start in any order, the comparison ignores the executions.\<close>

lemma execution_order_ignores_start:
  "execution_less sort_by ord x y \<longleftrightarrow> execution_less sort_by ord x' y'"
  if "sort_by \<in> {[], ''started_at''}"
  using that by (auto simp: execution_less_def Let_def)

lemma no_schema_accepts: "validate_input lib None i = Inr (True, [])" "validate_input lib (Some []) i = Inr (True, [])"
  by (simp_all add: validate_input_def)

lemma healthy_iff_redis_answers:
  "fst (handle_health ping now) = 200 \<longleftrightarrow> (\<exists>p. ping = Some p \<and> p ())"
  by (auto simp: handle_health_def check_redis_def check_event_store_def Let_def split: option.splits)

end
