(* ===== verification/Api_Copies.thy ===== *)
theory Api_Copies
  imports Api_Executions
begin

text \<open>
  Code that the API has twice, and that no request reaches: the adapter of \<^verbatim>\<open>cmd/server/main.go\<close>
  that the execution service is given for workflows, beside the one of
  \<^verbatim>\<open>adapters/workflow_adapter.go\<close>; and the reading of a workflow state in
  \<^verbatim>\<open>execution_service.go\<close>, beside the one of \<^verbatim>\<open>workflow_service.go\<close>. Each copy is translated as it
  stands and shown to do what the other does.
\<close>

subsection \<open>Details of a workflow\<close>

record task_execution =
  te_name :: string
  te_type :: string
  te_input :: "gmap option"
  te_output :: "gmap option"
  te_started :: "time option"
  te_completed :: "time option"
  te_duration :: int
  te_status :: string
  te_error :: string

record workflow_detail = api_workflow +
  dt_count :: int
  dt_last :: "time option"
  dt_input :: "gmap option"
  dt_output :: "gmap option"
  dt_tasks :: "task_execution list option"

text \<open>The counts and the executions are not looked up.\<close>

definition to_api_workflow_detail :: "stored_definition \<Rightarrow> workflow_detail" where
  "to_api_workflow_detail d =
     api_workflow.extend (to_api_workflow d) (workflow_detail.fields 0 None None None None)"

record shared_filters = workflow_filters +
  sf_limit :: int
  sf_offset :: int

definition to_shared_workflow_filters :: "workflow_params \<Rightarrow> shared_filters" where
  "to_shared_workflow_filters p =
     \<lparr>wf_name = [], wf_version = [], wf_tenant = [],
      sf_limit = pp_limit (wl_page p), sf_offset = pp_offset (wl_page p)\<rparr>"

definition repo_delete_workflow ::
  "faults \<Rightarrow> bool \<Rightarrow> stored_definition store \<Rightarrow> string \<Rightarrow> stored_definition store \<times> (string, unit) result" where
  "repo_delete_workflow faults mode ds wid = delete_workflow faults mode ds wid"

definition repo_stats ::
  "faults \<Rightarrow> bool \<Rightarrow> stored_definition store \<Rightarrow> execution store \<Rightarrow> (string, nat \<times> nat) result" where
  "repo_stats faults mode ds xs = database_stats faults mode ds xs"

subsection \<open>The adapter of the server\<close>

definition server_create_workflow ::
  "faults \<Rightarrow> bool \<Rightarrow> time \<Rightarrow> stored_definition store \<Rightarrow> api_workflow \<Rightarrow>
   stored_definition store \<times> (string, unit) result" where
  "server_create_workflow faults mode now ds w =
     create_workflow faults mode now ds
       \<lparr>sd_id = aw_id w, sd_name = aw_name w, sd_description = aw_description w, sd_version = ''1.0.0'',
        sd_spec_version = ''1.0.0'', sd_definition = aw_definition w, sd_created = aw_created w,
        sd_updated = aw_updated w, sd_created_by = ''api'', sd_tenant = aw_tenant w\<rparr>"

definition server_get_workflow ::
  "faults \<Rightarrow> stored_definition store \<Rightarrow> string \<Rightarrow> (string, workflow_detail) result" where
  "server_get_workflow faults ds wid =
     (case get_workflow_definition faults ds wid of
        Inl e \<Rightarrow> Inl e
      | Inr d \<Rightarrow>
          Inr \<lparr>aw_id = sd_id d, aw_name = sd_name d, aw_description = sd_description d, aw_tenant = sd_tenant d,
            aw_definition = sd_definition d, aw_state = ''active'', aw_tags = [], aw_created = sd_created d,
            aw_updated = sd_updated d, dt_count = 0, dt_last = None, dt_input = None, dt_output = None,
            dt_tasks = None\<rparr>)"

definition server_update_workflow ::
  "faults \<Rightarrow> bool \<Rightarrow> time \<Rightarrow> stored_definition store \<Rightarrow> api_workflow \<Rightarrow>
   stored_definition store \<times> (string, unit) result" where
  "server_update_workflow faults mode now ds w =
     update_workflow_definition faults mode now ds (aw_id w)
       \<lparr>sd_id = aw_id w, sd_name = aw_name w, sd_description = aw_description w, sd_version = ''1.0.0'',
        sd_spec_version = ''1.0.0'', sd_definition = aw_definition w, sd_created = aw_created w,
        sd_updated = aw_updated w, sd_created_by = ''api'', sd_tenant = aw_tenant w\<rparr>"

definition server_delete_workflow ::
  "faults \<Rightarrow> bool \<Rightarrow> stored_definition store \<Rightarrow> string \<Rightarrow> stored_definition store \<times> (string, unit) result" where
  "server_delete_workflow faults mode ds wid = delete_workflow faults mode ds wid"

text \<open>The list and its length, which is not the number of workflows there are but of those returned.
  The limit and the offset are passed on, and the database does not read them.\<close>

definition server_list_workflows ::
  "faults \<Rightarrow> bool \<Rightarrow> stored_definition store \<Rightarrow> workflow_params \<Rightarrow> (string, api_workflow list \<times> nat) result" where
  "server_list_workflows faults mode ds p =
     (case list_workflows faults mode ds (workflow_filters.truncate
             \<lparr>wf_name = [], wf_version = [], wf_tenant = [],
              sf_limit = pp_limit (wl_page p), sf_offset = pp_offset (wl_page p)\<rparr>) of
        Inl e \<Rightarrow> Inl e
      | Inr ds' \<Rightarrow>
          Inr (map (\<lambda>d. \<lparr>aw_id = sd_id d, aw_name = sd_name d, aw_description = sd_description d,
              aw_tenant = sd_tenant d, aw_definition = sd_definition d, aw_state = ''active'', aw_tags = [],
              aw_created = sd_created d, aw_updated = sd_updated d\<rparr>) ds', length ds'))"

text \<open>It does what the adapter of the workflow service does, whatever the request.\<close>

lemma server_adapter_agrees:
  "server_create_workflow = repo_create_workflow" "server_update_workflow = repo_update_workflow"
  "server_delete_workflow = repo_delete_workflow"
  "server_get_workflow faults ds wid = map_sum id to_api_workflow_detail (get_workflow_definition faults ds wid)"
  "map_sum id api_workflow.truncate (server_get_workflow faults ds wid) = repo_get_workflow faults ds wid"
  "map_sum id fst (server_list_workflows faults mode ds p) = repo_list_workflows faults mode ds"
  by (auto simp: server_create_workflow_def repo_create_workflow_def server_update_workflow_def
      repo_update_workflow_def to_shared_workflow_definition_def server_delete_workflow_def repo_delete_workflow_def
      server_get_workflow_def repo_get_workflow_def to_api_workflow_detail_def to_api_workflow_def
      server_list_workflows_def repo_list_workflows_def api_workflow.defs workflow_detail.defs workflow_filters.defs
      bind_res_def split: sum.split intro!: ext)

text \<open>Without a tenant, neither finds the workflows of a tenant.\<close>

lemma server_misses_tenants:
  assumes "\<forall>x \<in> set ds. \<exists>t. fst x = ''tenant:'' @ t" and "\<not> faults ''GET''"
  shows "server_get_workflow faults ds wid = Inl (''workflow not found: '' @ wid)"
proof -
  have "map_of ds (workflow_key wid) = None"
    using assms(1) by (fastforce simp: map_of_eq_None_iff workflow_key_def)
  then show ?thesis using assms(2) by (simp add: server_get_workflow_def get_workflow_definition_def)
qed

subsection \<open>The state of a workflow as an execution\<close>

definition status_of_number :: "int \<Rightarrow> api_status" where
  "status_of_number n =
     (case [(1, SPending), (2, SRunning), (3, SCompleted), (4, SFaulted), (5, SCancelled)] of
        cases \<Rightarrow> (case map_of cases n of Some s \<Rightarrow> s | None \<Rightarrow> SPending))"

definition execution_of_workflow_state :: "gmap \<Rightarrow> string \<Rightarrow> (string, api_execution) result" where
  "execution_of_workflow_state state wid =
     (let eid = (case map_of state ''context'' of
                   Some (GMap c) \<Rightarrow> (case map_of c ''execution_id'' of Some (GStr i) \<Rightarrow> i | _ \<Rightarrow> [])
                 | _ \<Rightarrow> []);
          status = (case map_of state ''status'' of
                      Some (GFloat r) \<Rightarrow> status_of_number (int64_of_f64 r) | _ \<Rightarrow> SPending);
          input = (case map_of state ''input'' of Some (GMap m) \<Rightarrow> Some m | _ \<Rightarrow> None);
          variables = (case map_of state ''variables'' of Some (GMap m) \<Rightarrow> Some m | _ \<Rightarrow> None);
          started = (case map_of state ''created_at'' of
                       Some (GMap m) \<Rightarrow> (case map_of m ''seconds'' of
                                            Some (GFloat r) \<Rightarrow> int64_of_f64 r * second | _ \<Rightarrow> zero_time)
                     | _ \<Rightarrow> zero_time);
          completed = (case map_of state ''updated_at'' of
                         Some (GMap m) \<Rightarrow> (case map_of m ''seconds'' of
                            Some (GFloat r) \<Rightarrow>
                              if status = SCompleted \<or> status = SFaulted \<or> status = SCancelled
                              then Some (int64_of_f64 r * second) else None
                          | _ \<Rightarrow> None)
                       | _ \<Rightarrow> None)
      in if eid = [] then Inl ''execution_id not found in workflow state''
         else Inr (empty_api_execution\<lparr>ax_id := eid, ax_workflow := wid, ax_status := status, ax_input := input,
                ax_output := variables, ax_started := started, ax_completed := completed,
                ax_duration := (case completed of None \<Rightarrow> None | Some t \<Rightarrow> Some (milliseconds (time_sub t started)))\<rparr>))"

lemma status_of_number_eq: "status_of_number = convert_numeric_status"
  by (rule ext) (simp add: status_of_number_def convert_numeric_status_def)

text \<open>The typed reads of the one copy and the nested ones of the other come to the same.\<close>

lemma typed_reads:
  "get_str m k = (case map_of m k of Some (GStr s) \<Rightarrow> Some s | _ \<Rightarrow> None)"
  "get_float m k = (case map_of m k of Some (GFloat r) \<Rightarrow> Some r | _ \<Rightarrow> None)"
  "get_map m k = (case map_of m k of Some (GMap n) \<Rightarrow> Some n | _ \<Rightarrow> None)"
  by (auto simp: get_defs split: option.split gval.split)

lemma copied_conversion_agrees: "execution_of_workflow_state state wid = convert_workflow_state state wid"
proof -
  have eid: "(case map_of state ''context'' of
        Some (GMap c) \<Rightarrow> (case map_of c ''execution_id'' of Some (GStr i) \<Rightarrow> i | _ \<Rightarrow> []) | _ \<Rightarrow> []) =
      (case Option.bind (get_map state ''context'') (\<lambda>c. get_str c ''execution_id'') of Some i \<Rightarrow> i | None \<Rightarrow> [])"
    unfolding typed_reads by (auto split: option.splits gval.splits)
  have status: "(case map_of state ''status'' of Some (GFloat r) \<Rightarrow> status_of_number (int64_of_f64 r) | _ \<Rightarrow> SPending) =
      (case get_float state ''status'' of Some r \<Rightarrow> convert_numeric_status (int64_of_f64 r) | None \<Rightarrow> SPending)"
    unfolding typed_reads status_of_number_eq by (auto split: option.splits gval.splits)
  have started: "(case map_of state ''created_at'' of
        Some (GMap m) \<Rightarrow> (case map_of m ''seconds'' of Some (GFloat r) \<Rightarrow> int64_of_f64 r * second | _ \<Rightarrow> zero_time)
      | _ \<Rightarrow> zero_time) = (case state_seconds state ''created_at'' of Some t \<Rightarrow> t | None \<Rightarrow> zero_time)"
    unfolding state_seconds_def typed_reads by (auto split: option.splits gval.splits)
  have completed: "(case map_of state ''updated_at'' of
        Some (GMap m) \<Rightarrow> (case map_of m ''seconds'' of
            Some (GFloat r) \<Rightarrow> if P then Some (int64_of_f64 r * second) else None | _ \<Rightarrow> None)
      | _ \<Rightarrow> None) = (if P then state_seconds state ''updated_at'' else None)" for P
    unfolding state_seconds_def typed_reads by (auto split: option.splits gval.splits)
  let ?i = "Option.bind (get_map state ''context'') (\<lambda>c. get_str c ''execution_id'')"
  show ?thesis
    unfolding execution_of_workflow_state_def convert_workflow_state_def Let_def eid status started completed
      typed_reads(3) [symmetric]
    by (cases ?i) (simp_all add: map_option_case)
qed

end
