(* ===== verification/Shared_Errors.thy ===== *)
theory Shared_Errors
  imports Go_Values
begin

text \<open>
  The structured errors that the services share (\<^verbatim>\<open>shared/pkg/errors/errors.go\<close>): a code, a
  message, details and the error that caused it. An error that is not of this type is known by
  its text only.
\<close>

datatype error_code =
    CodeWorkflowNotFound | CodeWorkflowAlreadyExists | CodeWorkflowInvalidState | CodeWorkflowValidation
  | CodeTaskNotFound | CodeTaskExecutionFailed | CodeTaskTimeout | CodeTaskInvalidType
  | CodeEventNotFound | CodeEventInvalidFormat | CodeEventPublishFailed | CodeEventStoreFailed
  | CodeStorageConnection | CodeStorageTimeout | CodeStorageNotFound
  | CodeStreamConnection | CodeStreamTimeout | CodeStreamNotFound
  | CodeUnauthorized | CodeForbidden | CodeInvalidToken
  | CodeInvalidInput | CodeMissingRequired | CodeInvalidFormat
  | CodeInvalidConfig | CodeMissingConfig
  | CodeInternalError

primrec code_text :: "error_code \<Rightarrow> string" where
  "code_text CodeWorkflowNotFound = ''WORKFLOW_NOT_FOUND''"
| "code_text CodeWorkflowAlreadyExists = ''WORKFLOW_ALREADY_EXISTS''"
| "code_text CodeWorkflowInvalidState = ''WORKFLOW_INVALID_STATE''"
| "code_text CodeWorkflowValidation = ''WORKFLOW_VALIDATION_FAILED''"
| "code_text CodeTaskNotFound = ''TASK_NOT_FOUND''"
| "code_text CodeTaskExecutionFailed = ''TASK_EXECUTION_FAILED''"
| "code_text CodeTaskTimeout = ''TASK_TIMEOUT''"
| "code_text CodeTaskInvalidType = ''TASK_INVALID_TYPE''"
| "code_text CodeEventNotFound = ''EVENT_NOT_FOUND''"
| "code_text CodeEventInvalidFormat = ''EVENT_INVALID_FORMAT''"
| "code_text CodeEventPublishFailed = ''EVENT_PUBLISH_FAILED''"
| "code_text CodeEventStoreFailed = ''EVENT_STORE_FAILED''"
| "code_text CodeStorageConnection = ''STORAGE_CONNECTION_FAILED''"
| "code_text CodeStorageTimeout = ''STORAGE_TIMEOUT''"
| "code_text CodeStorageNotFound = ''STORAGE_NOT_FOUND''"
| "code_text CodeStreamConnection = ''STREAM_CONNECTION_FAILED''"
| "code_text CodeStreamTimeout = ''STREAM_TIMEOUT''"
| "code_text CodeStreamNotFound = ''STREAM_NOT_FOUND''"
| "code_text CodeUnauthorized = ''UNAUTHORIZED''"
| "code_text CodeForbidden = ''FORBIDDEN''"
| "code_text CodeInvalidToken = ''INVALID_TOKEN''"
| "code_text CodeInvalidInput = ''INVALID_INPUT''"
| "code_text CodeMissingRequired = ''MISSING_REQUIRED''"
| "code_text CodeInvalidFormat = ''INVALID_FORMAT''"
| "code_text CodeInvalidConfig = ''INVALID_CONFIG''"
| "code_text CodeMissingConfig = ''MISSING_CONFIG''"
| "code_text CodeInternalError = ''INTERNAL_ERROR''"

text \<open>Details that are nil are absent.\<close>

datatype shared_error =
    PlainError string
  | FlunqError (fe_code: error_code) (fe_message: string) (fe_details: "gmap option") (fe_cause: "shared_error option")

fun flunq_text :: "shared_error \<Rightarrow> string" where
  "flunq_text (PlainError t) = t"
| "flunq_text (FlunqError c m d None) = code_text c @ '': '' @ m"
| "flunq_text (FlunqError c m d (Some e)) =
     code_text c @ '': '' @ m @ '' (caused by: '' @ flunq_text e @ '')''"

text \<open>\<open>Unwrap\<close>; an error without that method has nothing to unwrap.\<close>

fun unwrap :: "shared_error \<Rightarrow> shared_error option" where
  "unwrap (PlainError t) = None"
| "unwrap (FlunqError c m d e) = e"

definition new_flunq_error :: "error_code \<Rightarrow> string \<Rightarrow> shared_error" where
  "new_flunq_error c m = FlunqError c m (Some []) None"

definition new_flunq_error_with_cause :: "error_code \<Rightarrow> string \<Rightarrow> shared_error option \<Rightarrow> shared_error" where
  "new_flunq_error_with_cause c m e = FlunqError c m (Some []) e"

fun with_detail :: "string \<Rightarrow> gval \<Rightarrow> shared_error \<Rightarrow> shared_error" where
  "with_detail k v (FlunqError c m d e) =
     FlunqError c m (Some (put k v (case d of None \<Rightarrow> [] | Some x \<Rightarrow> x))) e"
| "with_detail k v (PlainError t) = PlainError t"

definition is_flunq_error :: "shared_error \<Rightarrow> bool" where
  "is_flunq_error e = (case e of FlunqError _ _ _ _ \<Rightarrow> True | PlainError _ \<Rightarrow> False)"

definition get_error_code :: "shared_error \<Rightarrow> error_code" where
  "get_error_code e = (case e of FlunqError c _ _ _ \<Rightarrow> c | PlainError _ \<Rightarrow> CodeInternalError)"

definition workflow_not_found_error :: "string \<Rightarrow> shared_error" where
  "workflow_not_found_error wid =
     with_detail ''workflow_id'' (GStr wid) (new_flunq_error CodeWorkflowNotFound ''workflow not found'')"

definition task_execution_failed :: "string \<Rightarrow> shared_error option \<Rightarrow> shared_error" where
  "task_execution_failed tid cause =
     with_detail ''task_id'' (GStr tid)
       (new_flunq_error_with_cause CodeTaskExecutionFailed ''task execution failed'' cause)"

definition event_publish_failed :: "string \<Rightarrow> shared_error option \<Rightarrow> shared_error" where
  "event_publish_failed ty cause =
     with_detail ''event_type'' (GStr ty)
       (new_flunq_error_with_cause CodeEventPublishFailed ''event publish failed'' cause)"

definition storage_connection_failed :: "string \<Rightarrow> shared_error option \<Rightarrow> shared_error" where
  "storage_connection_failed ty cause =
     with_detail ''storage_type'' (GStr ty)
       (new_flunq_error_with_cause CodeStorageConnection ''storage connection failed'' cause)"

definition validation_failed :: "string \<Rightarrow> string \<Rightarrow> shared_error" where
  "validation_failed fld reason =
     with_detail ''reason'' (GStr reason)
       (with_detail ''field'' (GStr fld) (new_flunq_error CodeInvalidInput ''validation failed''))"

subsection \<open>What holds of them\<close>

text \<open>The codes are told apart by their texts.\<close>

lemma code_text_inject: "code_text c = code_text c' \<longleftrightarrow> c = c'"
  by (cases c; cases c') simp_all

text \<open>A detail adds nothing to the text, the code or the cause.\<close>

lemma detail_kept:
  "flunq_text (with_detail k v e) = flunq_text e" "get_error_code (with_detail k v e) = get_error_code e"
  "unwrap (with_detail k v e) = unwrap e" "is_flunq_error (with_detail k v e) = is_flunq_error e"
  by (cases e; cases "fe_cause e"; simp add: get_error_code_def is_flunq_error_def)+

lemma detail_read:
  "is_flunq_error e \<Longrightarrow>
   \<exists>d. fe_details (with_detail k v e) = Some d \<and> map_of d k = Some v \<and>
     (\<forall>k'. k' \<noteq> k \<longrightarrow> map_of d k' = Option.bind (fe_details e) (\<lambda>d. map_of d k'))"
  by (cases e) (auto simp: is_flunq_error_def map_simps split: option.splits)

text \<open>The text of an error contains the text of what caused it, the code only its own: a wrapped
  error is looked up under the code of the wrapper.\<close>

lemma cause_in_text:
  assumes "unwrap e = Some c"
  shows "\<exists>pre suf. flunq_text e = pre @ flunq_text c @ suf"
proof -
  obtain a m d where "e = FlunqError a m d (Some c)"
    using assms by (cases e) auto
  then have "flunq_text e = (code_text a @ '': '' @ m @ '' (caused by: '') @ flunq_text c @ '')''"
    by simp
  then show ?thesis by blast
qed

lemma wrapper_code:
  "get_error_code (task_execution_failed t c) = CodeTaskExecutionFailed"
  "get_error_code (event_publish_failed t c) = CodeEventPublishFailed"
  "get_error_code (storage_connection_failed t c) = CodeStorageConnection"
  "unwrap (task_execution_failed t c) = c" "unwrap (event_publish_failed t c) = c"
  "unwrap (storage_connection_failed t c) = c"
  by (simp_all add: task_execution_failed_def event_publish_failed_def storage_connection_failed_def
      detail_kept new_flunq_error_with_cause_def get_error_code_def)

end
