(* ===== verification/Event_Processing.thy ===== *)
theory Event_Processing
  imports Worker_Processor "HOL-Library.Multiset"
begin

text \<open>
  The event loop of the three services as a state machine (\<^verbatim>\<open>eventProcessingLoop\<close> of
  \<^verbatim>\<open>workflow_processor.go\<close>, \<^verbatim>\<open>timer_processor.go\<close> and \<^verbatim>\<open>task_processor.go\<close>, with
  \<^verbatim>\<open>Stop\<close>): the channel of events, the goroutine that takes them, the semaphore that bounds
  the goroutines handling them, the lock of each workflow, the attempts, and shutting down.

  An action is one step of one goroutine; the interleaving is the list of actions. An action
  that its goroutine cannot take now, because it blocks, has no successor state. Whether an
  attempt succeeds is part of the action: the handlers are modelled in the theories of the
  services.
\<close>

subsection \<open>The state\<close>

text \<open>A goroutine that handles an event: before an attempt, waiting for the lock, inside the
  handler with the lock it holds, and past its last attempt (did it succeed?).\<close>

datatype phase = Ready | Blocked nat | Busy "nat option" | Ended bool

record task_run =
  tk_event :: cloud_event
  tk_attempt :: nat
  tk_phase :: phase

text \<open>The size of the semaphore, whether the handler locks its workflow, the number of attempts.\<close>

record loop_config =
  lc_max :: nat
  lc_locked :: bool
  lc_tries :: nat

record loop_state =
  lp_channel :: "cloud_event list"
  lp_in_hand :: "cloud_event option"
  lp_tasks :: "task_run list"
  lp_locks :: "(string \<times> nat) list"
  lp_done :: "(cloud_event \<times> bool) list"
  lp_stop :: bool
  lp_returned :: bool

definition loop_start :: loop_state where
  "loop_start =
     \<lparr>lp_channel = [], lp_in_hand = None, lp_tasks = [], lp_locks = [], lp_done = [],
      lp_stop = False, lp_returned = False\<rparr>"

definition channel_size :: nat where "channel_size = 100"

definition held_by :: "task_run \<Rightarrow> nat list" where
  "held_by t = (case tk_phase t of Busy (Some l) \<Rightarrow> [l] | _ \<Rightarrow> [])"

definition held :: "task_run list \<Rightarrow> nat list" where
  "held ts = concat (map held_by ts)"

subsection \<open>The steps\<close>

text \<open>The subscription sends an event; the loop takes one and then waits for the semaphore; a
  goroutine gets the lock object, waits for it, makes an attempt and releases the lock, and in
  the end acknowledges and frees its place; somebody closes the stop channel; the loop returns.\<close>

datatype loop_action =
    Arrive cloud_event | Take | Spawn | Enter nat | Acquire nat | Attempt nat bool | Finish nat
  | Stop | Return

definition set_phase :: "nat \<Rightarrow> phase \<Rightarrow> loop_state \<Rightarrow> loop_state" where
  "set_phase i p s = s\<lparr>lp_tasks := (lp_tasks s)[i := (lp_tasks s ! i)\<lparr>tk_phase := p\<rparr>]\<rparr>"

definition enter_handler :: "loop_config \<Rightarrow> nat \<Rightarrow> loop_state \<Rightarrow> loop_state" where
  "enter_handler c i s =
     (if lc_locked c
      then (let (locks, l) = get_workflow_lock (lp_locks s) (ev_workflow (tk_event (lp_tasks s ! i)))
            in set_phase i (Blocked l) (s\<lparr>lp_locks := locks\<rparr>))
      else set_phase i (Busy None) s)"

definition end_attempt :: "loop_config \<Rightarrow> nat \<Rightarrow> bool \<Rightarrow> loop_state \<Rightarrow> loop_state" where
  "end_attempt c i ok s =
     (let t = lp_tasks s ! i
      in if ok \<or> lc_tries c \<le> tk_attempt t then set_phase i (Ended ok) s
         else s\<lparr>lp_tasks := (lp_tasks s)[i := t\<lparr>tk_attempt := tk_attempt t + 1, tk_phase := Ready\<rparr>]\<rparr>)"

definition drop_nth :: "nat \<Rightarrow> 'a list \<Rightarrow> 'a list" where
  "drop_nth i xs = take i xs @ drop (Suc i) xs"

fun loop_do :: "loop_config \<Rightarrow> loop_state \<Rightarrow> loop_action \<Rightarrow> loop_state option" where
  "loop_do c s (Arrive e) =
     (if length (lp_channel s) < channel_size then Some (s\<lparr>lp_channel := lp_channel s @ [e]\<rparr>) else None)"
| "loop_do c s Take =
     (if lp_returned s \<or> lp_in_hand s \<noteq> None then None
      else case lp_channel s of
             [] \<Rightarrow> None | e # es \<Rightarrow> Some (s\<lparr>lp_channel := es, lp_in_hand := Some e\<rparr>))"
| "loop_do c s Spawn =
     (case lp_in_hand s of
        None \<Rightarrow> None
      | Some e \<Rightarrow>
          if length (lp_tasks s) < lc_max c
          then Some (s\<lparr>lp_in_hand := None,
                       lp_tasks := lp_tasks s @ [\<lparr>tk_event = e, tk_attempt = 1, tk_phase = Ready\<rparr>]\<rparr>)
          else None)"
| "loop_do c s (Enter i) =
     (if i < length (lp_tasks s) \<and> tk_phase (lp_tasks s ! i) = Ready then Some (enter_handler c i s) else None)"
| "loop_do c s (Acquire i) =
     (if i < length (lp_tasks s)
      then case tk_phase (lp_tasks s ! i) of
             Blocked l \<Rightarrow> if l \<in> set (held (lp_tasks s)) then None else Some (set_phase i (Busy (Some l)) s)
           | _ \<Rightarrow> None
      else None)"
| "loop_do c s (Attempt i ok) =
     (if i < length (lp_tasks s)
      then case tk_phase (lp_tasks s ! i) of Busy l \<Rightarrow> Some (end_attempt c i ok s) | _ \<Rightarrow> None
      else None)"
| "loop_do c s (Finish i) =
     (if i < length (lp_tasks s)
      then case tk_phase (lp_tasks s ! i) of
             Ended ok \<Rightarrow> Some (s\<lparr>lp_tasks := drop_nth i (lp_tasks s),
                                 lp_done := lp_done s @ [(tk_event (lp_tasks s ! i), ok)]\<rparr>)
           | _ \<Rightarrow> None
      else None)"
| "loop_do c s Stop = (if lp_stop s then None else Some (s\<lparr>lp_stop := True\<rparr>))"
| "loop_do c s Return =
     (if lp_stop s \<and> \<not> lp_returned s \<and> lp_in_hand s = None then Some (s\<lparr>lp_returned := True\<rparr>) else None)"

fun run_loop :: "loop_config \<Rightarrow> loop_state \<Rightarrow> loop_action list \<Rightarrow> loop_state option" where
  "run_loop c s [] = Some s"
| "run_loop c s (a # acts) = Option.bind (loop_do c s a) (\<lambda>s'. run_loop c s' acts)"

text \<open>\<open>Stop\<close> waits for the loop and for the goroutines it started.\<close>

definition stopped :: "loop_state \<Rightarrow> bool" where
  "stopped s \<longleftrightarrow> lp_stop s \<and> lp_returned s \<and> lp_tasks s = []"

text \<open>The states the loop can get to.\<close>

inductive reached :: "loop_config \<Rightarrow> loop_state \<Rightarrow> bool" for c where
  start: "reached c loop_start"
| step: "reached c s \<Longrightarrow> loop_do c s a = Some s' \<Longrightarrow> reached c s'"

lemma run_reached: "reached c s \<Longrightarrow> run_loop c s acts = Some s' \<Longrightarrow> reached c s'"
  by (induction acts arbitrary: s) (auto split: bind_splits intro: reached.step)

lemma run_loop_append:
  "run_loop c s (xs @ ys) = Option.bind (run_loop c s xs) (\<lambda>s'. run_loop c s' ys)"
  by (induction xs arbitrary: s) (auto split: bind_splits)

subsection \<open>Lists of goroutines\<close>

lemma mset_drop_nth: "i < length xs \<Longrightarrow> mset (drop_nth i xs) = mset xs - {#xs ! i#}"
  by (metis append_take_drop_id add_diff_cancel_right' drop_nth_def id_take_nth_drop mset.simps(2)
      mset_append union_mset_add_mset_right add_mset_add_single)

lemma map_drop_nth: "map f (drop_nth i xs) = drop_nth i (map f xs)"
  by (simp add: drop_nth_def take_map drop_map)

lemma length_drop_nth: "i < length xs \<Longrightarrow> length (drop_nth i xs) = length xs - 1"
  by (simp add: drop_nth_def)

lemma set_drop_nth: "set (drop_nth i xs) \<subseteq> set xs"
  using set_take_subset set_drop_subset by (fastforce simp: drop_nth_def)

lemma map_events_update:
  "tk_event t = tk_event (ts ! i) \<Longrightarrow> map tk_event (ts[i := t]) = map tk_event ts"
  by (cases "i < length ts") (simp_all add: map_update list_update_same_conv list_update_beyond)

lemma set_phase_simps [simp]:
  "lp_channel (set_phase i p s) = lp_channel s" "lp_in_hand (set_phase i p s) = lp_in_hand s"
  "lp_locks (set_phase i p s) = lp_locks s" "lp_done (set_phase i p s) = lp_done s"
  "lp_stop (set_phase i p s) = lp_stop s" "lp_returned (set_phase i p s) = lp_returned s"
  "length (lp_tasks (set_phase i p s)) = length (lp_tasks s)"
  "map tk_event (lp_tasks (set_phase i p s)) = map tk_event (lp_tasks s)"
  by (simp_all add: set_phase_def map_events_update)

lemma enter_handler_simps [simp]:
  "lp_channel (enter_handler c i s) = lp_channel s" "lp_in_hand (enter_handler c i s) = lp_in_hand s"
  "lp_done (enter_handler c i s) = lp_done s" "lp_stop (enter_handler c i s) = lp_stop s"
  "lp_returned (enter_handler c i s) = lp_returned s"
  "length (lp_tasks (enter_handler c i s)) = length (lp_tasks s)"
  "map tk_event (lp_tasks (enter_handler c i s)) = map tk_event (lp_tasks s)"
  by (simp_all add: enter_handler_def split_beta set_phase_def map_events_update)

lemma end_attempt_simps [simp]:
  "lp_channel (end_attempt c i ok s) = lp_channel s" "lp_in_hand (end_attempt c i ok s) = lp_in_hand s"
  "lp_locks (end_attempt c i ok s) = lp_locks s"
  "lp_done (end_attempt c i ok s) = lp_done s" "lp_stop (end_attempt c i ok s) = lp_stop s"
  "lp_returned (end_attempt c i ok s) = lp_returned s"
  "length (lp_tasks (end_attempt c i ok s)) = length (lp_tasks s)"
  "map tk_event (lp_tasks (end_attempt c i ok s)) = map tk_event (lp_tasks s)"
  by (simp_all add: end_attempt_def Let_def map_events_update)

subsection \<open>Every event is somewhere, once\<close>

definition accounted :: "loop_state \<Rightarrow> cloud_event multiset" where
  "accounted s = mset (lp_channel s) + (case lp_in_hand s of None \<Rightarrow> {#} | Some e \<Rightarrow> {#e#}) +
     mset (map tk_event (lp_tasks s)) + mset (map fst (lp_done s))"

definition arrived :: "loop_action list \<Rightarrow> cloud_event list" where
  "arrived acts = concat (map (\<lambda>a. case a of Arrive e \<Rightarrow> [e] | _ \<Rightarrow> []) acts)"

lemma arrived_simps [simp]:
  "arrived [] = []" "arrived (a # acts) = (case a of Arrive e \<Rightarrow> e # arrived acts | _ \<Rightarrow> arrived acts)"
  by (simp_all add: arrived_def split: loop_action.splits)

lemma mset_tasks_kept:
  "mset (map tk_event (lp_tasks s')) = mset (map tk_event (lp_tasks s))"
  if "map tk_event (lp_tasks s') = map tk_event (lp_tasks s)"
  using that by simp

lemma finish_accounts:
  assumes "i < length ts"
  shows "add_mset (tk_event (ts ! i)) (mset (map tk_event (drop_nth i ts))) = mset (map tk_event ts)"
  using assms mset_drop_nth [of i "map tk_event ts"] by (simp add: map_drop_nth)

lemma loop_do_accounts:
  assumes "loop_do c s a = Some s'"
  shows "accounted s' = accounted s + (case a of Arrive e \<Rightarrow> {#e#} | _ \<Rightarrow> {#})"
proof (cases a)
  case (Finish i)
  then obtain ok where f: "i < length (lp_tasks s)" "tk_phase (lp_tasks s ! i) = Ended ok"
    "s' = s\<lparr>lp_tasks := drop_nth i (lp_tasks s), lp_done := lp_done s @ [(tk_event (lp_tasks s ! i), ok)]\<rparr>"
    using assms by (auto split: if_splits phase.splits)
  show ?thesis
    using finish_accounts [OF f(1)] by (simp add: Finish f(3) accounted_def)
next
  case (Enter i)
  then show ?thesis using assms mset_tasks_kept [OF enter_handler_simps(7)]
    by (auto simp: accounted_def simp del: mset_map split: if_splits)
next
  case (Acquire i)
  then show ?thesis using assms mset_tasks_kept [OF set_phase_simps(8)]
    by (auto simp: accounted_def simp del: mset_map split: if_splits phase.splits)
next
  case (Attempt i ok)
  then show ?thesis using assms mset_tasks_kept [OF end_attempt_simps(8)]
    by (auto simp: accounted_def simp del: mset_map split: if_splits phase.splits)
qed (use assms in \<open>auto simp: accounted_def split: if_splits option.splits list.splits\<close>)

lemma run_loop_accounts:
  "run_loop c s acts = Some s' \<Longrightarrow> accounted s' = accounted s + mset (arrived acts)"
proof (induction acts arbitrary: s)
  case (Cons a acts)
  then obtain s1 where "loop_do c s a = Some s1" "run_loop c s1 acts = Some s'"
    by (auto split: bind_splits)
  then show ?case
    using Cons.IH [of s1] loop_do_accounts [of c s a s1] by (auto split: loop_action.splits)
qed simp

subsection \<open>The semaphore and the locks\<close>

lemma tasks_bounded: "reached c s \<Longrightarrow> length (lp_tasks s) \<le> lc_max c"
proof (induction rule: reached.induct)
  case (step s a s')
  then show ?case
    by (cases a) (auto simp: length_drop_nth split: if_splits option.splits list.splits phase.splits)
qed (simp add: loop_start_def)

lemma held_split:
  assumes "i < length ts"
  obtains A B where "held ts = A @ held_by (ts ! i) @ B" "\<And>t. held (ts[i := t]) = A @ held_by t @ B"
    "held (drop_nth i ts) = A @ B"
proof
  show "held ts = held (take i ts) @ held_by (ts ! i) @ held (drop (Suc i) ts)"
    using id_take_nth_drop [OF assms] by (metis append.assoc concat.simps(2) concat_append held_def list.simps(9) map_append)
  show "held (ts[i := t]) = held (take i ts) @ held_by t @ held (drop (Suc i) ts)" for t
    by (simp add: upd_conv_take_nth_drop [OF assms] held_def)
  show "held (drop_nth i ts) = held (take i ts) @ held (drop (Suc i) ts)"
    by (simp add: drop_nth_def held_def)
qed

text \<open>The lock of a goroutine is the one of its workflow; a lock has one holder; the table gives
  different workflows different locks.\<close>

definition own_lock :: "loop_config \<Rightarrow> (string \<times> nat) list \<Rightarrow> task_run \<Rightarrow> bool" where
  "own_lock c locks t \<longleftrightarrow>
     (case tk_phase t of
        Blocked l \<Rightarrow> map_of locks (ev_workflow (tk_event t)) = Some l
      | Busy (Some l) \<Rightarrow> map_of locks (ev_workflow (tk_event t)) = Some l
      | Busy None \<Rightarrow> \<not> lc_locked c
      | _ \<Rightarrow> True)"

definition locks_ok :: "loop_config \<Rightarrow> loop_state \<Rightarrow> bool" where
  "locks_ok c s \<longleftrightarrow> distinct (held (lp_tasks s)) \<and> (\<forall>t \<in> set (lp_tasks s). own_lock c (lp_locks s) t) \<and>
     (\<forall>w l. map_of (lp_locks s) w = Some l \<longrightarrow> l < length (lp_locks s)) \<and>
     (\<forall>w w' l. map_of (lp_locks s) w = Some l \<longrightarrow> map_of (lp_locks s) w' = Some l \<longrightarrow> w = w')"

lemma get_lock:
  assumes "get_workflow_lock locks w = (locks', l)"
  shows "map_of locks' w = Some l" "\<And>v k. map_of locks v = Some k \<Longrightarrow> map_of locks' v = Some k"
  using assms by (auto simp: get_workflow_lock_def map_simps split: option.splits)

lemma length_put: "length (put k v m) = (if k \<in> fst ` set m then length m else Suc (length m))"
  by (induction m) (auto split: if_splits)

lemma get_lock_table:
  assumes "get_workflow_lock locks w = (locks', l)"
    and "\<forall>w l. map_of locks w = Some l \<longrightarrow> l < length locks"
    and "\<forall>w w' l. map_of locks w = Some l \<longrightarrow> map_of locks w' = Some l \<longrightarrow> w = w'"
  shows "\<forall>w l. map_of locks' w = Some l \<longrightarrow> l < length locks'"
    and "\<forall>w w' l. map_of locks' w = Some l \<longrightarrow> map_of locks' w' = Some l \<longrightarrow> w = w'"
proof -
  have "(\<forall>w l. map_of locks' w = Some l \<longrightarrow> l < length locks') \<and>
    (\<forall>w w' l. map_of locks' w = Some l \<longrightarrow> map_of locks' w' = Some l \<longrightarrow> w = w')"
  proof (cases "map_of locks w")
    case (Some k)
    then show ?thesis using assms by (simp add: get_workflow_lock_def)
  next
    case None
    have new: "locks' = put w (length locks) locks"
      using assms(1) None by (auto simp: get_workflow_lock_def)
    have "w \<notin> fst ` set locks"
      using None by (simp add: map_of_eq_None_iff)
    note new = new this
    have less: "map_of locks v = Some k \<Longrightarrow> k < length locks" for v k
      using assms(2) by blast
    then show ?thesis
      using new assms(3) by (auto simp: map_simps length_put less_Suc_eq dest: less)
  qed
  then show "\<forall>w l. map_of locks' w = Some l \<longrightarrow> l < length locks'"
    "\<forall>w w' l. map_of locks' w = Some l \<longrightarrow> map_of locks' w' = Some l \<longrightarrow> w = w'" by blast+
qed

lemma own_lock_mono:
  "own_lock c locks t \<Longrightarrow> (\<And>v k. map_of locks v = Some k \<Longrightarrow> map_of locks' v = Some k) \<Longrightarrow> own_lock c locks' t"
  by (auto simp: own_lock_def split: phase.splits option.splits)

lemma update_locks_ok:
  assumes "locks_ok c s" "i < length (lp_tasks s)" "own_lock c (lp_locks s') t"
    and "lp_tasks s' = (lp_tasks s)[i := t]" "lp_locks s' = lp_locks s"
    and "held_by t = held_by (lp_tasks s ! i) \<or> held_by t = [] \<or> (\<exists>l. held_by t = [l] \<and> l \<notin> set (held (lp_tasks s)))"
  shows "locks_ok c s'"
proof -
  obtain A B where h: "held (lp_tasks s) = A @ held_by (lp_tasks s ! i) @ B"
    "\<And>t. held ((lp_tasks s)[i := t]) = A @ held_by t @ B"
    using held_split [OF assms(2)] by metis
  have "distinct (held (lp_tasks s'))"
    using assms(1,4,6) by (auto simp: locks_ok_def h)
  moreover have "\<forall>t \<in> set (lp_tasks s'). own_lock c (lp_locks s') t"
    using assms(1,3,4,5) set_update_subset_insert [of "lp_tasks s" i t] by (auto simp: locks_ok_def)
  ultimately show ?thesis using assms(1,5) by (simp add: locks_ok_def)
qed

lemma enter_locks_ok:
  assumes "locks_ok c s" "i < length (lp_tasks s)" "tk_phase (lp_tasks s ! i) = Ready"
  shows "locks_ok c (enter_handler c i s)"
proof (cases "lc_locked c")
  case False
  then show ?thesis
    using assms
    by (intro update_locks_ok [OF assms(1,2), of _ "(lp_tasks s ! i)\<lparr>tk_phase := Busy None\<rparr>"])
      (simp_all add: enter_handler_def set_phase_def own_lock_def held_by_def)
next
  case True
  obtain locks l where g: "get_workflow_lock (lp_locks s) (ev_workflow (tk_event (lp_tasks s ! i))) = (locks, l)"
    by fastforce
  let ?s = "s\<lparr>lp_locks := locks\<rparr>"
  have "\<forall>t \<in> set (lp_tasks s). own_lock c locks t"
    using assms(1) own_lock_mono [OF _ get_lock(2) [OF g]] unfolding locks_ok_def by blast
  moreover have "\<forall>w l. map_of locks w = Some l \<longrightarrow> l < length locks"
    "\<forall>w w' l. map_of locks w = Some l \<longrightarrow> map_of locks w' = Some l \<longrightarrow> w = w'"
    using get_lock_table [OF g] assms(1) unfolding locks_ok_def by blast+
  moreover have "distinct (held (lp_tasks s))"
    using assms(1) unfolding locks_ok_def by blast
  ultimately have ok: "locks_ok c ?s"
    unfolding locks_ok_def by simp
  have "own_lock c locks ((lp_tasks s ! i)\<lparr>tk_phase := Blocked l\<rparr>)"
    using get_lock(1) [OF g] by (simp add: own_lock_def)
  then have "locks_ok c (set_phase i (Blocked l) ?s)"
    by (intro update_locks_ok [OF ok, of i _ "(lp_tasks s ! i)\<lparr>tk_phase := Blocked l\<rparr>"])
      (simp_all add: assms(2) set_phase_def held_by_def)
  then show ?thesis by (simp add: enter_handler_def True g)
qed

lemma own_lock_ready: "tk_phase t = Ready \<Longrightarrow> own_lock c locks t"
  by (simp add: own_lock_def)

lemma locks_ok_same:
  "locks_ok c s \<Longrightarrow> lp_tasks s' = lp_tasks s \<Longrightarrow> lp_locks s' = lp_locks s \<Longrightarrow> locks_ok c s'"
  by (simp add: locks_ok_def)

lemma step_locks_ok:
  assumes "locks_ok c s" "loop_do c s a = Some s'"
  shows "locks_ok c s'"
proof (cases a)
  case Spawn
  then show ?thesis
    using assms by (auto simp: locks_ok_def held_def held_by_def own_lock_ready split: option.splits if_splits)
next
  case (Enter i)
  then show ?thesis using assms enter_locks_ok by (auto split: if_splits)
next
  case (Acquire i)
  then obtain l where l: "i < length (lp_tasks s)" "tk_phase (lp_tasks s ! i) = Blocked l"
    "l \<notin> set (held (lp_tasks s))" "s' = set_phase i (Busy (Some l)) s"
    using assms(2) by (auto split: if_splits phase.splits)
  have "own_lock c (lp_locks s) (lp_tasks s ! i)"
    using assms(1) l(1) by (simp add: locks_ok_def)
  then show ?thesis
    using l by (intro update_locks_ok [OF assms(1) l(1), of _ "(lp_tasks s ! i)\<lparr>tk_phase := Busy (Some l)\<rparr>"])
      (simp_all add: set_phase_def own_lock_def held_by_def)
next
  case (Attempt i ok)
  then obtain l where l: "i < length (lp_tasks s)" "s' = end_attempt c i ok s"
    using assms(2) by (auto split: if_splits phase.splits)
  let ?t = "lp_tasks s ! i"
  define t where "t = (if ok \<or> lc_tries c \<le> tk_attempt ?t then ?t\<lparr>tk_phase := Ended ok\<rparr>
    else ?t\<lparr>tk_attempt := tk_attempt ?t + 1, tk_phase := Ready\<rparr>)"
  have t: "lp_tasks s' = (lp_tasks s)[i := t]" "t = ?t\<lparr>tk_phase := Ended ok\<rparr> \<or>
    t = ?t\<lparr>tk_attempt := tk_attempt ?t + 1, tk_phase := Ready\<rparr>"
    by (simp_all add: t_def l(2) end_attempt_def Let_def set_phase_def)
  then show ?thesis
    using l by (intro update_locks_ok [OF assms(1) l(1), of _ t]) (auto simp: own_lock_def held_by_def)
next
  case (Finish i)
  then obtain ok where f: "i < length (lp_tasks s)" "tk_phase (lp_tasks s ! i) = Ended ok"
    "lp_tasks s' = drop_nth i (lp_tasks s)" "lp_locks s' = lp_locks s"
    using assms by (auto split: if_splits phase.splits)
  obtain A B where "held (lp_tasks s) = A @ held_by (lp_tasks s ! i) @ B" "held (drop_nth i (lp_tasks s)) = A @ B"
    using held_split [OF f(1)] by metis
  then show ?thesis
    using assms(1) f set_drop_nth [of i "lp_tasks s"] by (auto simp: locks_ok_def)
qed (use assms in \<open>auto split: if_splits list.splits intro: locks_ok_same\<close>)

lemma reached_locks_ok: "reached c s \<Longrightarrow> locks_ok c s"
proof (induction rule: reached.induct)
  case start
  show ?case by (simp add: loop_start_def locks_ok_def held_def)
next
  case (step s a s')
  then show ?case by (auto intro: step_locks_ok)
qed

text \<open>The workflows whose events are in the handler.\<close>

definition busy_workflows :: "loop_state \<Rightarrow> string list" where
  "busy_workflows s =
     map (\<lambda>t. ev_workflow (tk_event t)) (filter (\<lambda>t. \<exists>l. tk_phase t = Busy l) (lp_tasks s))"

lemma held_of_busy:
  assumes "\<forall>t \<in> set ts. own_lock c locks t" "lc_locked c"
  shows "held ts = map (\<lambda>t. the (map_of locks (ev_workflow (tk_event t)))) (filter (\<lambda>t. \<exists>l. tk_phase t = Busy l) ts)"
  using assms
  by (induction ts) (auto simp: held_def held_by_def own_lock_def split: phase.splits option.splits)

lemma busy_distinct:
  assumes "reached c s" "lc_locked c"
  shows "distinct (busy_workflows s)"
proof -
  have ok: "locks_ok c s" by (rule reached_locks_ok [OF assms(1)])
  have "held (lp_tasks s) = map (\<lambda>w. the (map_of (lp_locks s) w)) (busy_workflows s)"
    using held_of_busy [of "lp_tasks s" c "lp_locks s"] ok assms(2)
    by (simp add: locks_ok_def busy_workflows_def comp_def)
  then show ?thesis
    using ok by (simp add: locks_ok_def distinct_map)
qed

subsection \<open>The loop gets on\<close>

text \<open>The steps that the goroutines take by themselves.\<close>

definition internal :: "loop_action \<Rightarrow> bool" where
  "internal a = (case a of Arrive _ \<Rightarrow> False | Stop \<Rightarrow> False | _ \<Rightarrow> True)"

definition stuck :: "loop_config \<Rightarrow> loop_state \<Rightarrow> bool" where
  "stuck c s \<longleftrightarrow> (\<forall>a. internal a \<longrightarrow> loop_do c s a = None)"

text \<open>How many of them are left at most.\<close>

definition task_work :: "loop_config \<Rightarrow> task_run \<Rightarrow> nat" where
  "task_work c t = 3 * (lc_tries c - tk_attempt t) +
     (case tk_phase t of Ready \<Rightarrow> 4 | Blocked _ \<Rightarrow> 3 | Busy _ \<Rightarrow> 2 | Ended _ \<Rightarrow> 1)"

definition loop_work :: "loop_config \<Rightarrow> loop_state \<Rightarrow> nat" where
  "loop_work c s = (3 * lc_tries c + 6) * length (lp_channel s) +
     (case lp_in_hand s of None \<Rightarrow> 0 | Some _ \<Rightarrow> 3 * lc_tries c + 5) +
     sum_list (map (task_work c) (lp_tasks s)) + (if lp_returned s then 0 else 1)"

lemma sum_update:
  fixes f :: "'a \<Rightarrow> nat"
  assumes "i < length xs"
  shows "sum_list (map f (xs[i := x])) + f (xs ! i) = sum_list (map f xs) + f x"
    and "sum_list (map f (drop_nth i xs)) + f (xs ! i) = sum_list (map f xs)"
proof -
  have xs: "xs = take i xs @ xs ! i # drop (Suc i) xs"
    using id_take_nth_drop [OF assms] .
  have "sum_list (map f xs) = sum_list (map f (take i xs)) + f (xs ! i) + sum_list (map f (drop (Suc i) xs))"
    by (subst xs) simp
  then show "sum_list (map f (xs[i := x])) + f (xs ! i) = sum_list (map f xs) + f x"
    "sum_list (map f (drop_nth i xs)) + f (xs ! i) = sum_list (map f xs)"
    by (simp_all add: upd_conv_take_nth_drop [OF assms] drop_nth_def)
qed

lemma update_work:
  assumes "i < length (lp_tasks s)" "task_work c t < task_work c (lp_tasks s ! i)"
    and "lp_tasks s' = (lp_tasks s)[i := t]"
    and "lp_channel s' = lp_channel s" "lp_in_hand s' = lp_in_hand s" "lp_returned s' = lp_returned s"
  shows "loop_work c s' < loop_work c s"
  using sum_update(1) [OF assms(1), of "task_work c" t] assms(2-) by (simp add: loop_work_def)

lemma enter_work:
  assumes "i < length (lp_tasks s)" "tk_phase (lp_tasks s ! i) = Ready"
  shows "loop_work c (enter_handler c i s) < loop_work c s"
proof -
  define p where "p = (if lc_locked c
    then Blocked (snd (get_workflow_lock (lp_locks s) (ev_workflow (tk_event (lp_tasks s ! i))))) else Busy None)"
  have "lp_tasks (enter_handler c i s) = (lp_tasks s)[i := (lp_tasks s ! i)\<lparr>tk_phase := p\<rparr>]"
    by (simp add: p_def enter_handler_def set_phase_def split_beta)
  then show ?thesis
    using assms by (intro update_work [OF assms(1), of _ "(lp_tasks s ! i)\<lparr>tk_phase := p\<rparr>"])
      (simp_all add: task_work_def p_def)
qed

lemma end_attempt_work:
  assumes "i < length (lp_tasks s)" "tk_phase (lp_tasks s ! i) = Busy l"
  shows "loop_work c (end_attempt c i ok s) < loop_work c s"
proof -
  let ?t = "lp_tasks s ! i"
  define t where "t = (if ok \<or> lc_tries c \<le> tk_attempt ?t then ?t\<lparr>tk_phase := Ended ok\<rparr>
    else ?t\<lparr>tk_attempt := tk_attempt ?t + 1, tk_phase := Ready\<rparr>)"
  have "lp_tasks (end_attempt c i ok s) = (lp_tasks s)[i := t]"
    by (simp add: t_def end_attempt_def Let_def set_phase_def)
  moreover have "task_work c t < task_work c ?t"
    using assms(2) by (auto simp: t_def task_work_def)
  ultimately show ?thesis
    by (intro update_work [OF assms(1)]) simp_all
qed

lemma loop_do_work:
  assumes "loop_do c s a = Some s'" "internal a"
  shows "loop_work c s' < loop_work c s"
proof (cases a)
  case (Acquire i)
  then obtain l where l: "i < length (lp_tasks s)" "tk_phase (lp_tasks s ! i) = Blocked l"
    "s' = set_phase i (Busy (Some l)) s"
    using assms(1) by (auto split: if_splits phase.splits)
  then show ?thesis
    by (intro update_work [OF l(1), of _ "(lp_tasks s ! i)\<lparr>tk_phase := Busy (Some l)\<rparr>"])
      (simp_all add: task_work_def set_phase_def)
next
  case (Finish i)
  then obtain ok where f: "i < length (lp_tasks s)" "tk_phase (lp_tasks s ! i) = Ended ok"
    "lp_tasks s' = drop_nth i (lp_tasks s)" "lp_channel s' = lp_channel s"
    "lp_in_hand s' = lp_in_hand s" "lp_returned s' = lp_returned s"
    using assms(1) by (auto split: if_splits phase.splits)
  then have "0 < task_work c (lp_tasks s ! i)" by (simp add: task_work_def)
  then show ?thesis
    using sum_update(2) [OF f(1), of "task_work c"] f(3-) by (simp add: loop_work_def)
next
  case (Enter i)
  then show ?thesis using assms(1) enter_work by (auto split: if_splits)
next
  case (Attempt i ok)
  then show ?thesis using assms(1) end_attempt_work by (auto split: if_splits phase.splits)
qed (use assms in \<open>auto simp: internal_def loop_work_def task_work_def
  split: if_splits option.splits list.splits\<close>)

lemma run_work:
  "run_loop c s acts = Some s' \<Longrightarrow> \<forall>a \<in> set acts. internal a \<Longrightarrow> length acts + loop_work c s' \<le> loop_work c s"
proof (induction acts arbitrary: s)
  case (Cons a acts)
  then obtain s1 where "loop_do c s a = Some s1" "run_loop c s1 acts = Some s'"
    by (auto split: bind_splits)
  then show ?case
    using Cons.IH [of s1] loop_do_work [of c s a s1] Cons.prems(2) by fastforce
qed simp

lemma run_until_stuck:
  "\<exists>acts s'. (\<forall>a \<in> set acts. internal a) \<and> run_loop c s acts = Some s' \<and> stuck c s'"
proof (induction "loop_work c s" arbitrary: s rule: less_induct)
  case less
  show ?case
  proof (cases "stuck c s")
    case True
    then show ?thesis by (intro exI [of _ "[]"]) simp
  next
    case False
    then obtain a s1 where a: "internal a" "loop_do c s a = Some s1"
      by (auto simp: stuck_def)
    then obtain acts s' where "\<forall>a \<in> set acts. internal a" "run_loop c s1 acts = Some s'" "stuck c s'"
      using less [OF loop_do_work] by blast
    then show ?thesis
      using a by (intro exI [of _ "a # acts"]) simp
  qed
qed

text \<open>Nobody waits for ever: where no step is possible, there is nothing left to do.\<close>

lemma stuck_idle:
  assumes "reached c s" "0 < lc_max c" "stuck c s"
  shows "lp_tasks s = []" "lp_in_hand s = None" "\<not> lp_returned s \<Longrightarrow> lp_channel s = []"
proof -
  have no: "loop_do c s a = None" if "internal a" for a
    using assms(3) that by (simp add: stuck_def)
  have phases: "\<exists>l. tk_phase (lp_tasks s ! i) = Blocked l \<and> l \<in> set (held (lp_tasks s))"
    if i: "i < length (lp_tasks s)" for i
    using no [of "Enter i"] no [of "Acquire i"] no [of "Attempt i True"] no [of "Finish i"] i
    by (cases "tk_phase (lp_tasks s ! i)") (auto simp: internal_def split: if_splits)
  show tasks: "lp_tasks s = []"
  proof (rule ccontr)
    assume "lp_tasks s \<noteq> []"
    then obtain l where "l \<in> set (held (lp_tasks s))"
      using phases [of 0] by auto
    then obtain t where t: "t \<in> set (lp_tasks s)" "l \<in> set (held_by t)"
      by (auto simp: held_def)
    then obtain i where "i < length (lp_tasks s)" "lp_tasks s ! i = t"
      by (auto simp: in_set_conv_nth)
    then show False using phases [of i] t(2) by (auto simp: held_by_def)
  qed
  show hand: "lp_in_hand s = None"
    using no [of Spawn] tasks assms(2) by (auto simp: internal_def split: option.splits)
  show "lp_channel s = []" if "\<not> lp_returned s"
    using no [of Take] hand that by (auto simp: internal_def split: list.splits)
qed

lemma returned_after_stop:
  "reached c s \<Longrightarrow> lp_returned s \<longrightarrow> lp_stop s \<and> lp_in_hand s = None"
proof (induction rule: reached.induct)
  case (step s a s')
  then show ?case
    by (cases a) (auto split: if_splits option.splits list.splits phase.splits)
qed (simp add: loop_start_def)

lemma run_stop:
  "run_loop c s acts = Some s' \<Longrightarrow> Stop \<notin> set acts \<Longrightarrow> lp_stop s' = lp_stop s"
proof (induction acts arbitrary: s)
  case (Cons a acts)
  then obtain s1 where s1: "loop_do c s a = Some s1" "run_loop c s1 acts = Some s'"
    by (auto split: bind_splits)
  have "lp_stop s1 = lp_stop s"
    using s1(1) Cons.prems(2) by (cases a) (auto split: if_splits option.splits list.splits phase.splits)
  then show ?case using Cons.IH [OF s1(2)] Cons.prems(2) by simp
qed simp

subsection \<open>The properties\<close>

text \<open>C12: However the goroutines interleave, the loop handles at most as many events at once as
  its semaphore admits, and a loop that locks (the worker's) never runs its handler for two
  events of the same workflow at the same time, while different workflows have different locks.\<close>
theorem handlers_bounded_and_exclusive:
  assumes "run_loop c loop_start acts = Some s"
  shows "length (lp_tasks s) \<le> lc_max c \<and> (lc_locked c \<longrightarrow> distinct (busy_workflows s)) \<and>
    (\<forall>w w' l. map_of (lp_locks s) w = Some l \<and> map_of (lp_locks s) w' = Some l \<longrightarrow> w = w')"
proof -
  have "reached c s" using run_reached [OF reached.start assms] .
  then show ?thesis
    using tasks_bounded busy_distinct reached_locks_ok unfolding locks_ok_def by blast
qed

definition demo_work :: "string \<Rightarrow> string \<Rightarrow> cloud_event" where
  "demo_work i w = (new_cloud_event 0 i ''executor-service'' ''io.flunq.task.completed'')\<lparr>ev_workflow := w\<rparr>"

definition demo_loop :: loop_config where
  "demo_loop = \<lparr>lc_max = 2, lc_locked = True, lc_tries = 3\<rparr>"

definition demo_busy :: "loop_action list" where
  "demo_busy =
     [Arrive (demo_work ''1'' ''w''), Arrive (demo_work ''2'' ''w''), Arrive (demo_work ''3'' ''v''),
      Take, Spawn, Take, Spawn, Take, Enter 0, Enter 1, Acquire 1]"

theorem handlers_bounded_and_exclusive_witness:
  "\<exists>s. run_loop demo_loop loop_start demo_busy = Some s \<and> busy_workflows s = [''w''] \<and>
     length (lp_tasks s) \<le> 2 \<and> distinct (busy_workflows s) \<and> loop_do demo_loop s (Acquire 0) = None"
proof -
  obtain s where s: "run_loop demo_loop loop_start demo_busy = Some s" "busy_workflows s = [''w'']"
    "loop_do demo_loop s (Acquire 0) = None"
    by (simp add: demo_loop_def demo_busy_def demo_work_def loop_start_def channel_size_def enter_handler_def
        get_workflow_lock_def set_phase_def held_def held_by_def busy_workflows_def new_cloud_event_def empty_event_def)
  then show ?thesis
    using handlers_bounded_and_exclusive [OF s(1)] by (simp add: demo_loop_def)
qed

text \<open>C11: As long as nobody stops the loop it comes to rest, whatever its goroutines do: from
  every state it can get to there is a way on to a state where no goroutine can move, no way on
  is longer than a bound, and where no goroutine can move every event that arrived has been
  handled to its end, acknowledged or sent to the dead letters, exactly once.\<close>
theorem every_event_finished_once:
  assumes "0 < lc_max c" "run_loop c loop_start acts = Some s" "Stop \<notin> set acts"
  shows "(\<exists>rest s'. (\<forall>a \<in> set rest. internal a) \<and> run_loop c s rest = Some s' \<and> stuck c s') \<and>
    (\<forall>rest s'. (\<forall>a \<in> set rest. internal a) \<and> run_loop c s rest = Some s' \<longrightarrow>
       length rest \<le> loop_work c s \<and>
       (stuck c s' \<longrightarrow> mset (map fst (lp_done s')) = mset (arrived acts)))"
proof (intro conjI run_until_stuck allI impI)
  fix rest s'
  assume rest: "(\<forall>a \<in> set rest. internal a) \<and> run_loop c s rest = Some s'"
  then show "length rest \<le> loop_work c s" using run_work by fastforce
  assume stuck: "stuck c s'"
  have internal: "Stop \<notin> set rest" "\<forall>a \<in> set rest. internal a" using rest by (auto simp: internal_def)
  have none: "arrived rest = []"
    using internal(2) by (induction rest) (auto simp: internal_def split: loop_action.splits)
  have s': "run_loop c loop_start (acts @ rest) = Some s'"
    using assms(2) rest by (simp add: run_loop_append)
  have r: "reached c s'" using run_reached [OF reached.start s'] .
  have "\<not> lp_stop s'" using run_stop [OF s'] assms(3) internal(1) by (simp add: loop_start_def)
  then have "\<not> lp_returned s'" using returned_after_stop [OF r] by blast
  then show "mset (map fst (lp_done s')) = mset (arrived acts)"
    using stuck_idle [OF r assms(1) stuck] run_loop_accounts [OF s'] none
    by (simp add: accounted_def loop_start_def arrived_def)
qed

theorem every_event_finished_once_witness:
  "\<exists>s rest s'. run_loop demo_loop loop_start demo_busy = Some s \<and> run_loop demo_loop s rest = Some s' \<and>
     mset (map fst (lp_done s')) = mset [demo_work ''1'' ''w'', demo_work ''2'' ''w'', demo_work ''3'' ''v'']"
proof -
  obtain s where s: "run_loop demo_loop loop_start demo_busy = Some s"
    by (simp add: demo_loop_def demo_busy_def demo_work_def loop_start_def channel_size_def enter_handler_def
        get_workflow_lock_def set_phase_def held_def held_by_def)
  have "arrived demo_busy = [demo_work ''1'' ''w'', demo_work ''2'' ''w'', demo_work ''3'' ''v'']"
    "0 < lc_max demo_loop" "Stop \<notin> set demo_busy"
    by (simp_all add: demo_busy_def demo_loop_def)
  then show ?thesis
    using every_event_finished_once [OF _ s] s by metis
qed



text \<open>Two events of a workflow may be handled in the other order than the one they arrived in.\<close>

lemma later_event_may_be_first:
  "\<exists>s. run_loop demo_loop loop_start
     [Arrive (demo_work ''1'' ''w''), Arrive (demo_work ''2'' ''w''), Take, Spawn, Take, Spawn,
      Enter 0, Enter 1, Acquire 1, Attempt 1 True, Finish 1, Acquire 0, Attempt 0 True, Finish 0] = Some s \<and>
   map (\<lambda>d. ev_id (fst d)) (lp_done s) = [''2'', ''1'']"
  by (simp add: demo_loop_def demo_work_def loop_start_def channel_size_def enter_handler_def
      get_workflow_lock_def set_phase_def held_def held_by_def end_attempt_def drop_nth_def new_cloud_event_def)

end
