(* ===== verification/Subscription.thy ===== *)
theory Subscription
  imports Event_Log
begin

text \<open>
  Subscriptions to the event streams (\<^verbatim>\<open>RedisStreamSubscription\<close> and the administration of
  consumer groups in \<^verbatim>\<open>shared/pkg/eventstreaming/redis_stream.go\<close>): which streams are read,
  the steps of the reading loop (rediscovery of the streams at a tick, reading otherwise),
  what is done with each message, and reclaiming.

  The Redis server is an argument, the record \<open>stream_server\<close> of the commands the code calls.
  The locale \<open>group_server\<close> states what the code relies on from consumer groups; the last
  section provides it by streams with a read position and a list of pending ids for each
  group.
\<close>

subsection \<open>The server\<close>

text \<open>The answer of \<^verbatim>\<open>XREADGROUP\<close>: nothing new, messages by stream, or an error.\<close>

datatype read_answer = NoMessages | Messages "(string \<times> message list) list" | ReadError string

record 's stream_server =
  rs_scan :: "'s \<Rightarrow> string \<Rightarrow> string list"
  rs_group :: "'s \<Rightarrow> string \<Rightarrow> string \<Rightarrow> 's \<times> string option"
  rs_read :: "'s \<Rightarrow> string \<Rightarrow> string list \<Rightarrow> nat \<Rightarrow> 's \<times> read_answer"
  rs_ack :: "'s \<Rightarrow> string \<Rightarrow> string \<Rightarrow> string \<Rightarrow> 's \<times> string option"
  rs_claim :: "'s \<Rightarrow> string \<Rightarrow> string \<Rightarrow> 's \<times> (string, message list) result"
  rs_destroy :: "'s \<Rightarrow> string \<Rightarrow> string \<Rightarrow> 's \<times> string option"
  rs_add :: "'s \<Rightarrow> string \<Rightarrow> message \<Rightarrow> 's"

subsection \<open>Streams and groups\<close>

definition stream_patterns :: "string list" where
  "stream_patterns =
     [''tenant:*:workflow:*:events'', ''tenant:*:workflow:*:events:dlq'', ''workflow:events:*'',
      ''workflow:events:dlq:*'', ''events:global'', ''events:global:dlq'']"

definition stream_matches_filters :: "string \<Rightarrow> bool" where
  "stream_matches_filters k \<longleftrightarrow> True"

definition discover_streams :: "'s stream_server \<Rightarrow> 's \<Rightarrow> string list" where
  "discover_streams srv s =
     concat (map (\<lambda>p. filter stream_matches_filters (rs_scan srv s p)) stream_patterns)"

text \<open>An error of creating a group is logged; the stream is read all the same.\<close>

definition setup_streams_and_groups :: "'s stream_server \<Rightarrow> string \<Rightarrow> 's \<Rightarrow> 's \<times> string list" where
  "setup_streams_and_groups srv g s =
     (let ks = discover_streams srv s in (fold (\<lambda>k s. fst (rs_group srv s k g)) ks s, ks))"

definition create_consumer_group :: "'s stream_server \<Rightarrow> string \<Rightarrow> 's \<Rightarrow> 's \<times> string option" where
  "create_consumer_group srv g s =
     (case rs_group srv s ''events:global'' g of
        (s', Some e) \<Rightarrow>
          (s', if contains e ''BUSYGROUP'' then None
               else Some (''failed to create consumer group '' @ g @ '': '' @ e))
      | (s', None) \<Rightarrow> (s', None))"

definition delete_consumer_group :: "'s stream_server \<Rightarrow> string \<Rightarrow> 's \<Rightarrow> 's \<times> string option" where
  "delete_consumer_group srv g s = rs_destroy srv s ''events:global'' g"

definition acknowledge :: "'s stream_server \<Rightarrow> string \<Rightarrow> string \<Rightarrow> 's \<Rightarrow> 's \<times> string option" where
  "acknowledge srv g key s = (let (k, i) = ack_target key in rs_ack srv s k g i)"

text \<open>\<open>ReclaimPending\<close>: the messages that are claimed are counted and not looked at.\<close>

definition reclaim :: "'s stream_server \<Rightarrow> string \<Rightarrow> 's \<Rightarrow> 's \<times> (string, nat) result" where
  "reclaim srv g s =
     (let (s', r) = rs_claim srv s reclaim_stream g in (s', reclaim_pending (\<lambda>_. r)))"

text \<open>\<open>GetStreamInfo\<close>: the length of the global stream as the server gives it, or its failure; what
  it says of the groups, none if it fails. The pending ones are not counted, and the time of the
  last message is the time of asking.\<close>

record group_info =
  gi_name :: string
  gi_consumers :: int
  gi_pending :: int

record stream_info =
  si_name :: string
  si_messages :: int
  si_group_names :: "string list"
  si_groups :: "group_info list"
  si_pending :: int
  si_last_message :: time
  si_metadata :: "(string \<times> string) list"

definition get_stream_info ::
  "(string, int) result \<Rightarrow> (string, group_info list) result \<Rightarrow> time \<Rightarrow> (string, stream_info) result" where
  "get_stream_info info answer now =
     (case info of
        Inl e \<Rightarrow> Inl (''failed to get stream info: '' @ e)
      | Inr n \<Rightarrow>
          (let gs = (case answer of Inl e \<Rightarrow> [] | Inr gs \<Rightarrow> gs)
           in Inr \<lparr>si_name = ''events:global'', si_messages = n, si_group_names = map gi_name gs,
                   si_groups = gs, si_pending = 0, si_last_message = now,
                   si_metadata = [(''stream'', ''events:global'')]\<rparr>))"

subsection \<open>The reading loop\<close>

datatype sub_out = Handed cloud_event | Problem string

record subscription =
  sub_filters :: stream_filters
  sub_group :: string
  sub_consumer :: string
  sub_batch :: int

text \<open>\<open>Subscribe\<close>: a consumer without a name gets one from the group and a fresh id.\<close>

definition subscribe :: "string \<Rightarrow> subscription \<Rightarrow> subscription" where
  "subscribe uuid c =
     (if sub_consumer c = [] then c\<lparr>sub_consumer := sub_group c @ ''-'' @ take 8 uuid\<rparr> else c)"

definition batch_size :: "subscription \<Rightarrow> nat" where
  "batch_size c = (if 0 < sub_batch c then nat (sub_batch c) else 10)"

definition take_message ::
  "'s stream_server \<Rightarrow> subscription \<Rightarrow> string \<Rightarrow> message \<Rightarrow> 's \<times> sub_out list \<Rightarrow> 's \<times> sub_out list" where
  "take_message srv c k m st =
     (case receive_message (sub_filters c) k m of
        Deliver e \<Rightarrow> (fst st, snd st @ [Handed e])
      | AckNow k' i \<Rightarrow> (fst (rs_ack srv (fst st) k' (sub_group c) i), snd st))"

definition take_stream ::
  "'s stream_server \<Rightarrow> subscription \<Rightarrow> string \<times> message list \<Rightarrow> 's \<times> sub_out list \<Rightarrow> 's \<times> sub_out list" where
  "take_stream srv c km st = fold (take_message srv c (fst km)) (snd km) st"

definition poll ::
  "'s stream_server \<Rightarrow> subscription \<Rightarrow> 's \<times> string list \<Rightarrow> ('s \<times> string list) \<times> sub_out list" where
  "poll srv c st =
     (let names = filter (\<lambda>k. k \<noteq> []) (snd st)
      in if names = [] then (st, [])
         else case rs_read srv (fst st) (sub_group c) names (batch_size c) of
                (s, NoMessages) \<Rightarrow> ((s, snd st), [])
              | (s, ReadError e) \<Rightarrow>
                  if contains e ''NOGROUP'' \<or> contains e ''NOSTREAM''
                  then (setup_streams_and_groups srv (sub_group c) s, [])
                  else ((s, snd st), [Problem (''failed to read from Redis streams: '' @ e)])
              | (s, Messages ms) \<Rightarrow>
                  let (s', outs) = fold (take_stream srv c) ms (s, []) in ((s', snd st), outs))"

text \<open>The streams found at a tick are taken over only if their number has changed.\<close>

definition rediscover ::
  "'s stream_server \<Rightarrow> subscription \<Rightarrow> 's \<times> string list \<Rightarrow> 's \<times> string list" where
  "rediscover srv c st =
     (let (s, ks) = setup_streams_and_groups srv (sub_group c) (fst st)
      in (s, if length ks \<noteq> length (snd st) then ks else snd st))"

text \<open>What can happen to a subscription: its loop ticks or polls, somebody acknowledges, the
  reclaimer runs, a message is published.\<close>

datatype sub_event = Tick | Poll | Acked string | Reclaimed | Published string message

fun subscription_step ::
  "'s stream_server \<Rightarrow> subscription \<Rightarrow> 's \<times> string list \<Rightarrow> sub_event \<Rightarrow> ('s \<times> string list) \<times> sub_out list" where
  "subscription_step srv c st Tick = (rediscover srv c st, [])"
| "subscription_step srv c st Poll = poll srv c st"
| "subscription_step srv c st (Acked key) =
     ((fst (acknowledge srv (sub_group c) key (fst st)), snd st), [])"
| "subscription_step srv c st Reclaimed = ((fst (reclaim srv (sub_group c) (fst st)), snd st), [])"
| "subscription_step srv c st (Published k m) = ((rs_add srv (fst st) k m, snd st), [])"

fun run_subscription ::
  "'s stream_server \<Rightarrow> subscription \<Rightarrow> 's \<times> string list \<Rightarrow> sub_event list \<Rightarrow> ('s \<times> string list) \<times> sub_out list" where
  "run_subscription srv c st [] = (st, [])"
| "run_subscription srv c st (x # xs) =
     (let (st1, o1) = subscription_step srv c st x; (st2, o2) = run_subscription srv c st1 xs
      in (st2, o1 @ o2))"

text \<open>The event of a message as it is handed over.\<close>

definition handed_event :: "string \<Rightarrow> message \<Rightarrow> cloud_event" where
  "handed_event k m =
     add_extension ''redis_msg_id'' (GStr (msg_id m))
       (add_extension ''redis_stream'' (GStr k)
         (add_extension ''ack_key'' (GStr (ack_key k (msg_id m))) (parse_message m)))"

definition wanted :: "subscription \<Rightarrow> message \<Rightarrow> bool" where
  "wanted c m \<longleftrightarrow> should_process_event (sub_filters c) (parse_message m)"

lemma receive_cases:
  "receive_message (sub_filters c) k m =
     (if wanted c m then Deliver (handed_event k m) else AckNow k (msg_id m))"
  by (simp add: receive_message_def wanted_def handed_event_def Let_def)

text \<open>The events handed over from one stream.\<close>

definition from_stream :: "string \<Rightarrow> sub_out list \<Rightarrow> cloud_event list" where
  "from_stream k outs =
     concat (map (\<lambda>x. case x of Handed e \<Rightarrow> if ext_str e ''redis_stream'' = Some k then [e] else []
                             | Problem _ \<Rightarrow> []) outs)"

lemma handed_event_stream: "ext_str (handed_event k m) ''redis_stream'' = Some k"
  "ext_str (handed_event k m) ''ack_key'' = Some (ack_key k (msg_id m))"
  by (simp_all add: handed_event_def ext_str_def get_add_extension)

lemma from_stream_simps [simp]:
  "from_stream k [] = []"
  "from_stream k (a @ b) = from_stream k a @ from_stream k b"
  "from_stream k [Problem e] = []"
  "from_stream k [Handed (handed_event k' m)] = (if k = k' then [handed_event k' m] else [])"
  by (auto simp: from_stream_def handed_event_stream)

subsection \<open>What the code relies on\<close>

definition got :: "(string \<times> message list) list \<Rightarrow> string \<Rightarrow> message list" where
  "got ms k = concat (map (\<lambda>(k', xs). if k' = k then xs else []) ms)"

text \<open>
  The promises of consumer groups, for one group: \<open>stored\<close> is the content of a stream, of which
  the first \<open>taken\<close> messages have been given to the group; \<open>pend\<close> are the ids given out and
  not acknowledged. Reading with \<^verbatim>\<open>">"\<close> gives the next messages, in order, and only those.
\<close>

locale group_server =
  fixes srv :: "'s stream_server"
    and g :: string
    and inv :: "'s \<Rightarrow> bool"
    and keys :: "'s \<Rightarrow> string set"
    and stored :: "'s \<Rightarrow> string \<Rightarrow> message list"
    and taken :: "'s \<Rightarrow> string \<Rightarrow> nat"
    and pend :: "'s \<Rightarrow> string \<Rightarrow> string list"
    and ready :: "'s \<Rightarrow> string \<Rightarrow> bool"
  assumes taken_le: "inv s \<Longrightarrow> taken s k \<le> length (stored s k)"
    and keys_law: "inv s \<Longrightarrow> stored s k \<noteq> [] \<Longrightarrow> k \<in> keys s"
    and scan_law: "inv s \<Longrightarrow> distinct (rs_scan srv s p) \<and> set (rs_scan srv s p) = {k \<in> keys s. glob p k}"
    and group_law: "inv s \<Longrightarrow> s' = fst (rs_group srv s k g) \<Longrightarrow>
      inv s' \<and> keys s \<subseteq> keys s' \<and> stored s' = stored s \<and> taken s' = taken s \<and> pend s' = pend s \<and> ready s' k \<and>
      (\<forall>k'. ready s k' \<longrightarrow> ready s' k')"
    and read_law: "inv s \<Longrightarrow> rs_read srv s g ks n = (s', Messages ms) \<Longrightarrow>
      inv s' \<and> keys s' = keys s \<and> stored s' = stored s \<and> ready s' = ready s \<and>
      (\<forall>k. taken s' k = taken s k + length (got ms k) \<and>
           take (length (got ms k)) (drop (taken s k) (stored s k)) = got ms k \<and>
           pend s' k = pend s k @ map msg_id (got ms k))"
    and read_idle: "inv s \<Longrightarrow> rs_read srv s g ks n = (s', a) \<Longrightarrow> \<forall>ms. a \<noteq> Messages ms \<Longrightarrow> s' = s"
    and read_progress: "inv s \<Longrightarrow> \<forall>k \<in> set ks. ready s k \<Longrightarrow> 0 < n \<Longrightarrow> k \<in> set ks \<Longrightarrow>
      taken s k < length (stored s k) \<Longrightarrow> \<exists>s' ms. rs_read srv s g ks n = (s', Messages ms) \<and> got ms k \<noteq> []"
    and ack_law: "inv s \<Longrightarrow> s' = fst (rs_ack srv s k g i) \<Longrightarrow>
      inv s' \<and> keys s' = keys s \<and> stored s' = stored s \<and> taken s' = taken s \<and> ready s' = ready s \<and>
      (\<forall>k'. set (pend s' k') \<subseteq> set (pend s k')) \<and>
      (\<forall>k' j. (k', j) \<noteq> (k, i) \<and> j \<in> set (pend s k') \<longrightarrow> j \<in> set (pend s' k'))"
    and claim_law: "inv s \<Longrightarrow> s' = fst (rs_claim srv s k g) \<Longrightarrow>
      inv s' \<and> keys s' = keys s \<and> stored s' = stored s \<and> taken s' = taken s \<and> pend s' = pend s \<and>
      ready s' = ready s"
    and add_law: "inv s \<Longrightarrow> s' = rs_add srv s k m \<Longrightarrow>
      inv s' \<and> keys s \<subseteq> keys s' \<and> stored s' = (stored s)(k := stored s k @ [m]) \<and> taken s' = taken s \<and>
      pend s' = pend s \<and> ready s' = ready s"
begin

text \<open>A step that gives out nothing.\<close>

definition quiet :: "'s \<Rightarrow> 's \<Rightarrow> bool" where
  "quiet s s' \<longleftrightarrow> inv s' \<and> keys s \<subseteq> keys s' \<and> stored s' = stored s \<and> taken s' = taken s \<and> (\<forall>k. ready s k \<longrightarrow> ready s' k)"

lemma quiet_refl: "inv s \<Longrightarrow> quiet s s" by (simp add: quiet_def)

lemma quiet_trans: "quiet s t \<Longrightarrow> quiet t u \<Longrightarrow> quiet s u" by (auto simp: quiet_def)

lemma quiet_ack: "inv s \<Longrightarrow> quiet s (fst (rs_ack srv s k g i))"
  using ack_law [of s _ k i, OF _ refl] by (simp add: quiet_def)

lemma groups_quiet:
  "inv s \<Longrightarrow> quiet s (fold (\<lambda>k s. fst (rs_group srv s k g)) ks s) \<and>
    pend (fold (\<lambda>k s. fst (rs_group srv s k g)) ks s) = pend s \<and>
    (\<forall>k \<in> set ks. ready (fold (\<lambda>k s. fst (rs_group srv s k g)) ks s) k)"
proof (induction ks arbitrary: s)
  case (Cons k ks)
  let ?s = "fst (rs_group srv s k g)"
  have s: "inv ?s" "quiet s ?s" "pend ?s = pend s" "ready ?s k"
    using group_law [OF Cons.prems refl, of k] by (auto simp: quiet_def)
  then show ?case
    using Cons.IH [of ?s] quiet_trans [of s ?s] by (auto simp: quiet_def)
qed (simp add: quiet_refl)

lemma take_message_effect:
  assumes "inv (fst st)" "sub_group c = g"
  shows "quiet (fst st) (fst (take_message srv c k m st)) \<and>
    snd (take_message srv c k m st) = snd st @ (if wanted c m then [Handed (handed_event k m)] else [])"
  using assms by (auto simp: take_message_def receive_cases quiet_refl quiet_ack)

lemma take_messages_effect:
  assumes "inv (fst st)" "sub_group c = g"
  shows "quiet (fst st) (fst (fold (take_message srv c k) ms st)) \<and>
    snd (fold (take_message srv c k) ms st) = snd st @ map (\<lambda>m. Handed (handed_event k m)) (filter (wanted c) ms)"
  using assms
proof (induction ms arbitrary: st)
  case (Cons m ms)
  let ?st = "take_message srv c k m st"
  have st: "quiet (fst st) (fst ?st)" "inv (fst ?st)"
    "snd ?st = snd st @ (if wanted c m then [Handed (handed_event k m)] else [])"
    using take_message_effect [OF Cons.prems, of k m] by (auto simp: quiet_def)
  show ?case
    using Cons.IH [OF st(2) Cons.prems(2)] st by (auto intro: quiet_trans)
qed (simp add: quiet_refl)

lemma from_stream_handed:
  "from_stream k (map (\<lambda>m. Handed (handed_event k' m)) ms) = (if k = k' then map (handed_event k) ms else [])"
proof (induction ms)
  case (Cons m ms)
  have "from_stream k (Handed (handed_event k' m) # xs) =
      from_stream k [Handed (handed_event k' m)] @ from_stream k xs" for xs
    using from_stream_simps(2) [of k "[Handed (handed_event k' m)]" xs] by simp
  then show ?case using Cons by simp
qed simp

lemma take_streams_effect:
  assumes "inv (fst st)" "sub_group c = g"
  shows "quiet (fst st) (fst (fold (take_stream srv c) ms st)) \<and>
    from_stream k (snd (fold (take_stream srv c) ms st)) =
      from_stream k (snd st) @ map (handed_event k) (filter (wanted c) (got ms k))"
  using assms
proof (induction ms arbitrary: st)
  case (Cons km ms)
  obtain k' xs where km: "km = (k', xs)" by (cases km)
  let ?st = "take_stream srv c km st"
  have st: "quiet (fst st) (fst ?st)" "inv (fst ?st)"
    "snd ?st = snd st @ map (\<lambda>m. Handed (handed_event k' m)) (filter (wanted c) xs)"
    using take_messages_effect [OF Cons.prems, of k' xs] by (auto simp: quiet_def take_stream_def km)
  have "fold (take_stream srv c) (km # ms) st = fold (take_stream srv c) ms ?st" by simp
  then show ?case
    using Cons.IH [OF st(2) Cons.prems(2)] st quiet_trans [OF st(1)]
    by (auto simp: from_stream_handed got_def km)
qed (simp add: quiet_refl got_def)

end

subsection \<open>One step, and a run\<close>

context group_server
begin

text \<open>The messages given to the group between two states.\<close>

definition given :: "'s \<Rightarrow> 's \<Rightarrow> string \<Rightarrow> message list" where
  "given s s' k = drop (taken s k) (take (taken s' k) (stored s' k))"

definition later :: "'s \<Rightarrow> 's \<Rightarrow> bool" where
  "later s s' \<longleftrightarrow> inv s' \<and> keys s \<subseteq> keys s' \<and> (\<forall>k. taken s k \<le> taken s' k) \<and>
     (\<forall>k. \<exists>new. stored s' k = stored s k @ new) \<and> (\<forall>k. ready s k \<longrightarrow> ready s' k)"

lemma later_quiet: "quiet s s' \<Longrightarrow> later s s'"
  by (auto simp: quiet_def later_def)

lemma later_trans: "later s t \<Longrightarrow> later t u \<Longrightarrow> later s u"
  unfolding later_def by (metis append.assoc order_trans subset_trans)

lemma given_quiet: "quiet s s' \<Longrightarrow> given s s' k = []"
  by (simp add: quiet_def given_def)

lemma later_taken: "inv s \<Longrightarrow> later s s' \<Longrightarrow> taken s k \<le> taken s' k \<and> taken s' k \<le> length (stored s' k)"
  using taken_le by (auto simp: later_def)

lemma given_append:
  assumes "inv s" "later s t" "later t u"
  shows "given s u k = given s t k @ given t u k"
proof -
  have le: "taken s k \<le> taken t k" "taken t k \<le> taken u k" "taken t k \<le> length (stored t k)"
    using later_taken [OF assms(1,2), of k] assms by (auto simp: later_def)
  obtain new where new: "stored u k = stored t k @ new"
    using assms(3) unfolding later_def by blast
  have eq: "take (taken u k) (stored u k) =
      take (taken t k) (stored t k) @ drop (taken t k) (take (taken u k) (stored u k))"
  proof -
    have "take (taken t k) (stored t k) = take (taken t k) (take (taken u k) (stored u k))"
      using le new by (simp add: min_absorb1)
    then show ?thesis by (metis append_take_drop_id)
  qed
  show ?thesis
    unfolding given_def by (subst eq) (simp add: le min_absorb2)
qed

lemma setup_effect:
  assumes "inv s" "setup_streams_and_groups srv g s = (s', ks)"
  shows "quiet s s' \<and> pend s' = pend s \<and> ks = discover_streams srv s \<and> (\<forall>k \<in> set ks. ready s' k)"
  using groups_quiet [OF assms(1), of "discover_streams srv s"] assms(2)
  by (auto simp: setup_streams_and_groups_def Let_def)

lemma rediscover_effect:
  assumes "inv (fst st)" "sub_group c = g"
  shows "quiet (fst st) (fst (rediscover srv c st)) \<and> pend (fst (rediscover srv c st)) = pend (fst st)"
  using setup_effect [OF assms(1)] assms(2)
  by (cases "setup_streams_and_groups srv g (fst st)") (auto simp: rediscover_def)

lemma poll_messages:
  assumes "inv (fst st)" "sub_group c = g" "names = filter (\<lambda>k. k \<noteq> []) (snd st)" "names \<noteq> []"
    and r: "rs_read srv (fst st) g names (batch_size c) = (s, Messages ms)"
  shows "later (fst st) (fst (fst (poll srv c st))) \<and> snd (fst (poll srv c st)) = snd st \<and>
    given (fst st) (fst (fst (poll srv c st))) k = got ms k \<and>
    from_stream k (snd (poll srv c st)) = map (handed_event k) (filter (wanted c) (got ms k))"
proof -
  have law: "inv s" "keys s = keys (fst st)" "stored s = stored (fst st)" "ready s = ready (fst st)"
    "\<And>k. taken s k = taken (fst st) k + length (got ms k)"
    "\<And>k. take (length (got ms k)) (drop (taken (fst st) k) (stored (fst st) k)) = got ms k"
    using read_law [OF assms(1) r] by auto
  obtain s' outs where f: "fold (take_stream srv c) ms (s, []) = (s', outs)" by fastforce
  have eff: "quiet s s'" "\<And>k. from_stream k outs = map (handed_event k) (filter (wanted c) (got ms k))"
    using take_streams_effect [of "(s, [])" c ms] law(1) assms(2) by (auto simp: f)
  have p: "poll srv c st = ((s', snd st), outs)"
    using assms(2-4) r f by (simp add: poll_def Let_def)
  have "given (fst st) s' k = got ms k"
    using eff(1) law(3) law(5)[of k] law(6)[of k] by (simp add: given_def quiet_def drop_take)
  then show ?thesis
    using eff law p by (auto simp: later_def quiet_def)
qed

lemma poll_idle:
  assumes "inv (fst st)" "sub_group c = g"
    and "\<nexists>s ms. rs_read srv (fst st) g (filter (\<lambda>k. k \<noteq> []) (snd st)) (batch_size c) = (s, Messages ms)"
  shows "quiet (fst st) (fst (fst (poll srv c st))) \<and> from_stream k (snd (poll srv c st)) = []"
proof -
  let ?names = "filter (\<lambda>k. k \<noteq> []) (snd st)"
  obtain s a where r: "rs_read srv (fst st) g ?names (batch_size c) = (s, a)" by fastforce
  then have s: "s = fst st"
    using assms read_idle [OF assms(1) r] by auto
  show ?thesis
  proof (cases a)
    case NoMessages
    then show ?thesis using r s assms by (simp add: poll_def quiet_refl Let_def)
  next
    case (Messages ms)
    then show ?thesis using r assms(3) by blast
  next
    case (ReadError e)
    obtain s1 ks where "setup_streams_and_groups srv g (fst st) = (s1, ks)" by fastforce
    then show ?thesis
      using ReadError r s assms setup_effect [OF assms(1), of s1 ks]
      by (auto simp: poll_def quiet_refl Let_def)
  qed
qed

lemma step_accounts:
  assumes "inv (fst st)" "sub_group c = g" "subscription_step srv c st x = (st', outs)"
  shows "later (fst st) (fst st') \<and>
    from_stream k outs = map (handed_event k) (filter (wanted c) (given (fst st) (fst st') k))"
proof (cases x)
  case Tick
  then show ?thesis
    using rediscover_effect [OF assms(1,2)] assms(3) by (auto simp: later_quiet given_quiet)
next
  case Poll
  then have p: "poll srv c st = (st', outs)" using assms(3) by simp
  show ?thesis
  proof (cases "filter (\<lambda>k. k \<noteq> []) (snd st) = []")
    case True
    then show ?thesis
      using p assms(1) by (auto simp: poll_def quiet_refl later_quiet given_quiet)
  next
    case False
    then show ?thesis
      using poll_messages [OF assms(1,2) refl False, of _ _ k] poll_idle [OF assms(1,2), of k] p
      by (cases "\<exists>s ms. rs_read srv (fst st) g (filter (\<lambda>k. k \<noteq> []) (snd st)) (batch_size c) = (s, Messages ms)")
         (auto simp: later_quiet given_quiet)
  qed
next
  case (Acked key)
  then show ?thesis
    using quiet_ack [OF assms(1)] assms(2,3)
    by (auto simp: acknowledge_def later_quiet given_quiet split: prod.splits)
next
  case Reclaimed
  then have "fst st' = fst (rs_claim srv (fst st) reclaim_stream g)" "outs = []"
    using assms(2,3) by (auto simp: reclaim_def split: prod.splits)
  moreover have "quiet (fst st) (fst (rs_claim srv (fst st) reclaim_stream g))"
    using claim_law [OF assms(1) refl, of reclaim_stream] by (simp add: quiet_def)
  ultimately show ?thesis by (simp add: later_quiet given_quiet)
next
  case (Published k' m)
  then have "st' = (rs_add srv (fst st) k' m, snd st)" "outs = []"
    using assms(3) by auto
  then show ?thesis
    using add_law [OF assms(1) refl, of k' m] taken_le [OF assms(1), of k]
    by (auto simp: later_def given_def)
qed

lemma run_accounts:
  assumes "inv (fst st)" "sub_group c = g" "run_subscription srv c st xs = (st', outs)"
  shows "later (fst st) (fst st') \<and>
    from_stream k outs = map (handed_event k) (filter (wanted c) (given (fst st) (fst st') k))"
  using assms(1,3)
proof (induction xs arbitrary: st outs)
  case Nil
  then show ?case by (auto simp: later_quiet quiet_refl given_quiet)
next
  case (Cons x xs)
  obtain st1 o1 where s1: "subscription_step srv c st x = (st1, o1)" by fastforce
  obtain o2 where s2: "run_subscription srv c st1 xs = (st', o2)" "outs = o1 @ o2"
    using Cons.prems(2) s1 by (auto split: prod.splits)
  have a1: "later (fst st) (fst st1)"
    "from_stream k o1 = map (handed_event k) (filter (wanted c) (given (fst st) (fst st1) k))"
    using step_accounts [OF Cons.prems(1) assms(2) s1] by auto
  have "inv (fst st1)" using a1(1) by (simp add: later_def)
  then have a2: "later (fst st1) (fst st')"
    "from_stream k o2 = map (handed_event k) (filter (wanted c) (given (fst st1) (fst st') k))"
    using Cons.IH s2(1) by auto
  show ?case
    using a1 a2 later_trans [OF a1(1) a2(1)] given_append [OF Cons.prems(1) a1(1) a2(1)]
    by (simp add: s2(2))
qed

text \<open>An id that is pending stays pending until it is acknowledged under its own key: no reading,
  no rediscovery and no reclaiming changes that.\<close>

lemma poll_pending:
  assumes "inv (fst st)" "sub_group c = g" "i \<in> set (pend (fst st) k)"
    and fresh: "\<forall>m \<in> set (drop (taken (fst st) k) (stored (fst st) k)). msg_id m \<noteq> i"
  shows "i \<in> set (pend (fst (fst (poll srv c st))) k)"
proof -
  have msgs: "i \<in> set (pend (fst (fold (take_message srv c k') ms st)) k)"
    if "inv (fst st)" "i \<in> set (pend (fst st) k)" "k' = k \<longrightarrow> (\<forall>m \<in> set ms. msg_id m \<noteq> i)" for k' ms and st :: "'s \<times> sub_out list"
    using that
  proof (induction ms arbitrary: st)
    case (Cons m ms)
    let ?st = "take_message srv c k' m st"
    have "inv (fst ?st)"
      using take_message_effect [OF Cons.prems(1) assms(2), of k' m] by (simp add: quiet_def)
    moreover have "i \<in> set (pend (fst ?st) k)"
      using Cons.prems ack_law [OF Cons.prems(1) refl, of k' "msg_id m"] assms(2)
      by (auto simp: take_message_def receive_cases)
    ultimately show ?case using Cons.IH [of ?st] Cons.prems(3) by simp
  qed simp
  have streams: "i \<in> set (pend (fst (fold (take_stream srv c) ms st)) k)"
    if "inv (fst st)" "i \<in> set (pend (fst st) k)" "\<forall>m \<in> set (got ms k). msg_id m \<noteq> i" for ms and st :: "'s \<times> sub_out list"
    using that
  proof (induction ms arbitrary: st)
    case (Cons km ms)
    let ?st = "take_stream srv c km st"
    have "inv (fst ?st)"
      using take_messages_effect [OF Cons.prems(1) assms(2), of "fst km" "snd km"]
      by (simp add: quiet_def take_stream_def)
    moreover have "i \<in> set (pend (fst ?st) k)"
      using msgs [OF Cons.prems(1,2), of "fst km" "snd km"] Cons.prems(3)
      by (cases km) (auto simp: take_stream_def got_def)
    ultimately show ?case
      using Cons.IH [of ?st] Cons.prems(3) by (auto simp: got_def split: prod.splits)
  qed simp
  let ?names = "filter (\<lambda>k. k \<noteq> []) (snd st)"
  obtain s a where r: "rs_read srv (fst st) g ?names (batch_size c) = (s, a)" by fastforce
  show ?thesis
  proof (cases "\<exists>ms. a = Messages ms")
    case True
    then obtain ms where ms: "a = Messages ms" by blast
    note law = read_law [OF assms(1) r [unfolded ms]]
    have "set (got ms k) \<subseteq> set (drop (taken (fst st) k) (stored (fst st) k))"
      using law by (metis set_take_subset)
    then have "i \<in> set (pend (fst (fold (take_stream srv c) ms (s, []))) k)"
      using law assms(3) fresh by (intro streams) auto
    then show ?thesis
      using r ms assms(2,3) by (auto simp: poll_def Let_def split: prod.splits)
  next
    case False
    then have s: "s = fst st" using read_idle [OF assms(1) r] by blast
    obtain s1 ks where u: "setup_streams_and_groups srv g (fst st) = (s1, ks)" by fastforce
    show ?thesis
      using r s False u setup_effect [OF assms(1) u] assms(2,3)
      by (cases a) (auto simp: poll_def Let_def)
  qed
qed

lemma step_pending:
  assumes "inv (fst st)" "sub_group c = g" "i \<in> set (pend (fst st) k)"
    and "\<forall>m \<in> set (drop (taken (fst st) k) (stored (fst st) k)). msg_id m \<noteq> i"
    and "\<forall>key. x = Acked key \<longrightarrow> ack_target key \<noteq> (k, i)"
  shows "i \<in> set (pend (fst (fst (subscription_step srv c st x))) k)"
proof (cases x)
  case Tick
  then show ?thesis using rediscover_effect [OF assms(1,2)] assms(3) by simp
next
  case Poll
  then show ?thesis using poll_pending assms by simp
next
  case (Acked key)
  obtain k' j where t: "ack_target key = (k', j)" by fastforce
  then show ?thesis
    using Acked assms(3,5) ack_law [OF assms(1) refl, of k' j] assms(2)
    by (auto simp: acknowledge_def)
next
  case Reclaimed
  then show ?thesis
    using claim_law [OF assms(1) refl, of reclaim_stream] assms(2,3)
    by (auto simp: reclaim_def split: prod.splits)
next
  case (Published k' m)
  then show ?thesis using add_law [OF assms(1) refl, of k' m] assms(3) by simp
qed

definition fresh :: "'s \<Rightarrow> string \<Rightarrow> string \<Rightarrow> bool" where
  "fresh s k i \<longleftrightarrow> (\<forall>m \<in> set (drop (taken s k) (stored s k)). msg_id m \<noteq> i)"

lemma poll_stored:
  assumes "inv (fst st)" "sub_group c = g"
  shows "stored (fst (fst (poll srv c st))) = stored (fst st)"
proof -
  let ?names = "filter (\<lambda>k. k \<noteq> []) (snd st)"
  obtain s a where r: "rs_read srv (fst st) g ?names (batch_size c) = (s, a)" by fastforce
  show ?thesis
  proof (cases "\<exists>ms. a = Messages ms")
    case True
    then obtain ms where ms: "a = Messages ms" by blast
    note law = read_law [OF assms(1) r [unfolded ms]]
    have "stored (fst (fold (take_stream srv c) ms (s, []))) = stored s"
      using take_streams_effect [of "(s, [])" c ms] law assms(2) by (auto simp: quiet_def)
    then show ?thesis
      using r ms law assms(2) by (auto simp: poll_def Let_def split: prod.splits)
  next
    case False
    then show ?thesis
      using poll_idle [OF assms(1,2)] r by (auto simp: quiet_def)
  qed
qed

lemma step_stored:
  assumes "inv (fst st)" "sub_group c = g"
  shows "stored (fst (fst (subscription_step srv c st x))) =
    (case x of Published k m \<Rightarrow> (stored (fst st))(k := stored (fst st) k @ [m]) | _ \<Rightarrow> stored (fst st))"
proof (cases x)
  case Tick
  then show ?thesis using rediscover_effect [OF assms] by (simp add: quiet_def)
next
  case Poll
  then show ?thesis using poll_stored [OF assms] by simp
next
  case (Acked key)
  then show ?thesis
    using ack_law [OF assms(1) refl] assms(2) by (auto simp: acknowledge_def split: prod.splits)
next
  case Reclaimed
  then show ?thesis
    using claim_law [OF assms(1) refl, of reclaim_stream] assms(2)
    by (auto simp: reclaim_def split: prod.splits)
next
  case (Published k m)
  then show ?thesis using add_law [OF assms(1) refl, of k m] by simp
qed

lemma set_drop_mono: "a \<le> b \<Longrightarrow> set (drop b xs) \<subseteq> set (drop a xs)"
  by (metis drop_drop le_add_diff_inverse2 set_drop_subset)

lemma step_fresh:
  assumes "inv (fst st)" "sub_group c = g" "fresh (fst st) k i" "subscription_step srv c st x = (st', outs)"
    and "\<forall>m. x = Published k m \<longrightarrow> msg_id m \<noteq> i"
  shows "fresh (fst st') k i \<and> (\<forall>m \<in> set (given (fst st) (fst st') k). msg_id m \<noteq> i)"
proof -
  have le: "taken (fst st) k \<le> taken (fst st') k" "taken (fst st) k \<le> length (stored (fst st) k)"
    using step_accounts [OF assms(1,2,4)] taken_le [OF assms(1)] by (auto simp: later_def)
  have "stored (fst st') = (case x of Published k m \<Rightarrow> (stored (fst st))(k := stored (fst st) k @ [m]) | _ \<Rightarrow> stored (fst st))"
    using step_stored [OF assms(1,2), of x] assms(4) by simp
  then have all: "\<forall>m \<in> set (drop (taken (fst st) k) (stored (fst st') k)). msg_id m \<noteq> i"
    using assms(3,5) le(2) by (auto simp: fresh_def split: sub_event.splits)
  have "set (given (fst st) (fst st') k) \<subseteq> set (drop (taken (fst st) k) (stored (fst st') k))"
    by (simp add: given_def drop_take set_take_subset)
  then show ?thesis
    using all set_drop_mono [OF le(1), of "stored (fst st') k"] unfolding fresh_def by blast
qed

lemma run_pending:
  assumes "inv (fst st)" "sub_group c = g" "i \<in> set (pend (fst st) k)" "fresh (fst st) k i"
    and "run_subscription srv c st xs = (st', outs)"
    and "\<forall>x \<in> set xs. (\<forall>key. x = Acked key \<longrightarrow> ack_target key \<noteq> (k, i)) \<and>
      (\<forall>m. x = Published k m \<longrightarrow> msg_id m \<noteq> i)"
  shows "i \<in> set (pend (fst st') k) \<and> (\<forall>e \<in> set (from_stream k outs). ext_str e ''redis_msg_id'' \<noteq> Some i)"
  using assms(1,3,4,5,6)
proof (induction xs arbitrary: st outs)
  case (Cons x xs)
  obtain st1 o1 where s1: "subscription_step srv c st x = (st1, o1)" by fastforce
  obtain o2 where s2: "run_subscription srv c st1 xs = (st', o2)" "outs = o1 @ o2"
    using Cons.prems(4) s1 by (auto split: prod.splits)
  have a1: "inv (fst st1)" "from_stream k o1 = map (handed_event k) (filter (wanted c) (given (fst st) (fst st1) k))"
    using step_accounts [OF Cons.prems(1) assms(2) s1, of k] by (simp_all add: later_def)
  have x: "\<forall>key. x = Acked key \<longrightarrow> ack_target key \<noteq> (k, i)" "\<forall>m. x = Published k m \<longrightarrow> msg_id m \<noteq> i"
    using Cons.prems(5) by simp_all
  have f1: "fresh (fst st1) k i" "\<forall>m \<in> set (given (fst st) (fst st1) k). msg_id m \<noteq> i"
    using step_fresh [OF Cons.prems(1) assms(2) Cons.prems(3) s1] x(2) by blast+
  have "i \<in> set (pend (fst st1) k)"
    using step_pending [OF Cons.prems(1) assms(2) Cons.prems(2) _ x(1)] Cons.prems(3) s1
    unfolding fresh_def by simp
  then have "i \<in> set (pend (fst st') k) \<and> (\<forall>e \<in> set (from_stream k o2). ext_str e ''redis_msg_id'' \<noteq> Some i)"
    using Cons.IH [OF a1(1) _ f1(1) s2(1)] Cons.prems(5) by simp
  moreover have "ext_str (handed_event k m) ''redis_msg_id'' = Some (msg_id m)" for m
    by (simp add: handed_event_def ext_str_def get_add_extension)
  ultimately show ?case
    using a1(2) f1(2) s2(2) by auto
qed auto

text \<open>Which streams are known. Streams never disappear, so comparing their number is enough to
  notice a new one.\<close>

definition known :: "'s \<times> string list \<Rightarrow> bool" where
  "known st \<longleftrightarrow> (\<exists>L. snd st = concat (map L stream_patterns) \<and>
     (\<forall>p. distinct (L p) \<and> set (L p) \<subseteq> {k \<in> keys (fst st). glob p k})) \<and>
     (\<forall>k \<in> set (snd st). ready (fst st) k)"

lemma sum_list_le_eq:
  fixes f h :: "'b \<Rightarrow> nat"
  assumes "\<And>p. f p \<le> h p" "sum_list (map f ps) = sum_list (map h ps)" "p \<in> set ps"
  shows "f p = h p"
  using assms(2,3)
proof (induction ps)
  case (Cons q ps)
  have "sum_list (map f ps) \<le> sum_list (map h ps)"
    by (intro sum_list_mono assms(1))
  then have "f q = h q" "sum_list (map f ps) = sum_list (map h ps)"
    using Cons.prems(1) assms(1) [of q] by simp_all
  then show ?case using Cons by auto
qed simp

lemma discover_eq: "discover_streams srv s = concat (map (rs_scan srv s) stream_patterns)"
  by (simp add: discover_streams_def stream_matches_filters_def)

lemma discover_known:
  assumes "inv s" "setup_streams_and_groups srv g s = (s', ks)"
  shows "known (s', ks)"
  using setup_effect [OF assms] scan_law [OF assms(1)]
  by (auto simp: known_def discover_eq quiet_def intro!: exI [of _ "rs_scan srv s"])

lemma known_later: "known st \<Longrightarrow> later (fst st) s' \<Longrightarrow> known (s', snd st)"
proof -
  assume k: "known st" and l: "later (fst st) s'"
  have ne: "keys (fst st) \<subseteq> keys s'"
    using l by (simp add: later_def)
  obtain L where L: "snd st = concat (map L stream_patterns)"
    "\<And>p. distinct (L p) \<and> set (L p) \<subseteq> {k \<in> keys (fst st). glob p k}"
    and r: "\<forall>k \<in> set (snd st). ready (fst st) k"
    using k unfolding known_def by blast
  have "\<forall>p. distinct (L p) \<and> set (L p) \<subseteq> {k \<in> keys s'. glob p k}"
    using L(2) ne by blast
  moreover have "\<forall>k \<in> set (snd st). ready s' k"
    using r l by (simp add: later_def)
  ultimately show "known (s', snd st)"
    using L(1) by (auto simp: known_def)
qed

lemma step_known:
  assumes "inv (fst st)" "sub_group c = g" "known st" "subscription_step srv c st x = (st', outs)"
  shows "known st'"
proof (cases "snd st' = snd st")
  case True
  then show ?thesis
    using known_later [OF assms(3), of "fst st'"] step_accounts [OF assms(1,2,4)] by (metis prod.collapse)
next
  case False
  obtain s' ks where u: "setup_streams_and_groups srv g (fst st) = (s', ks)" by fastforce
  have "x = Tick \<or> x = Poll" using assms(4) False by (cases x) auto
  then have "st' = (s', ks)"
  proof
    assume "x = Tick"
    then show ?thesis using assms(2,4) u False by (auto simp: rediscover_def)
  next
    assume x: "x = Poll"
    let ?names = "filter (\<lambda>k. k \<noteq> []) (snd st)"
    obtain s a where r: "rs_read srv (fst st) g ?names (batch_size c) = (s, a)" by fastforce
    have "\<forall>ms. a \<noteq> Messages ms \<Longrightarrow> s = fst st" using read_idle [OF assms(1) r] by blast
    then show ?thesis
      using x assms(2,4) u False r
      by (cases a) (auto simp: poll_def Let_def split: prod.splits if_splits)
  qed
  then show ?thesis using discover_known [OF assms(1) u] by simp
qed

lemma run_known:
  "inv (fst st) \<Longrightarrow> sub_group c = g \<Longrightarrow> known st \<Longrightarrow> run_subscription srv c st xs = (st', outs) \<Longrightarrow> known st'"
proof (induction xs arbitrary: st outs)
  case (Cons x xs)
  obtain st1 o1 where s1: "subscription_step srv c st x = (st1, o1)" by fastforce
  then have "inv (fst st1)" "known st1"
    using step_accounts [OF Cons.prems(1,2) s1] step_known [OF Cons.prems(1-3) s1] by (auto simp: later_def)
  then show ?case using Cons.IH Cons.prems s1 by (auto split: prod.splits)
qed simp

lemma rediscover_finds:
  assumes "inv (fst st)" "sub_group c = g" "known st"
    and "p \<in> set stream_patterns" "glob p k" "k \<in> keys (fst st)"
  shows "k \<in> set (snd (rediscover srv c st)) \<and> known (rediscover srv c st)"
proof -
  obtain s' ks where u: "setup_streams_and_groups srv g (fst st) = (s', ks)" by fastforce
  note eff = setup_effect [OF assms(1) u]
  have scan: "\<And>p. distinct (rs_scan srv (fst st) p)"
    "\<And>p. set (rs_scan srv (fst st) p) = {k \<in> keys (fst st). glob p k}"
    using scan_law [OF assms(1)] by auto
  have found: "k \<in> set ks"
    using eff scan assms(4-6) by (auto simp: discover_eq)
  show ?thesis
  proof (cases "length ks = length (snd st)")
    case False
    then show ?thesis
      using u assms(2) found discover_known [OF assms(1) u] by (simp add: rediscover_def)
  next
    case True
    obtain L where L: "snd st = concat (map L stream_patterns)" "\<And>p. distinct (L p)"
      "\<And>p. set (L p) \<subseteq> {k \<in> keys (fst st). glob p k}"
      using assms(3) by (auto simp: known_def)
    have sub: "set (L p) \<subseteq> set (rs_scan srv (fst st) p)" for p
      using L(3) scan(2) by blast
    have "length (L p) \<le> length (rs_scan srv (fst st) p)" for p
      using card_mono [OF _ sub [of p]] L(2) scan(1) by (simp add: distinct_card)
    moreover have "sum_list (map (\<lambda>p. length (L p)) stream_patterns) =
        sum_list (map (\<lambda>p. length (rs_scan srv (fst st) p)) stream_patterns)"
      using True L(1) eff by (simp add: discover_eq length_concat comp_def)
    ultimately have "length (L p) = length (rs_scan srv (fst st) p)"
      using assms(4) by (intro sum_list_le_eq [of "\<lambda>p. length (L p)"]) auto
    then have "set (L p) = set (rs_scan srv (fst st) p)"
      using sub [of p] L(2) scan(1) by (intro card_subset_eq) (simp_all add: distinct_card)
    then have "k \<in> set (snd st)"
      using L(1) scan(2) assms(4-6) by auto
    moreover have "known (s', snd st)"
      using known_later [OF assms(3) later_quiet] eff by blast
    ultimately show ?thesis
      using u assms(2) True by (simp add: rediscover_def)
  qed
qed

lemma pattern_nonempty: "p \<in> set stream_patterns \<Longrightarrow> glob p k \<Longrightarrow> k \<noteq> []"
  by (auto simp: stream_patterns_def)

lemma poll_advances:
  assumes "inv (fst st)" "sub_group c = g" "\<forall>k \<in> set (snd st). ready (fst st) k"
    and "k \<in> set (snd st)" "k \<noteq> []" "taken (fst st) k < length (stored (fst st) k)"
  shows "taken (fst st) k < taken (fst (fst (poll srv c st))) k \<and> snd (fst (poll srv c st)) = snd st"
proof -
  let ?names = "filter (\<lambda>k. k \<noteq> []) (snd st)"
  have names: "k \<in> set ?names" "?names \<noteq> []" "\<forall>k \<in> set ?names. ready (fst st) k"
    using assms by (auto simp: filter_empty_conv)
  have "0 < batch_size c" by (simp add: batch_size_def)
  then obtain s ms where r: "rs_read srv (fst st) g ?names (batch_size c) = (s, Messages ms)" "got ms k \<noteq> []"
    using read_progress [OF assms(1) names(3) _ names(1) assms(6)] by blast
  let ?s = "fst (fst (poll srv c st))"
  have "given (fst st) ?s k = got ms k" "snd (fst (poll srv c st)) = snd st" "taken (fst st) k \<le> taken ?s k"
    using poll_messages [OF assms(1,2) refl names(2) r(1)] by (auto simp: later_def)
  moreover have "taken (fst st) k \<noteq> taken ?s k"
    using calculation r(2) by (auto simp: given_def)
  ultimately show ?thesis by simp
qed

lemma polls_stored:
  assumes "inv (fst st)" "sub_group c = g" "run_subscription srv c st (replicate n Poll) = (st', outs)"
  shows "stored (fst st') = stored (fst st)"
  using assms(1,3)
proof (induction n arbitrary: st outs)
  case (Suc n)
  obtain st1 o1 where p: "poll srv c st = (st1, o1)" by fastforce
  then have "stored (fst st1) = stored (fst st)" "inv (fst st1)"
    using poll_stored [OF Suc.prems(1) assms(2)] step_accounts [OF Suc.prems(1) assms(2), of Poll st1 o1]
    by (auto simp: later_def)
  then show ?case using Suc.IH Suc.prems p by (auto split: prod.splits)
qed simp

lemma polls_catch_up:
  assumes "inv (fst st)" "sub_group c = g" "\<forall>k \<in> set (snd st). ready (fst st) k"
    and "k \<in> set (snd st)" "k \<noteq> []"
    and "run_subscription srv c st (replicate n Poll) = (st', outs)"
    and "length (stored (fst st) k) \<le> taken (fst st) k + n"
  shows "taken (fst st') k = length (stored (fst st) k) \<and> stored (fst st') = stored (fst st)"
  using assms(1,3,4,6,7)
proof (induction n arbitrary: st outs)
  case 0
  then show ?case using taken_le [of "fst st" k] by simp
next
  case (Suc n)
  obtain st1 o1 where s1: "poll srv c st = (st1, o1)" by fastforce
  obtain o2 where s2: "run_subscription srv c st1 (replicate n Poll) = (st', o2)"
    using Suc.prems(4) s1 by (auto split: prod.splits)
  have st1: "later (fst st) (fst st1)" "stored (fst st1) = stored (fst st)"
    using step_accounts [OF Suc.prems(1) assms(2), of Poll st1 o1] s1
      poll_stored [OF Suc.prems(1) assms(2)] by auto
  have inv1: "inv (fst st1)" and ready1: "\<And>k. ready (fst st) k \<Longrightarrow> ready (fst st1) k"
    and mono: "taken (fst st) k \<le> taken (fst st1) k"
    using st1(1) by (auto simp: later_def)
  show ?case
  proof (cases "taken (fst st) k < length (stored (fst st) k)")
    case True
    then have "taken (fst st) k < taken (fst st1) k" "snd st1 = snd st"
      using poll_advances [OF Suc.prems(1) assms(2) Suc.prems(2,3) assms(5)] s1 by auto
    then show ?thesis
      using Suc.IH [OF inv1 _ _ s2] Suc.prems st1(2) ready1 by simp
  next
    case False
    have run: "later (fst st1) (fst st')"
      using run_accounts [OF inv1 assms(2) s2] by simp
    have stored': "stored (fst st') = stored (fst st1)"
      using polls_stored [OF inv1 assms(2) s2] .
    have "taken (fst st') k \<le> length (stored (fst st') k)" "taken (fst st1) k \<le> taken (fst st') k"
      using run taken_le by (auto simp: later_def)
    then show ?thesis
      using False mono stored' st1(2) by simp
  qed
qed

text \<open>After a tick, as many polls as there are messages bring everything of a stream.\<close>

lemma everything_arrives:
  assumes "inv (fst st)" "sub_group c = g" "known st"
    and "p \<in> set stream_patterns" "glob p k" "length (stored (fst st) k) \<le> taken (fst st) k + n"
    and "run_subscription srv c st (Tick # replicate n Poll) = (st', outs)"
  shows "stored (fst st') k = stored (fst st) k \<and>
    from_stream k outs = map (handed_event k) (filter (wanted c) (drop (taken (fst st) k) (stored (fst st) k)))"
proof (cases "stored (fst st) k = []")
  case True
  obtain st1 where t: "rediscover srv c st = st1" by blast
  obtain o2 where r: "run_subscription srv c st1 (replicate n Poll) = (st', o2)" "outs = o2"
    using assms(7) t by (auto split: prod.splits)
  have "inv (fst st1)" "stored (fst st1) = stored (fst st)"
    using rediscover_effect [OF assms(1,2)] t by (auto simp: quiet_def)
  then have "stored (fst st') = stored (fst st)"
    using polls_stored [OF _ assms(2) r(1)] by simp
  then show ?thesis
    using run_accounts [OF assms(1,2,7), of k] True by (simp add: given_def)
next
  case False
  obtain st1 where t: "rediscover srv c st = st1" by blast
  obtain o2 where r: "run_subscription srv c st1 (replicate n Poll) = (st', o2)" "outs = o2"
    using assms(7) t by (auto split: prod.splits)
  have st1: "k \<in> set (snd st1)" "known st1" "quiet (fst st) (fst st1)"
    using rediscover_finds [OF assms(1-5) keys_law [OF assms(1) False]] rediscover_effect [OF assms(1,2)] t by auto
  have "taken (fst st') k = length (stored (fst st1) k) \<and> stored (fst st') = stored (fst st1)"
    using st1 assms(6) pattern_nonempty [OF assms(4,5)]
    by (intro polls_catch_up [OF _ assms(2) _ st1(1) _ r(1)]) (auto simp: quiet_def known_def)
  then show ?thesis
    using run_accounts [OF assms(1,2,7), of k] st1(3) by (simp add: given_def quiet_def)
qed

end

end
