(* ===== verification/Stream_Groups.thy ===== *)
theory Stream_Groups
  imports Subscription
begin

text \<open>
  The consumer groups of Redis streams, as far as the subscription uses them: a stream is a
  list of messages, a group of a stream a read position and the ids that are pending. They
  provide the locale \<open>group_server\<close>, and the properties of subscriptions are stated over them.
\<close>

record redis =
  rd_streams :: streams
  rd_groups :: "((string \<times> string) \<times> (nat \<times> string list)) list"

definition stream_of :: "redis \<Rightarrow> string \<Rightarrow> message list" where
  "stream_of s k = (case map_of (rd_streams s) k of None \<Rightarrow> [] | Some ms \<Rightarrow> ms)"

definition group_of :: "redis \<Rightarrow> string \<Rightarrow> string \<Rightarrow> nat \<times> string list" where
  "group_of s g k = (case map_of (rd_groups s) (k, g) of None \<Rightarrow> (0, []) | Some x \<Rightarrow> x)"

definition has_group :: "string \<Rightarrow> redis \<Rightarrow> string \<Rightarrow> bool" where
  "has_group g s k \<longleftrightarrow> map_of (rd_groups s) (k, g) \<noteq> None"

definition stream_keys :: "redis \<Rightarrow> string set" where
  "stream_keys s = fst ` set (rd_streams s)"

definition set_group :: "string \<Rightarrow> string \<Rightarrow> nat \<times> string list \<Rightarrow> redis \<Rightarrow> redis" where
  "set_group g k x s = s\<lparr>rd_groups := put (k, g) x (rd_groups s)\<rparr>"

definition xgroup_create :: "redis \<Rightarrow> string \<Rightarrow> string \<Rightarrow> redis \<times> string option" where
  "xgroup_create s k g =
     (if has_group g s k then (s, Some ''BUSYGROUP Consumer Group name already exists'')
      else
        (set_group g k (0, [])
           (if k \<in> stream_keys s then s else s\<lparr>rd_streams := put k [] (rd_streams s)\<rparr>), None))"

definition read_next :: "string \<Rightarrow> nat \<Rightarrow> redis \<Rightarrow> string \<Rightarrow> message list" where
  "read_next g n s k = take n (drop (fst (group_of s g k)) (stream_of s k))"

definition give :: "string \<Rightarrow> string \<Rightarrow> message list \<Rightarrow> redis \<Rightarrow> redis" where
  "give g k ms s =
     (let (pos, ids) = group_of s g k in set_group g k (pos + length ms, ids @ map msg_id ms) s)"

fun read_each :: "string \<Rightarrow> nat \<Rightarrow> redis \<Rightarrow> string list \<Rightarrow> redis \<times> (string \<times> message list) list" where
  "read_each g n s [] = (s, [])"
| "read_each g n s (k # ks) =
     (let ms = read_next g n s k
      in if ms = [] then read_each g n s ks
         else let (s', r) = read_each g n (give g k ms s) ks in (s', (k, ms) # r))"

definition xreadgroup :: "redis \<Rightarrow> string \<Rightarrow> string list \<Rightarrow> nat \<Rightarrow> redis \<times> read_answer" where
  "xreadgroup s g ks n =
     (if \<exists>k \<in> set ks. \<not> has_group g s k then (s, ReadError ''NOGROUP No such key or consumer group'')
      else case read_each g n s ks of
             (s', []) \<Rightarrow> (s, NoMessages)
           | (s', r # rs) \<Rightarrow> (s', Messages (r # rs)))"

definition xack :: "redis \<Rightarrow> string \<Rightarrow> string \<Rightarrow> string \<Rightarrow> redis \<times> string option" where
  "xack s k g i =
     (if has_group g s k
      then (let (pos, ids) = group_of s g k in set_group g k (pos, filter (\<lambda>j. j \<noteq> i) ids) s, None)
      else (s, None))"

definition xautoclaim :: "redis \<Rightarrow> string \<Rightarrow> string \<Rightarrow> redis \<times> (string, message list) result" where
  "xautoclaim s k g =
     (s, if has_group g s k
         then Inr (filter (\<lambda>m. msg_id m \<in> set (snd (group_of s g k))) (stream_of s k))
         else Inl ''NOGROUP No such key or consumer group'')"

definition redis_server :: "redis stream_server" where
  "redis_server =
     \<lparr>rs_scan = (\<lambda>s p. filter (glob p) (map fst (rd_streams s))),
      rs_group = xgroup_create, rs_read = xreadgroup, rs_ack = xack, rs_claim = xautoclaim,
      rs_destroy = (\<lambda>s k g. (s\<lparr>rd_groups := AList.delete (k, g) (rd_groups s)\<rparr>, None)),
      rs_add = (\<lambda>s k m. s\<lparr>rd_streams := redis_xadd (rd_streams s) (k, m)\<rparr>)\<rparr>"

definition groups_ok :: "string \<Rightarrow> redis \<Rightarrow> bool" where
  "groups_ok g s \<longleftrightarrow> distinct (map fst (rd_streams s)) \<and>
     (\<forall>k. fst (group_of s g k) \<le> length (stream_of s k))"

abbreviation positions :: "string \<Rightarrow> redis \<Rightarrow> string \<Rightarrow> nat" where
  "positions g s k \<equiv> fst (group_of s g k)"

abbreviation pending_ids :: "string \<Rightarrow> redis \<Rightarrow> string \<Rightarrow> string list" where
  "pending_ids g s k \<equiv> snd (group_of s g k)"

subsection \<open>The promises\<close>

lemma got_simps [simp]: "got [] k = []" "got ((k', ms) # r) k = (if k' = k then ms else []) @ got r k"
  by (simp_all add: got_def)

lemma set_group_simps [simp]:
  "rd_streams (set_group g k x s) = rd_streams s"
  "stream_of (set_group g k x s) k' = stream_of s k'"
  "stream_keys (set_group g k x s) = stream_keys s"
  "group_of (set_group g k x s) g k' = (if k' = k then x else group_of s g k')"
  "has_group g (set_group g k x s) k' \<longleftrightarrow> k' = k \<or> has_group g s k'"
  by (auto simp: set_group_def stream_of_def stream_keys_def group_of_def has_group_def map_simps)

lemma groups_ok_set:
  "groups_ok g (set_group g k x s) \<longleftrightarrow> distinct (map fst (rd_streams s)) \<and> fst x \<le> length (stream_of s k) \<and>
     (\<forall>k'. k' \<noteq> k \<longrightarrow> fst (group_of s g k') \<le> length (stream_of s k'))"
  by (auto simp: groups_ok_def)

lemma give_eq:
  "give g k ms s = set_group g k (positions g s k + length ms, pending_ids g s k @ map msg_id ms) s"
  by (simp add: give_def split_beta)

lemma give_simps:
  fixes k :: string and n :: nat
  assumes "groups_ok g s"
  defines "s' \<equiv> give g k (read_next g n s k) s"
  shows "groups_ok g s'" "stream_of s' = stream_of s" "stream_keys s' = stream_keys s"
    "positions g s' k' = positions g s k' + (if k' = k then length (read_next g n s k) else 0)"
    "pending_ids g s' k' = pending_ids g s k' @ (if k' = k then map msg_id (read_next g n s k) else [])"
    "has_group g s k \<Longrightarrow> has_group g s' = has_group g s"
proof -
  have "positions g s k + length (read_next g n s k) \<le> length (stream_of s k)"
  proof -
    have "positions g s k \<le> length (stream_of s k)"
      using assms(1) by (simp add: groups_ok_def)
    then show ?thesis by (simp add: read_next_def)
  qed
  then show "groups_ok g s'"
    using assms(1) by (simp add: s'_def give_eq groups_ok_set) (simp add: groups_ok_def)
qed (auto simp: s'_def give_eq fun_eq_iff)

lemma read_each_effect:
  assumes "groups_ok g s" "\<forall>k \<in> set ks. has_group g s k" "read_each g n s ks = (s', r)"
  shows "groups_ok g s' \<and> stream_of s' = stream_of s \<and> stream_keys s' = stream_keys s \<and>
    has_group g s' = has_group g s \<and>
    positions g s' k = positions g s k + length (got r k) \<and>
    take (length (got r k)) (drop (positions g s k) (stream_of s k)) = got r k \<and>
    pending_ids g s' k = pending_ids g s k @ map msg_id (got r k)"
  using assms
proof (induction ks arbitrary: s s' r)
  case (Cons k' ks)
  let ?ms = "read_next g n s k'"
  show ?case
  proof (cases "?ms = []")
    case True
    then show ?thesis using Cons.IH [of s s' r] Cons.prems by simp
  next
    case False
    let ?s = "give g k' ?ms s"
    note gs = give_simps [where k = k' and n = n, OF Cons.prems(1)]
    obtain s1 r1 where e: "read_each g n ?s ks = (s1, r1)" by fastforce
    then have r1: "read_each g n ?s ks = (s', r1)" "r = (k', ?ms) # r1"
      using Cons.prems(3) False by (simp_all add: Let_def)
    have ih: "groups_ok g s'" "stream_of s' = stream_of s" "stream_keys s' = stream_keys s"
      "has_group g s' = has_group g s"
      "positions g s' k = positions g ?s k + length (got r1 k)"
      "take (length (got r1 k)) (drop (positions g ?s k) (stream_of s k)) = got r1 k"
      "pending_ids g s' k = pending_ids g ?s k @ map msg_id (got r1 k)"
      using Cons.IH [OF gs(1) _ r1(1)] Cons.prems(2) gs(2,3,6) by auto
    have got: "got r k = (if k' = k then ?ms else []) @ got r1 k"
      by (simp add: r1(2))
    have "take (length (got r k)) (drop (positions g s k) (stream_of s k)) = got r k"
    proof (cases "k' = k")
      case True
      have len: "take (length ?ms) (drop (positions g s k) (stream_of s k)) = ?ms"
        by (simp add: True read_next_def min_def)
      have "take (length (got r1 k)) (drop (length ?ms) (drop (positions g s k) (stream_of s k))) = got r1 k"
        using ih(6) gs(4) [of k] True by (simp add: add.commute)
      then show ?thesis
        using len got True by (simp add: take_add)
    next
      case False
      then show ?thesis using ih(6) gs(4) [of k] got by simp
    qed
    then show ?thesis
      using ih gs(4,5) [of k] got by auto
  qed
qed (simp add: got_def)

lemma read_each_progress:
  assumes "groups_ok g s" "\<forall>k \<in> set ks. has_group g s k" "k \<in> set ks" "0 < n"
    and "positions g s k < length (stream_of s k)"
  shows "got (snd (read_each g n s ks)) k \<noteq> []"
  using assms
proof (induction ks arbitrary: s)
  case (Cons k' ks)
  let ?ms = "read_next g n s k'"
  have here: "k' = k \<Longrightarrow> ?ms \<noteq> []"
    using Cons.prems(4,5) by (auto simp: read_next_def)
  show ?case
  proof (cases "?ms = []")
    case True
    then show ?thesis using Cons here by auto
  next
    case False
    note gs = give_simps [where k = k' and n = n, OF Cons.prems(1)]
    show ?thesis
    proof (cases "k' = k")
      case True
      then show ?thesis using False by (simp add: Let_def split_beta)
    next
      case neq: False
      then have "got (snd (read_each g n (give g k' ?ms s) ks)) k \<noteq> []"
        using Cons.IH [OF gs(1)] Cons.prems gs(2,4,6) by auto
      then show ?thesis using False neq by (simp add: Let_def split_beta)
    qed
  qed
qed simp

lemma xgroup_create_effect:
  assumes "groups_ok g s"
  shows "groups_ok g (fst (xgroup_create s k g)) \<and> stream_keys s \<subseteq> stream_keys (fst (xgroup_create s k g)) \<and>
    stream_of (fst (xgroup_create s k g)) = stream_of s \<and> group_of (fst (xgroup_create s k g)) g = group_of s g \<and>
    has_group g (fst (xgroup_create s k g)) k \<and>
    (\<forall>k'. has_group g s k' \<longrightarrow> has_group g (fst (xgroup_create s k g)) k')"
proof (cases "has_group g s k")
  case True
  then show ?thesis using assms by (simp add: xgroup_create_def)
next
  case False
  let ?s = "if k \<in> stream_keys s then s else s\<lparr>rd_streams := put k [] (rd_streams s)\<rparr>"
  have g0: "group_of s g k = (0, [])"
    using False by (auto simp: has_group_def group_of_def split: option.splits)
  have s1: "stream_of ?s = stream_of s" "group_of ?s = group_of s" "has_group g ?s = has_group g s"
    "stream_keys s \<subseteq> stream_keys ?s" "distinct (map fst (rd_streams ?s))"
    using assms map_of_eq_None [of "rd_streams s" k]
    by (auto simp: stream_of_def group_of_def has_group_def stream_keys_def fun_eq_iff map_simps
        groups_ok_def keys_put distinct_put)
  have new: "fst (xgroup_create s k g) = set_group g k (0, []) ?s"
    using False by (simp add: xgroup_create_def)
  have "group_of t = group_of s \<Longrightarrow> group_of (set_group g k (0, []) t) g = group_of s g" for t
    using g0 by (simp add: fun_eq_iff)
  then have grp: "group_of (set_group g k (0, []) ?s) g = group_of s g"
    using s1(2) by blast
  have "groups_ok g (set_group g k (0, []) ?s)"
    unfolding groups_ok_set using s1 assms by (simp add: groups_ok_def)
  then show ?thesis
    unfolding new using s1 grp by (auto simp: fun_eq_iff)
qed

lemma xreadgroup_effect:
  assumes "groups_ok g s" "xreadgroup s g ks n = (s', Messages ms)"
  shows "groups_ok g s' \<and> stream_keys s' = stream_keys s \<and> stream_of s' = stream_of s \<and>
    has_group g s' = has_group g s \<and>
    (\<forall>k. positions g s' k = positions g s k + length (got ms k) \<and>
      take (length (got ms k)) (drop (positions g s k) (stream_of s k)) = got ms k \<and>
      pending_ids g s' k = pending_ids g s k @ map msg_id (got ms k))"
proof -
  obtain s1 r where e: "read_each g n s ks = (s1, r)" by fastforce
  have "\<forall>k \<in> set ks. has_group g s k" "s' = s1" "ms = r"
    using assms(2) e by (auto simp: xreadgroup_def split: list.splits if_splits)
  then show ?thesis
    using read_each_effect [OF assms(1) _ e] by blast
qed

lemma xreadgroup_idle:
  "xreadgroup s g ks n = (s', a) \<Longrightarrow> \<forall>ms. a \<noteq> Messages ms \<Longrightarrow> s' = s"
  by (auto simp: xreadgroup_def split: if_splits prod.splits list.splits)

lemma xreadgroup_progress:
  assumes "groups_ok g s" "\<forall>k \<in> set ks. has_group g s k" "0 < n" "k \<in> set ks"
    and "positions g s k < length (stream_of s k)"
  shows "\<exists>s' ms. xreadgroup s g ks n = (s', Messages ms) \<and> got ms k \<noteq> []"
proof -
  obtain s1 r where e: "read_each g n s ks = (s1, r)" by fastforce
  have "got r k \<noteq> []"
    using read_each_progress [OF assms(1,2,4,3,5)] e by simp
  moreover from this have "xreadgroup s g ks n = (s1, Messages r)"
    using assms(2) e by (cases r) (auto simp: xreadgroup_def)
  ultimately show ?thesis by blast
qed

lemma xack_effect:
  assumes "groups_ok g s"
  shows "groups_ok g (fst (xack s k g i)) \<and> stream_keys (fst (xack s k g i)) = stream_keys s \<and>
    stream_of (fst (xack s k g i)) = stream_of s \<and> has_group g (fst (xack s k g i)) = has_group g s \<and>
    positions g (fst (xack s k g i)) = positions g s \<and>
    pending_ids g (fst (xack s k g i)) k' =
      (if k' = k then filter (\<lambda>j. j \<noteq> i) (pending_ids g s k) else pending_ids g s k')"
proof (cases "has_group g s k")
  case True
  then show ?thesis
    using assms by (auto simp: xack_def split_beta fun_eq_iff groups_ok_set groups_ok_def)
next
  case False
  then have "group_of s g k = (0, [])" by (auto simp: has_group_def group_of_def split: option.splits)
  then show ?thesis using False assms by (simp add: xack_def)
qed

lemma xadd_effect:
  "stream_of (s\<lparr>rd_streams := redis_xadd (rd_streams s) (k, m)\<rparr>) = (stream_of s)(k := stream_of s k @ [m])"
  "group_of (s\<lparr>rd_streams := redis_xadd (rd_streams s) (k, m)\<rparr>) = group_of s"
  "has_group g (s\<lparr>rd_streams := redis_xadd (rd_streams s) (k, m)\<rparr>) = has_group g s"
  "stream_keys (s\<lparr>rd_streams := redis_xadd (rd_streams s) (k, m)\<rparr>) = insert k (stream_keys s)"
  by (auto simp: stream_of_def group_of_def has_group_def stream_keys_def redis_xadd_def fun_eq_iff
      map_simps keys_put split: option.splits)

interpretation rgroups: group_server redis_server g "groups_ok g" stream_keys stream_of "positions g"
    "pending_ids g" "has_group g" for g
proof unfold_locales
  fix s :: redis
  assume ok: "groups_ok g s"
  show "positions g s k \<le> length (stream_of s k)" for k
    using ok by (simp add: groups_ok_def)
  show "stream_of s k \<noteq> [] \<Longrightarrow> k \<in> stream_keys s" for k
    by (auto simp: stream_of_def stream_keys_def dest!: map_of_SomeD split: option.splits)
      (metis fst_conv image_eqI)
  show "distinct (rs_scan redis_server s p) \<and> set (rs_scan redis_server s p) = {k \<in> stream_keys s. glob p k}" for p
    using ok by (auto simp: redis_server_def groups_ok_def stream_keys_def)
  show "groups_ok g s' \<and> stream_keys s \<subseteq> stream_keys s' \<and> stream_of s' = stream_of s \<and>
      positions g s' = positions g s \<and> pending_ids g s' = pending_ids g s \<and> has_group g s' k \<and>
      (\<forall>k'. has_group g s k' \<longrightarrow> has_group g s' k')"
    if "s' = fst (rs_group redis_server s k g)" for s' k
    using xgroup_create_effect [OF ok, of k] that by (simp add: redis_server_def)
  show "groups_ok g s' \<and> stream_keys s' = stream_keys s \<and> stream_of s' = stream_of s \<and>
      has_group g s' = has_group g s \<and>
      (\<forall>k. positions g s' k = positions g s k + length (got ms k) \<and>
        take (length (got ms k)) (drop (positions g s k) (stream_of s k)) = got ms k \<and>
        pending_ids g s' k = pending_ids g s k @ map msg_id (got ms k))"
    if "rs_read redis_server s g ks n = (s', Messages ms)" for s' ks n ms
    using xreadgroup_effect [OF ok] that by (simp add: redis_server_def)
  show "s' = s" if "rs_read redis_server s g ks n = (s', a)" "\<forall>ms. a \<noteq> Messages ms" for s' ks n a
    using xreadgroup_idle that by (simp add: redis_server_def)
  show "\<exists>s' ms. rs_read redis_server s g ks n = (s', Messages ms) \<and> got ms k \<noteq> []"
    if "\<forall>k \<in> set ks. has_group g s k" "0 < n" "k \<in> set ks" "positions g s k < length (stream_of s k)" for ks n k
    using xreadgroup_progress [OF ok that] by (simp add: redis_server_def)
  show "groups_ok g s' \<and> stream_keys s' = stream_keys s \<and> stream_of s' = stream_of s \<and>
      positions g s' = positions g s \<and> has_group g s' = has_group g s \<and>
      (\<forall>k'. set (pending_ids g s' k') \<subseteq> set (pending_ids g s k')) \<and>
      (\<forall>k' j. (k', j) \<noteq> (k, i) \<and> j \<in> set (pending_ids g s k') \<longrightarrow> j \<in> set (pending_ids g s' k'))"
    if "s' = fst (rs_ack redis_server s k g i)" for s' k i
    using xack_effect [OF ok, of k i] that by (auto simp: redis_server_def)
  show "groups_ok g s' \<and> stream_keys s' = stream_keys s \<and> stream_of s' = stream_of s \<and>
      positions g s' = positions g s \<and> pending_ids g s' = pending_ids g s \<and> has_group g s' = has_group g s"
    if "s' = fst (rs_claim redis_server s k g)" for s' k
    using that ok by (simp add: redis_server_def xautoclaim_def)
  show "groups_ok g s' \<and> stream_keys s \<subseteq> stream_keys s' \<and> stream_of s' = (stream_of s)(k := stream_of s k @ [m]) \<and>
      positions g s' = positions g s \<and> pending_ids g s' = pending_ids g s \<and> has_group g s' = has_group g s"
    if "s' = rs_add redis_server s k m" for s' k m
  proof -
    have "distinct (map fst (redis_xadd (rd_streams s) (k, m)))"
      using ok by (simp add: redis_xadd_def groups_ok_def distinct_put)
    then show ?thesis
      using ok that by (auto simp: redis_server_def xadd_effect groups_ok_def le_SucI)
  qed
qed

subsection \<open>What subscriptions guarantee\<close>

lemma run_append:
  "run_subscription srv c st (xs @ ys) =
     (let (st1, o1) = run_subscription srv c st xs; (st2, o2) = run_subscription srv c st1 ys in (st2, o1 @ o2))"
  by (induction xs arbitrary: st) (auto simp: Let_def split_beta)

lemma stream_key_discovered: "glob ''tenant:*:workflow:*:events'' (get_stream_key e)"
proof -
  define t where "t = (if ev_tenant e = [] then ''default'' else ev_tenant e)"
  define w where "w = (if ev_workflow e \<noteq> [] then ev_workflow e else ''default'')"
  have "glob '':events'' '':events''" by simp
  then have "glob ''*:events'' (w @ '':events'')" by (rule glob_star)
  then have "glob '':workflow:*:events'' ('':workflow:'' @ w @ '':events'')" by simp
  then have "glob ''*:workflow:*:events'' (t @ '':workflow:'' @ w @ '':events'')" by (rule glob_star)
  then have "glob ''tenant:*:workflow:*:events'' (''tenant:'' @ t @ '':workflow:'' @ w @ '':events'')" by simp
  then show ?thesis by (simp add: get_stream_key_def t_def w_def Let_def)
qed


definition demo_sub_event :: cloud_event where
  "demo_sub_event = empty_event\<lparr>ev_type := ''io.flunq.task.completed'', ev_tenant := ''t'', ev_workflow := ''w''\<rparr>"

definition demo_message :: "string \<Rightarrow> string \<Rightarrow> message" where
  "demo_message i ty = \<lparr>msg_id = i, msg_fields = [(''type'', ty), (''workflowid'', ''w'')], msg_data = None\<rparr>"

definition demo_redis :: redis where
  "demo_redis = \<lparr>rd_streams = [(''tenant:t:workflow:w:events'',
     [demo_message ''1'' ''io.flunq.task.completed'', demo_message ''2'' ''io.flunq.task.requested''])],
     rd_groups = []\<rparr>"

definition demo_subscription :: subscription where
  "demo_subscription = \<lparr>sub_filters = \<lparr>flt_types = [''io.flunq.task.completed''], flt_workflows = [], flt_sources = []\<rparr>,
     sub_group = ''worker-service'', sub_consumer = ''worker-1'', sub_batch = 10\<rparr>"

lemma demo_stream_key: "get_stream_key demo_sub_event = ''tenant:t:workflow:w:events''"
  by (simp add: get_stream_key_def demo_sub_event_def empty_event_def)

lemma demo_redis_ok: "groups_ok ''worker-service'' demo_redis"
  by (simp add: groups_ok_def demo_redis_def group_of_def)

lemma demo_run:
  "stream_of (fst (fst (run_subscription redis_server demo_subscription
     (setup_streams_and_groups redis_server ''worker-service'' demo_redis)
     ([] @ Tick # replicate 2 Poll)))) ''tenant:t:workflow:w:events'' =
     [demo_message ''1'' ''io.flunq.task.completed'', demo_message ''2'' ''io.flunq.task.requested'']"
  by code_simp

lemma demo_wanted: "wanted demo_subscription (demo_message i ty) \<longleftrightarrow> ty = ''io.flunq.task.completed''"
  by (auto simp: wanted_def demo_subscription_def demo_message_def should_process_event_def
      parse_message_def parse_attributes_def field_or_def)


text \<open>C34: A message that was handed over and never acknowledged is never handed over again: as long
  as nobody acknowledges it, it stays pending whatever is polled, rediscovered, reclaimed or
  published, and no later event of the subscription is made of it. So an event whose handler
  crashed is lost to the service, with reclaiming or without.\<close>
theorem unacknowledged_never_redelivered:
  assumes "groups_ok g (fst st)" "sub_group c = g" "i \<in> set (pending_ids g (fst st) k)"
    and "\<forall>m \<in> set (drop (positions g (fst st) k) (stream_of (fst st) k)). msg_id m \<noteq> i"
    and "run_subscription redis_server c st xs = (st', outs)"
    and "\<forall>x \<in> set xs. (\<forall>key. x = Acked key \<longrightarrow> ack_target key \<noteq> (k, i)) \<and>
      (\<forall>m. x = Published k m \<longrightarrow> msg_id m \<noteq> i)"
  shows "i \<in> set (pending_ids g (fst st') k) \<and>
    (\<forall>e \<in> set (from_stream k outs). ext_str e ''redis_msg_id'' \<noteq> Some i)"
  using rgroups.run_pending [OF assms(1-3) _ assms(5,6)] assms(4) by (simp add: rgroups.fresh_def)

definition demo_crashed :: redis where
  "demo_crashed = demo_redis\<lparr>rd_groups := [((''tenant:t:workflow:w:events'', ''worker-service''), (1, [''1'']))]\<rparr>"

theorem unacknowledged_never_redelivered_witness:
  "\<exists>st' outs. run_subscription redis_server demo_subscription (demo_crashed, [''tenant:t:workflow:w:events''])
     [Reclaimed, Tick, Poll, Poll] = (st', outs) \<and>
   ''1'' \<in> set (pending_ids ''worker-service'' (fst st') ''tenant:t:workflow:w:events'') \<and>
   (\<forall>e \<in> set (from_stream ''tenant:t:workflow:w:events'' outs). ext_str e ''redis_msg_id'' \<noteq> Some ''1'')"
proof -
  obtain st' outs where r: "run_subscription redis_server demo_subscription (demo_crashed, [''tenant:t:workflow:w:events''])
     [Reclaimed, Tick, Poll, Poll] = (st', outs)"
    by fastforce
  have "''1'' \<in> set (pending_ids ''worker-service'' (fst st') ''tenant:t:workflow:w:events'') \<and>
    (\<forall>e \<in> set (from_stream ''tenant:t:workflow:w:events'' outs). ext_str e ''redis_msg_id'' \<noteq> Some ''1'')"
    by (rule unacknowledged_never_redelivered [OF _ _ _ _ r])
      (auto simp: demo_crashed_def demo_redis_def demo_subscription_def demo_message_def groups_ok_def
        group_of_def stream_of_def)
  then show ?thesis using r by blast
qed

text \<open>The reclaimer asks for another stream than the ones events are published to.\<close>

lemma reclaim_misses_event_streams: "get_stream_key e \<noteq> reclaim_stream"
  by (simp add: get_stream_key_def reclaim_stream_def Let_def)

text \<open>An acknowledgement under the key an event carries takes its message off the pending ones,
  if the name of the stream has no bar.\<close>

lemma acknowledged_not_pending:
  assumes "groups_ok g s" "CHR ''|'' \<notin> set k"
  shows "i \<notin> set (pending_ids g (fst (acknowledge redis_server g (ack_key k i) s)) k)"
  using xack_effect [OF assms(1), of k i k] ack_target_key [OF assms(2), of i]
  by (simp add: acknowledge_def redis_server_def)

end
