(* ===== verification/Services.thy ===== *)
theory Services
  imports Event_Processing Timer_Service Task_Processor Stream_Groups
begin

text \<open>
  How the three consuming services start (\<^verbatim>\<open>Start\<close> of \<^verbatim>\<open>workflow_processor.go\<close>,
  \<^verbatim>\<open>timer_processor.go\<close> and \<^verbatim>\<open>task_processor.go\<close>): the subscription each makes from its
  environment variables, how many events it handles at once, and the reclaimer it may start.
  The environment is a function from names to values; an unset variable is empty.
\<close>

record service_start =
  st_subscription :: subscription
  st_block :: int
  st_reclaims :: bool

definition worker_start :: "(string \<Rightarrow> string) \<Rightarrow> string \<Rightarrow> service_start" where
  "worker_start env uuid =
     \<lparr>st_subscription =
        \<lparr>sub_filters = worker_filters,
         sub_group = get_env_default env ''WORKER_CONSUMER_GROUP'' ''worker-service'',
         sub_consumer = ''worker-'' @ take 8 uuid,
         sub_batch = get_env_int_default env ''WORKER_STREAM_BATCH'' 10\<rparr>,
      st_block = get_env_duration_default env ''WORKER_STREAM_BLOCK'' second,
      st_reclaims = get_env_bool_default env ''WORKER_RECLAIM_ENABLED'' False\<rparr>"

definition timer_start :: "(string \<Rightarrow> string) \<Rightarrow> string \<Rightarrow> service_start" where
  "timer_start env uuid =
     \<lparr>st_subscription =
        \<lparr>sub_filters = timer_filters,
         sub_group = get_env_default env ''TIMER_CONSUMER_GROUP'' ''timer-service'',
         sub_consumer = ''timer-'' @ take 8 uuid,
         sub_batch = get_env_int_default env ''TIMER_STREAM_BATCH'' 10\<rparr>,
      st_block = get_env_duration_default env ''TIMER_STREAM_BLOCK'' second,
      st_reclaims = get_env_bool_default env ''TIMER_RECLAIM_ENABLED'' False\<rparr>"

definition executor_start :: "(string \<Rightarrow> string) \<Rightarrow> service_start" where
  "executor_start env =
     \<lparr>st_subscription =
        \<lparr>sub_filters = task_filters,
         sub_group = get_env_default env ''EXECUTOR_CONSUMER_GROUP'' ''executor-service'',
         sub_consumer = ''executor-'' @ get_env_default env ''HOSTNAME'' ''unknown'',
         sub_batch = get_env_int_default env ''EXECUTOR_STREAM_BATCH'' 10\<rparr>,
      st_block = get_env_duration_default env ''EXECUTOR_STREAM_BLOCK'' second,
      st_reclaims = get_env_bool_default env ''EXECUTOR_RECLAIM_ENABLED'' False\<rparr>"

definition timer_max_concurrency :: "(string \<Rightarrow> string) \<Rightarrow> int" where
  "timer_max_concurrency env =
     (case (if env ''TIMER_CONCURRENCY'' \<noteq> [] then atoi (env ''TIMER_CONCURRENCY'') else None) of
        Some n \<Rightarrow> if 0 < n then n else 2 | None \<Rightarrow> 2)"

definition executor_max_concurrency :: "(string \<Rightarrow> string) \<Rightarrow> int" where
  "executor_max_concurrency env =
     (case (if env ''EXECUTOR_CONCURRENCY'' \<noteq> [] then atoi (env ''EXECUTOR_CONCURRENCY'') else None) of
        Some n \<Rightarrow> if 0 < n then n else 4 | None \<Rightarrow> 4)"

text \<open>The loops: only the worker locks the workflow, and the executor makes one attempt.\<close>

definition worker_loop :: "(string \<Rightarrow> string) \<Rightarrow> loop_config" where
  "worker_loop env = \<lparr>lc_max = nat (max_concurrency env), lc_locked = True, lc_tries = 3\<rparr>"

definition timer_loop :: "(string \<Rightarrow> string) \<Rightarrow> loop_config" where
  "timer_loop env = \<lparr>lc_max = nat (timer_max_concurrency env), lc_locked = False, lc_tries = 3\<rparr>"

definition executor_loop :: "(string \<Rightarrow> string) \<Rightarrow> loop_config" where
  "executor_loop env = \<lparr>lc_max = nat (executor_max_concurrency env), lc_locked = False, lc_tries = 1\<rparr>"

text \<open>One tick of the reclaimer, thirty seconds after the last: messages idle for a minute. The
  same code in the three services.\<close>

definition reclaim_tick :: "'s stream_server \<Rightarrow> service_start \<Rightarrow> 's \<Rightarrow> 's" where
  "reclaim_tick srv st s =
     (if st_reclaims st then fst (reclaim srv (sub_group (st_subscription st)) s) else s)"

text \<open>How long the reading blocks: the setting if it is positive, else a second.\<close>

definition block_timeout :: "service_start \<Rightarrow> int" where
  "block_timeout st = (if 0 < st_block st then st_block st else second)"

subsection \<open>What holds of every environment\<close>

lemma concurrency_positive:
  "0 < max_concurrency env" "0 < timer_max_concurrency env" "0 < executor_max_concurrency env"
  by (auto simp: max_concurrency_def timer_max_concurrency_def executor_max_concurrency_def
      split: option.splits)

text \<open>So no loop can block itself (\<open>every_event_finished_once\<close> asks for it).\<close>

lemma loops_admit_one: "0 < lc_max (worker_loop env)" "0 < lc_max (timer_loop env)" "0 < lc_max (executor_loop env)"
  using concurrency_positive by (simp_all add: worker_loop_def timer_loop_def executor_loop_def)

lemma reads_something: "0 < batch_size c" "0 < block_timeout st"
  by (auto simp: batch_size_def block_timeout_def second_def)

lemma default_groups_differ:
  assumes "env = (\<lambda>_. [])"
  shows "distinct (map (\<lambda>st. sub_group (st_subscription st)) [worker_start env u, timer_start env v, executor_start env])"
  by (simp add: assms worker_start_def timer_start_def executor_start_def get_env_default_def)

text \<open>No event is handled by two services.\<close>

lemma services_share_no_events:
  "\<not> (should_process_event worker_filters e \<and> should_process_event timer_filters e)"
  "\<not> (should_process_event worker_filters e \<and> should_process_event task_filters e)"
  "\<not> (should_process_event timer_filters e \<and> should_process_event task_filters e)"
  by (auto simp: should_process_event_def worker_filters_def timer_filters_def task_filters_def)

text \<open>Whatever the reclaimer does, what a group has read and what it has pending stays as it is.\<close>

lemma reclaim_tick_changes_nothing:
  "groups_ok g s \<Longrightarrow> g = sub_group (st_subscription st) \<Longrightarrow>
   group_of (reclaim_tick redis_server st s) g = group_of s g"
  by (auto simp: reclaim_tick_def reclaim_def redis_server_def xautoclaim_def split: prod.splits)

end
