(* ===== verification/Entry_Points.thy ===== *)
theory Entry_Points
  imports Services
begin

text \<open>
  The entry points of the four services (\<^verbatim>\<open>cmd/server/main.go\<close>), as far as they decide
  something: the settings they read from the environment, the back ends they choose
  (\<^verbatim>\<open>shared/pkg/factory\<close>), the routes of the API, and the levels of logging. What wires the
  parts together is plain construction.
\<close>

subsection \<open>Settings\<close>

text \<open>\<open>strconv.ParseBool\<close>\<close>

definition parse_bool :: "string \<Rightarrow> bool option" where
  "parse_bool s =
     (if s \<in> set [''1'', ''t'', ''T'', ''true'', ''TRUE'', ''True''] then Some True
      else if s \<in> set [''0'', ''f'', ''F'', ''false'', ''FALSE'', ''False''] then Some False
      else None)"

definition get_env_bool :: "(string \<Rightarrow> string) \<Rightarrow> string \<Rightarrow> bool \<Rightarrow> bool" where
  "get_env_bool env k d =
     (if env k \<noteq> [] then (case parse_bool (env k) of Some b \<Rightarrow> b | None \<Rightarrow> d) else d)"

record worker_settings =
  wg_redis_url :: string
  wg_redis_host :: string
  wg_redis_password :: string
  wg_log_level :: string
  wg_metrics_port :: string
  wg_health_port :: string
  wg_concurrency :: int
  wg_group :: string
  wg_batch :: int
  wg_block :: string
  wg_reclaim :: bool
  wg_event_store :: string
  wg_db :: string
  wg_timer_enabled :: bool
  wg_timer_precision :: string
  wg_engine :: string
  wg_workflow_timeout :: int
  wg_workflow_retries :: int
  wg_event_batch :: int
  wg_event_timeout :: string
  wg_event_retries :: int
  wg_event_delay :: int

definition load_worker_config :: "(string \<Rightarrow> string) \<Rightarrow> worker_settings" where
  "load_worker_config env =
     \<lparr>wg_redis_url = get_env_default env ''REDIS_URL'' ''localhost:6379'',
      wg_redis_host = get_env_default env ''REDIS_HOST'' ''localhost'',
      wg_redis_password = get_env_default env ''REDIS_PASSWORD'' [],
      wg_log_level = get_env_default env ''LOG_LEVEL'' ''info'',
      wg_metrics_port = get_env_default env ''METRICS_PORT'' ''9090'',
      wg_health_port = get_env_default env ''HEALTH_PORT'' ''8082'',
      wg_concurrency = get_env_int_default env ''WORKER_CONCURRENCY'' 4,
      wg_group = get_env_default env ''WORKER_CONSUMER_GROUP'' ''worker-service'',
      wg_batch = get_env_int_default env ''WORKER_STREAM_BATCH'' 10,
      wg_block = get_env_default env ''WORKER_STREAM_BLOCK'' ''1s'',
      wg_reclaim = get_env_bool env ''WORKER_RECLAIM_ENABLED'' False,
      wg_event_store = get_env_default env ''EVENTSTORE_TYPE'' ''redis'',
      wg_db = get_env_default env ''DB_TYPE'' ''redis'',
      wg_timer_enabled = get_env_bool env ''TIMER_SERVICE_ENABLED'' True,
      wg_timer_precision = get_env_default env ''TIMER_SERVICE_PRECISION'' ''1s'',
      wg_engine = get_env_default env ''WORKFLOW_ENGINE_TYPE'' ''serverless'',
      wg_workflow_timeout = get_env_int_default env ''WORKFLOW_TIMEOUT_SECONDS'' 3600,
      wg_workflow_retries = get_env_int_default env ''WORKFLOW_MAX_RETRIES'' 3,
      wg_event_batch = get_env_int_default env ''EVENT_BATCH_SIZE'' 10,
      wg_event_timeout = get_env_default env ''EVENT_PROCESSING_TIMEOUT'' ''30s'',
      wg_event_retries = get_env_int_default env ''EVENT_RETRY_ATTEMPTS'' 3,
      wg_event_delay = get_env_int_default env ''EVENT_RETRY_DELAY_MS'' 200\<rparr>"

record executor_settings =
  xg_redis_url :: string
  xg_redis_password :: string
  xg_log_level :: string
  xg_metrics_port :: string
  xg_health_port :: string
  xg_event_stream :: string
  xg_max_tasks :: int
  xg_task_timeout :: int
  xg_retries :: int
  xg_retry_delay :: int
  xg_cache_ttl :: int
  xg_request_timeout :: int

definition load_executor_config :: "(string \<Rightarrow> string) \<Rightarrow> executor_settings" where
  "load_executor_config env =
     \<lparr>xg_redis_url = get_env_default env ''REDIS_URL'' ''localhost:6379'',
      xg_redis_password = get_env_default env ''REDIS_PASSWORD'' [],
      xg_log_level = get_env_default env ''LOG_LEVEL'' ''info'',
      xg_metrics_port = get_env_default env ''METRICS_PORT'' ''9091'',
      xg_health_port = get_env_default env ''HEALTH_PORT'' ''8083'',
      xg_event_stream = get_env_default env ''EVENT_STREAM_TYPE'' ''redis'',
      xg_max_tasks = get_env_int_default env ''MAX_CONCURRENT_TASKS'' 10,
      xg_task_timeout = get_env_int_default env ''TASK_TIMEOUT_SECONDS'' 300,
      xg_retries = get_env_int_default env ''RETRY_MAX_ATTEMPTS'' 3,
      xg_retry_delay = get_env_int_default env ''RETRY_BASE_DELAY_MS'' 200,
      xg_cache_ttl = get_env_int_default env ''OPENAPI_CACHE_TTL_SECONDS'' 300,
      xg_request_timeout = get_env_int_default env ''OPENAPI_REQUEST_TIMEOUT_SECONDS'' 30\<rparr>"

datatype log_level = LDebug | LInfo | LWarn | LError

definition parse_log_level :: "string \<Rightarrow> log_level" where
  "parse_log_level s =
     (if s = ''debug'' then LDebug else if s = ''info'' then LInfo else if s = ''warn'' then LWarn
      else if s = ''error'' then LError else LInfo)"

definition must_dur :: "(string \<Rightarrow> string) \<Rightarrow> string \<Rightarrow> string \<Rightarrow> int" where
  "must_dur env k d =
     (case parse_duration (get_env_default env k d) of Some n \<Rightarrow> n | None \<Rightarrow> second)"

definition timer_settings :: "(string \<Rightarrow> string) \<Rightarrow> timer_config" where
  "timer_settings env =
     \<lparr>tc_max_sleep = must_dur env ''TIMER_MAX_SLEEP'' ''1s'', tc_batch = 100,
      tc_lookahead = must_dur env ''TIMER_LOOKAHEAD'' ''100ms''\<rparr>"

subsection \<open>Back ends\<close>

datatype backend = RedisBackend | PostgresBackend

definition new_database :: "string \<Rightarrow> bool \<Rightarrow> (string, backend) result" where
  "new_database name has_client =
     (if name \<in> set [[], ''redis''] then
        (if has_client then Inr RedisBackend else Inl ''redis backend selected but RedisClient is nil'')
      else if name \<in> set [''postgres'', ''postgresql''] then Inr PostgresBackend
      else if name \<in> set [''mongo'', ''mongodb''] then
        Inl ''mongodb backend not implemented yet; contribute an implementation in shared/pkg/storage/mongodb''
      else if name \<in> set [''dynamo'', ''dynamodb''] then
        Inl ''dynamodb backend not implemented yet; contribute an implementation in shared/pkg/storage/dynamodb''
      else Inl (''unsupported DB_TYPE backend: '' @ name))"

definition new_event_stream :: "string \<Rightarrow> bool \<Rightarrow> (string, backend) result" where
  "new_event_stream name has_client =
     (if name \<in> set [[], ''redis''] then
        (if has_client then Inr RedisBackend else Inl ''redis backend selected but RedisClient is nil'')
      else if name \<in> set [''kafka'', ''rabbitmq'', ''nats''] then
        Inl (name @ '' backend not implemented yet; contribute an implementation in shared/pkg/eventstreaming/'' @ name)
      else Inl (''unsupported EVENT_STREAM_TYPE backend: '' @ name))"

subsection \<open>Routes\<close>

datatype route_segment = Fixed string | Param string

datatype endpoint =
    Health | Metrics | WorkflowCreate | WorkflowList | WorkflowGet | WorkflowUpdate | WorkflowDelete
  | WorkflowExecute | WorkflowEvents | WorkflowExecutions | ExecutionList | ExecutionGet
  | ExecutionEvents | ExecutionCancel | OpenAPISpec | SwaggerUI

type_synonym route = "string \<times> route_segment list \<times> endpoint"

definition tenant_routes :: "route list" where
  "tenant_routes =
     map (\<lambda>(m, p, e). (m, [Fixed ''api'', Fixed ''v1'', Param ''tenant_id''] @ p, e))
       [(''POST'', [Fixed ''workflows''], WorkflowCreate),
        (''GET'', [Fixed ''workflows''], WorkflowList),
        (''GET'', [Fixed ''workflows'', Param ''id''], WorkflowGet),
        (''PUT'', [Fixed ''workflows'', Param ''id''], WorkflowUpdate),
        (''DELETE'', [Fixed ''workflows'', Param ''id''], WorkflowDelete),
        (''POST'', [Fixed ''workflows'', Param ''id'', Fixed ''execute''], WorkflowExecute),
        (''GET'', [Fixed ''workflows'', Param ''id'', Fixed ''events''], WorkflowEvents),
        (''GET'', [Fixed ''workflows'', Param ''id'', Fixed ''executions''], WorkflowExecutions),
        (''GET'', [Fixed ''executions''], ExecutionList),
        (''GET'', [Fixed ''executions'', Param ''id''], ExecutionGet),
        (''GET'', [Fixed ''executions'', Param ''id'', Fixed ''events''], ExecutionEvents),
        (''POST'', [Fixed ''executions'', Param ''id'', Fixed ''cancel''], ExecutionCancel)]"

text \<open>A trailing slash is an empty last segment.\<close>

definition setup_router :: "route list" where
  "setup_router =
     [(''GET'', [Fixed ''health''], Health), (''GET'', [Fixed ''metrics''], Metrics)] @ tenant_routes @
     [(''GET'', [Fixed ''api'', Fixed ''v1'', Fixed ''docs'', Fixed ''openapi.yaml''], OpenAPISpec),
      (''GET'', [Fixed ''docs''], SwaggerUI), (''GET'', [Fixed ''docs'', Fixed []], SwaggerUI)]"

text \<open>A parameter stands for one segment that is not empty.\<close>

fun path_matches :: "route_segment list \<Rightarrow> string list \<Rightarrow> bool" where
  "path_matches [] [] \<longleftrightarrow> True"
| "path_matches (Fixed s # p) (x # xs) \<longleftrightarrow> s = x \<and> path_matches p xs"
| "path_matches (Param s # p) (x # xs) \<longleftrightarrow> x \<noteq> [] \<and> path_matches p xs"
| "path_matches _ _ \<longleftrightarrow> False"

definition routed :: "string \<Rightarrow> string list \<Rightarrow> endpoint list" where
  "routed meth path =
     map (\<lambda>(m, p, e). e) (filter (\<lambda>(m, p, e). m = meth \<and> path_matches p path) setup_router)"

subsection \<open>What holds of them\<close>

fun overlap :: "route_segment list \<Rightarrow> route_segment list \<Rightarrow> bool" where
  "overlap [] [] \<longleftrightarrow> True"
| "overlap (Fixed s # p) (Fixed t # q) \<longleftrightarrow> s = t \<and> overlap p q"
| "overlap (_ # p) (_ # q) \<longleftrightarrow> overlap p q"
| "overlap _ _ \<longleftrightarrow> False"

lemma path_matches_nil: "path_matches p [] \<longleftrightarrow> p = []" "path_matches [] path \<longleftrightarrow> path = []"
proof -
  show "path_matches p [] \<longleftrightarrow> p = []"
  proof (cases p)
    case (Cons s q)
    then show ?thesis by (cases s) simp_all
  qed simp
  show "path_matches [] path \<longleftrightarrow> path = []" by (cases path) simp_all
qed

lemma path_matches_cons:
  "path_matches (s # p) (x # xs) \<longleftrightarrow> (case s of Fixed t \<Rightarrow> t = x | Param _ \<Rightarrow> x \<noteq> []) \<and> path_matches p xs"
  by (cases s) simp_all

lemma matches_overlap: "path_matches p path \<Longrightarrow> path_matches q path \<Longrightarrow> overlap p q"
proof (induction path arbitrary: p q)
  case Nil
  then show ?case by (simp add: path_matches_nil)
next
  case (Cons x xs)
  obtain s p' where p: "p = s # p'"
    using Cons.prems(1) by (cases p) simp_all
  obtain t q' where q: "q = t # q'"
    using Cons.prems(2) by (cases q) simp_all
  have "overlap p' q'"
    using Cons.prems by (intro Cons.IH) (simp_all add: p q path_matches_cons)
  moreover have "overlap (s # p') (t # q') \<longleftrightarrow> overlap p' q'"
  proof (cases "\<exists>a b. s = Fixed a \<and> t = Fixed b")
    case True
    then show ?thesis using Cons.prems unfolding p q by auto
  next
    case False
    then show ?thesis by (cases s; cases t) simp_all
  qed
  ultimately show ?case unfolding p q by blast
qed

fun separate :: "route list \<Rightarrow> bool" where
  "separate [] \<longleftrightarrow> True"
| "separate ((m, p, e) # rs) \<longleftrightarrow> list_all (\<lambda>(m', q, e'). m \<noteq> m' \<or> \<not> overlap p q) rs \<and> separate rs"

lemma separate_unique:
  "separate rs \<Longrightarrow> length (filter (\<lambda>(m, p, e). m = meth \<and> path_matches p path) rs) \<le> 1"
proof (induction rs)
  case (Cons r rs)
  obtain m p e where r: "r = (m, p, e)" by (cases r)
  let ?here = "\<lambda>(m, p, e). m = meth \<and> path_matches p path"
  show ?case
  proof (cases "?here r")
    case True
    have "\<not> ?here r'" if "r' \<in> set rs" for r'
    proof -
      obtain m' q e' where r': "r' = (m', q, e')" by (cases r')
      have "m \<noteq> m' \<or> \<not> overlap p q"
        using Cons.prems that by (auto simp: r r' list_all_iff)
      then show ?thesis
        using True matches_overlap [of p path q] by (auto simp: r r')
    qed
    then have "filter ?here rs = []" by (simp add: filter_empty_conv)
    then show ?thesis by (simp add: r)
  next
    case False
    then show ?thesis using Cons by (auto simp: r)
  qed
qed simp

text \<open>A request is answered by at most one endpoint.\<close>

lemma requests_routed_once: "length (routed meth path) \<le> 1"
proof -
  have "separate setup_router" by code_simp
  then show ?thesis using separate_unique by (simp add: routed_def)
qed

text \<open>The tenant of a request is the third segment of its path, whatever it is called.\<close>

lemma tenant_route:
  "routed ''GET'' [''api'', ''v1'', t, ''workflows'', i] = (if t = [] \<or> i = [] then [] else [WorkflowGet])"
  by (simp add: routed_def setup_router_def tenant_routes_def)

text \<open>The number of attempts, the time for an event and its delay are read and not used: the loop
  and the start of the worker do not depend on them.\<close>

lemma retry_settings_ignored:
  assumes "k \<in> {''EVENT_RETRY_ATTEMPTS'', ''EVENT_RETRY_DELAY_MS'', ''EVENT_PROCESSING_TIMEOUT'',
    ''WORKFLOW_MAX_RETRIES'', ''WORKFLOW_TIMEOUT_SECONDS'', ''EVENT_BATCH_SIZE''}"
  shows "worker_loop (env(k := v)) = worker_loop env" "worker_start (env(k := v)) uuid = worker_start env uuid"
  using assms
  by (elim insertE emptyE; simp add: worker_loop_def worker_start_def max_concurrency_def get_env_default_def
      get_env_int_default_def get_env_duration_default_def get_env_bool_default_def)+

lemma only_redis_streams: "new_event_stream name c = Inr b \<Longrightarrow> b = RedisBackend \<and> name \<in> {[], ''redis''} \<and> c"
  by (auto simp: new_event_stream_def split: if_splits)

end
