(* ===== verification/Start_Up.thy ===== *)
theory Start_Up
  imports Entry_Points
begin

text \<open>
  The \<^verbatim>\<open>main\<close> functions of the four services (\<^verbatim>\<open>cmd/server/main.go\<close>): what each reads from its
  environment, the order in which it connects and chooses its back ends, the message with which
  it exits, and the logging adapters it hands to the shared packages. The environment is a
  function from names to values, \<open>up\<close> tells whether the first ping of Redis is answered, and
  \<open>refused\<close> whether the subscription fails. Building the logger does not fail.
\<close>

subsection \<open>Starting\<close>

record service =
  sv_redis :: string
  sv_password :: string
  sv_level :: log_level
  sv_stream :: backend
  sv_start :: service_start
  sv_loop :: loop_config

record stored_service = service +
  sv_database :: backend
  sv_tenant_mode :: bool

text \<open>Debugging has a logger of its own; the worker is at the level of warnings for a name it does
  not know, the executor at that of information. The other two log information.\<close>

definition worker_log_level :: "string \<Rightarrow> log_level" where
  "worker_log_level s =
     (if s = ''debug'' then LDebug else if s = ''error'' then LError else if s = ''warn'' then LWarn
      else if s = ''info'' then LInfo else LWarn)"

definition executor_log_level :: "string \<Rightarrow> log_level" where
  "executor_log_level s = (if s = ''debug'' then LDebug else parse_log_level s)"

definition worker_main ::
  "(string \<Rightarrow> string) \<Rightarrow> string \<Rightarrow> bool \<Rightarrow> bool \<Rightarrow> (string, stored_service) result" where
  "worker_main env uuid up refused =
     (if \<not> up then Inl ''Failed to connect to Redis''
      else case new_database (get_env_default env ''DB_TYPE'' ''redis'') True of
             Inl _ \<Rightarrow> Inl ''Failed to create Database''
           | Inr db \<Rightarrow>
               (case new_event_stream (get_env_default env ''EVENT_STREAM_TYPE'' ''redis'') True of
                  Inl _ \<Rightarrow> Inl ''Failed to create EventStream''
                | Inr st \<Rightarrow>
                    if refused then Inl ''Failed to start workflow processor''
                    else Inr \<lparr>sv_redis = wg_redis_url (load_worker_config env),
                      sv_password = wg_redis_password (load_worker_config env),
                      sv_level = worker_log_level (wg_log_level (load_worker_config env)), sv_stream = st,
                      sv_start = worker_start env uuid, sv_loop = worker_loop env,
                      sv_database = db, sv_tenant_mode = True\<rparr>))"

definition executor_main :: "(string \<Rightarrow> string) \<Rightarrow> bool \<Rightarrow> bool \<Rightarrow> (string, service) result" where
  "executor_main env up refused =
     (if \<not> up then Inl ''Failed to connect to Redis''
      else case new_event_stream (get_env_default env ''EVENT_STREAM_TYPE'' ''redis'') True of
             Inl _ \<Rightarrow> Inl ''Failed to create EventStream''
           | Inr st \<Rightarrow>
               if refused then Inl ''Failed to start task processor''
               else Inr \<lparr>sv_redis = xg_redis_url (load_executor_config env),
                 sv_password = xg_redis_password (load_executor_config env),
                 sv_level = executor_log_level (xg_log_level (load_executor_config env)), sv_stream = st,
                 sv_start = executor_start env, sv_loop = executor_loop env\<rparr>)"

text \<open>The timer service also gets its settings for the scheduler.\<close>

definition timer_main ::
  "(string \<Rightarrow> string) \<Rightarrow> string \<Rightarrow> bool \<Rightarrow> bool \<Rightarrow> (string, service \<times> timer_config) result" where
  "timer_main env uuid up refused =
     (if \<not> up then Inl ''Failed to connect to Redis''
      else case new_event_stream (get_env_default env ''EVENT_STREAM_TYPE'' ''redis'') True of
             Inl _ \<Rightarrow> Inl ''Failed to create EventStream''
           | Inr st \<Rightarrow>
               if refused then Inl ''Failed to start timer processor''
               else Inr (\<lparr>sv_redis = get_env_default env ''REDIS_URL'' ''localhost:6379'',
                 sv_password = get_env_default env ''REDIS_PASSWORD'' [],
                 sv_level = LInfo, sv_stream = st, sv_start = timer_start env uuid, sv_loop = timer_loop env\<rparr>,
                 timer_settings env))"

text \<open>The API does not subscribe; it listens on its port, with the routes.\<close>

record api_server =
  as_redis :: string
  as_stream :: backend
  as_database :: backend
  as_tenant_mode :: bool
  as_address :: string
  as_routes :: "route list"

definition api_main :: "(string \<Rightarrow> string) \<Rightarrow> bool \<Rightarrow> (string, api_server) result" where
  "api_main env up =
     (if \<not> up then Inl ''Failed to connect to Redis''
      else case new_event_stream (get_env_default env ''EVENT_STREAM_TYPE'' ''redis'') True of
             Inl _ \<Rightarrow> Inl ''Failed to create EventStream''
           | Inr st \<Rightarrow>
               (case new_database (get_env_default env ''DB_TYPE'' ''redis'') True of
                  Inl _ \<Rightarrow> Inl ''Failed to create Database''
                | Inr db \<Rightarrow>
                    Inr \<lparr>as_redis = get_env_default env ''REDIS_URL'' ''localhost:6379'', as_stream = st, as_database = db,
                      as_tenant_mode = True, as_address = '':'' @ get_env_default env ''PORT'' ''8080'',
                      as_routes = setup_router\<rparr>))"

subsection \<open>Logging fields\<close>

text \<open>Keys and values of a log message in turn. An error is a value of its own kind.\<close>

datatype log_value = Plain_Value gval | Error_Value string

fun as_key :: "log_value \<Rightarrow> string option" where
  "as_key (Plain_Value (GStr s)) = Some s"
| "as_key _ = None"

text \<open>The adapters for the event stream, and those of worker, executor and timer service: a key
  that is no string is passed over with its value, a last key without a value is dropped.\<close>

fun convert_fields :: "log_value list \<Rightarrow> (string \<times> log_value) list" where
  "convert_fields (k # v # r) = (case as_key k of Some s \<Rightarrow> [(s, v)] | None \<Rightarrow> []) @ convert_fields r"
| "convert_fields _ = []"

text \<open>The adapter of the API for the database asserts that a key is a string; \<open>None\<close> is the panic.\<close>

fun convert_to_zap_fields :: "log_value list \<Rightarrow> (string \<times> log_value) list option" where
  "convert_to_zap_fields (k # v # r) =
     (case as_key k of
        None \<Rightarrow> None
      | Some s \<Rightarrow> (case convert_to_zap_fields r of None \<Rightarrow> None | Some fs \<Rightarrow> Some ((s, v) # fs)))"
| "convert_to_zap_fields _ = Some []"

text \<open>The logger of the worker (\<^verbatim>\<open>adapters/logger_adapter.go\<close>) gives a last key an empty value, and
  an error the key \<^verbatim>\<open>error\<close>, which is what \<^verbatim>\<open>zap.Error\<close> does.\<close>

definition convert_value :: "string \<Rightarrow> log_value \<Rightarrow> string \<times> log_value" where
  "convert_value k v = (case v of Error_Value _ \<Rightarrow> (''error'', v) | Plain_Value _ \<Rightarrow> (k, v))"

definition zap_logger_fields :: "log_value list \<Rightarrow> (string \<times> log_value) list" where
  "zap_logger_fields xs =
     map (\<lambda>(k, v). convert_value k v)
       (convert_fields (if even (length xs) then xs else xs @ [Plain_Value (GStr [])]))"

subsection \<open>What holds of them\<close>

text \<open>A service that runs reads from Redis, which answered.\<close>

lemma running_on_redis:
  "worker_main env uuid up refused = Inr w \<Longrightarrow> up \<and> sv_stream w = RedisBackend"
  "executor_main env up refused = Inr x \<Longrightarrow> up \<and> sv_stream x = RedisBackend"
  "timer_main env uuid up refused = Inr (t, c) \<Longrightarrow> up \<and> sv_stream t = RedisBackend"
  "api_main env up = Inr a \<Longrightarrow> up \<and> as_stream a = RedisBackend"
  by (auto simp: worker_main_def executor_main_def timer_main_def api_main_def split: if_splits sum.splits
      dest: only_redis_streams)

text \<open>With nothing set, the four share one Redis, and what the worker and the API store is kept under
  the keys of its tenant.\<close>

lemma default_services:
  assumes "env = (\<lambda>_. [])"
  obtains w x t c a where
    "worker_main env u True False = Inr w" "executor_main env True False = Inr x"
    "timer_main env v True False = Inr (t, c)" "api_main env True = Inr a"
    "sv_redis w = sv_redis x" "sv_redis t = sv_redis x" "as_redis a = sv_redis x"
    "sv_tenant_mode w \<and> as_tenant_mode a" "sv_database w = RedisBackend \<and> as_database a = RedisBackend"
  using assms
  by (simp add: worker_main_def executor_main_def timer_main_def api_main_def new_database_def
      new_event_stream_def get_env_default_def load_worker_config_def load_executor_config_def)

text \<open>What is no back end stops the services that use it. Postgres does not: see \<open>Other_Backends\<close>.\<close>

lemma unsupported_stream_stops:
  assumes "env ''EVENT_STREAM_TYPE'' \<notin> {[], ''redis''}"
  shows "\<exists>m. executor_main env up refused = Inl m" "\<exists>m. timer_main env uuid up refused = Inl m"
    "\<exists>m. api_main env up = Inl m" "\<exists>m. worker_main env uuid up refused = Inl m"
  using assms
  by (auto simp: worker_main_def executor_main_def timer_main_def api_main_def new_event_stream_def
      get_env_default_def split: sum.split)

text \<open>On keys and values that come in pairs, with strings as keys and no errors, the adapters agree.
  Otherwise they do not: the one of the API panics, that of the worker renames.\<close>

lemma adapters_agree:
  assumes "even (length xs)" and "\<forall>i < length xs. even i \<longrightarrow> as_key (xs ! i) \<noteq> None"
    and "\<forall>x \<in> set xs. \<exists>v. x = Plain_Value v"
  shows "convert_to_zap_fields xs = Some (convert_fields xs)" "zap_logger_fields xs = convert_fields xs"
proof -
  show "convert_to_zap_fields xs = Some (convert_fields xs)"
    using assms(1,2)
  proof (induction xs rule: convert_to_zap_fields.induct)
    case (1 k v r)
    from 1(3)[rule_format, of 0] obtain s where s: "as_key k = Some s" by auto
    have "as_key (r ! i) \<noteq> None" if "i < length r" "even i" for i
      using 1(3)[rule_format, of "i + 2"] that by simp
    then show ?case using 1(1)[OF s] 1(2) s by simp
  qed auto
  have "snd p \<in> set xs" if "p \<in> set (convert_fields xs)" for p
    using that by (induction xs rule: convert_fields.induct) (auto split: option.splits)
  then have "map (\<lambda>(k, v). convert_value k v) (convert_fields xs) = convert_fields xs"
    using assms(3) by (intro map_idI) (fastforce simp: convert_value_def split: log_value.split)
  then show "zap_logger_fields xs = convert_fields xs" using assms(1) by (simp add: zap_logger_fields_def)
qed

lemma adapters_differ:
  "convert_to_zap_fields [Plain_Value (GInt 1), v] = None" "convert_fields [Plain_Value (GInt 1), v] = []"
  "zap_logger_fields [Plain_Value (GStr ''cause''), Error_Value e] = [(''error'', Error_Value e)]"
  "convert_fields [Plain_Value (GStr ''cause''), Error_Value e] = [(''cause'', Error_Value e)]"
  by (simp_all add: zap_logger_fields_def convert_value_def)

end
