(* ===== verification/Other_Backends.thy ===== *)
theory Other_Backends
  imports Entry_Points Worker_Database Worker_Laws
begin

text \<open>
  The back ends that are stubs (\<^verbatim>\<open>storage/postgres/postgres_database.go\<close>,
  \<^verbatim>\<open>eventstreaming/kafka/kafka_stream.go\<close>, the tasks of \<^verbatim>\<open>storage/redis_database.go\<close>), and what
  becomes of a worker that is configured with one. Every method ignores its arguments, whose
  types are left open where the model has none.
\<close>

subsection \<open>Postgres\<close>

definition not_implemented :: "string \<Rightarrow> string" where
  "not_implemented meth =
     ''postgres database: '' @ meth @ '' not implemented yet; contributions welcome at shared/pkg/storage/postgres''"

definition pg_create_workflow :: "stored_definition \<Rightarrow> (string, unit) result" where
  "pg_create_workflow w = Inl (not_implemented ''CreateWorkflow'')"

definition pg_get_workflow_definition :: "string \<Rightarrow> (string, stored_definition) result" where
  "pg_get_workflow_definition wid = Inl (not_implemented ''GetWorkflowDefinition'')"

definition pg_get_workflow_definition_with_tenant :: "string \<Rightarrow> string \<Rightarrow> (string, stored_definition) result" where
  "pg_get_workflow_definition_with_tenant tenant wid = Inl (not_implemented ''GetWorkflowDefinitionWithTenant'')"

definition pg_update_workflow_definition :: "string \<Rightarrow> stored_definition \<Rightarrow> (string, unit) result" where
  "pg_update_workflow_definition wid w = Inl (not_implemented ''UpdateWorkflowDefinition'')"

definition pg_delete_workflow :: "string \<Rightarrow> (string, unit) result" where
  "pg_delete_workflow wid = Inl (not_implemented ''DeleteWorkflow'')"

definition pg_delete_workflow_with_tenant :: "string \<Rightarrow> string \<Rightarrow> (string, unit) result" where
  "pg_delete_workflow_with_tenant tenant wid = Inl (not_implemented ''DeleteWorkflowWithTenant'')"

definition pg_list_workflows :: "workflow_filters \<Rightarrow> (string, stored_definition list) result" where
  "pg_list_workflows f = Inl (not_implemented ''ListWorkflows'')"

definition pg_create_execution :: "execution \<Rightarrow> (string, unit) result" where
  "pg_create_execution x = Inl (not_implemented ''CreateExecution'')"

definition pg_get_execution :: "string \<Rightarrow> (string, execution) result" where
  "pg_get_execution eid = Inl (not_implemented ''GetExecution'')"

definition pg_update_execution :: "string \<Rightarrow> execution \<Rightarrow> (string, unit) result" where
  "pg_update_execution eid x = Inl (not_implemented ''UpdateExecution'')"

definition pg_list_executions :: "string \<Rightarrow> execution_filters \<Rightarrow> (string, execution list) result" where
  "pg_list_executions wid f = Inl (not_implemented ''ListExecutions'')"

definition pg_create_task :: "'t \<Rightarrow> (string, unit) result" where
  "pg_create_task t = Inl (not_implemented ''CreateTask'')"

definition pg_get_task :: "string \<Rightarrow> (string, 't) result" where
  "pg_get_task tid = Inl (not_implemented ''GetTask'')"

definition pg_update_task :: "string \<Rightarrow> 't \<Rightarrow> (string, unit) result" where
  "pg_update_task tid t = Inl (not_implemented ''UpdateTask'')"

definition pg_list_tasks :: "string \<Rightarrow> (string, 't list) result" where
  "pg_list_tasks wid = Inl (not_implemented ''ListTasks'')"

definition pg_health :: "string option" where
  "pg_health = Some ''postgres database: health check not implemented''"

text \<open>The counts and the health, together with the error.\<close>

definition pg_stats :: "(nat \<times> nat \<times> nat \<times> nat \<times> string) \<times> string option" where
  "pg_stats = ((0, 0, 0, 0, ''unknown''), Some (not_implemented ''GetStats''))"

definition pg_close :: "string option" where "pg_close = None"

subsection \<open>Tasks in Redis\<close>

definition no_task_storage :: string where "no_task_storage = ''task storage not implemented yet''"

definition redis_create_task :: "'t \<Rightarrow> (string, unit) result" where "redis_create_task t = Inl no_task_storage"
definition redis_get_task :: "string \<Rightarrow> (string, 't) result" where "redis_get_task tid = Inl no_task_storage"
definition redis_update_task :: "string \<Rightarrow> 't \<Rightarrow> (string, unit) result" where
  "redis_update_task tid t = Inl no_task_storage"
definition redis_list_tasks :: "string \<Rightarrow> (string, 't list) result" where "redis_list_tasks wid = Inl no_task_storage"

subsection \<open>Kafka\<close>

definition kafka_error :: "string \<Rightarrow> string" where
  "kafka_error meth =
     ''kafka event stream: '' @ meth @ '' not implemented yet; contribute at shared/pkg/eventstreaming/kafka''"

definition kafka_subscribe :: "stream_filters \<Rightarrow> (string, 's) result" where
  "kafka_subscribe f = Inl (kafka_error ''Subscribe'')"

definition kafka_publish :: publisher where "kafka_publish e = Some (kafka_error ''Publish'')"

definition kafka_create_group :: "string \<Rightarrow> string option" where
  "kafka_create_group g = Some (kafka_error ''CreateConsumerGroup'')"

definition kafka_delete_group :: "string \<Rightarrow> string option" where
  "kafka_delete_group g = Some (kafka_error ''DeleteConsumerGroup'')"

definition kafka_stream_info :: "(string, 'i) result" where
  "kafka_stream_info = Inl (kafka_error ''GetStreamInfo'')"

definition kafka_close :: "string option" where "kafka_close = None"

subsection \<open>A worker on Postgres\<close>

text \<open>The worker reads definitions through its adapter, which hands the error on.\<close>

definition on_postgres :: "worker_env \<Rightarrow> bool" where
  "on_postgres env \<longleftrightarrow>
     we_definition env = (\<lambda>t w. bind_res (pg_get_workflow_definition_with_tenant t w) (\<lambda>d. Inr (worker_definition d)))"

definition postgres_failure :: string where
  "postgres_failure = ''failed to get workflow definition: '' @ not_implemented ''GetWorkflowDefinitionWithTenant''"

lemma postgres_attempt:
  assumes "on_postgres env" and "\<not> skips e" and "history_for env e = Inr es"
  shows "process_workflow_event env e = ([], Inl postgres_failure)"
  using assms
  by (simp add: on_postgres_def process_workflow_event_def handle_event_def lift_res_def
      pg_get_workflow_definition_with_tenant_def postgres_failure_def wrap_eff_def bind_eff_def)

text \<open>A worker can be configured with Postgres and starts with it. From then on it takes no step: every
  event it does not skip, whose history it can read, is moved to the dead letters at once and
  acknowledged, so that an execution that is started under this setting stays where it is, and no
  retry brings it back when the setting is corrected.\<close>

theorem postgres_worker_gives_up:
  assumes "\<forall>env \<in> {env1, env2, env3}. on_postgres env \<and> (\<exists>es. history_for env e = Inr es)"
    and "\<not> skips e" and "we_fault env3 = (\<lambda>_. None)" and "ext_str e ''ack_key'' = Some k" and "k \<noteq> []"
  shows "new_database ''postgres'' c = Inr PostgresBackend \<and>
    consume env1 env2 env3 e = [Emit (worker_dead_letter postgres_failure e), AckMessage k]"
proof -
  have "process_workflow_event env e = ([], Inl postgres_failure)" if "env \<in> {env1, env2, env3}" for env
    using assms(1,2) that postgres_attempt by blast
  then have "worker_handle env1 env2 env3 e = ([], Some postgres_failure)" by (simp add: worker_handle_def)
  then show ?thesis
    using worker.dead_lettered [of env1 env2 env3 e postgres_failure k] assms(3-5)
    by (simp add: new_database_def perform_def)
qed

definition postgres_env :: worker_env where
  "postgres_env = \<lparr>we_history = (\<lambda>_. Inr []),
     we_definition = (\<lambda>t w. bind_res (pg_get_workflow_definition_with_tenant t w) (\<lambda>d. Inr (worker_definition d))),
     we_execution = None, we_fault = (\<lambda>_. None), we_fmt = (\<lambda>_. []), we_now = 0, we_uuid = []\<rparr>"

definition postgres_event :: cloud_event where
  "postgres_event = add_extension ''ack_key'' (GStr ''s|1'') (empty_event\<lparr>ev_type := ''io.flunq.execution.started''\<rparr>)"

theorem postgres_worker_gives_up_witness:
  "consume postgres_env postgres_env postgres_env postgres_event =
   [Emit (worker_dead_letter postgres_failure postgres_event), AckMessage ''s|1'']"
proof -
  have "on_postgres postgres_env" by (simp add: on_postgres_def postgres_env_def)
  moreover have "history_for postgres_env postgres_event = Inr []"
    by (simp add: postgres_env_def postgres_event_def history_for_def fetch_complete_history_def empty_event_def)
  moreover have "\<not> skips postgres_event" by (simp add: postgres_event_def skips_def)
  moreover have "we_fault postgres_env = (\<lambda>_. None)" by (simp add: postgres_env_def)
  moreover have "ext_str postgres_event ''ack_key'' = Some ''s|1''"
    by (simp add: postgres_event_def ext_str_def get_extension_def add_extension_def empty_event_def)
  ultimately show ?thesis
    using postgres_worker_gives_up [of postgres_env postgres_env postgres_env postgres_event "''s|1''" True] by simp
qed

text \<open>The stub for Kafka is not reached: no setting selects it.\<close>

lemma kafka_not_selected: "new_event_stream ''kafka'' c =
    Inl ''kafka backend not implemented yet; contribute an implementation in shared/pkg/eventstreaming/kafka''"
  by (simp add: new_event_stream_def)

end
