(* ===== verification/Composition.thy ===== *)
theory Composition
  imports Timer_Laws Executor_Laws Worker_Laws
begin

text \<open>
  Properties that span services: a wait task from the worker through the timer service back
  into the state of the workflow, and the event stream that carries it.
\<close>

subsection \<open>The event stream\<close>

lemma redis_seen_idem: "redis_seen (redis_seen e) = redis_seen e"
proof (cases "to_wire (ev_data e)")
  case None
  then show ?thesis by (simp add: redis_seen_def wire_event_def whole_seconds_def second_def)
next
  case (Some w)
  then have "to_wire w = Some w" by (rule to_wire_idem)
  with Some show ?thesis by (simp add: redis_seen_def wire_event_def whole_seconds_def second_def)
qed

text \<open>C9: What is published is what is read. After any sequence of publications, by whatever
  services and for whatever workflows, the history of a workflow holds, for each tenant,
  exactly the events published for that workflow and tenant, in the order of publication, each
  in the form it has after JSON and in whole seconds; events that already have that form are
  read back unchanged.\<close>

theorem published_events_read_back:
  assumes "\<forall>e \<in> set es. redis_publishable e"
  shows "filter (\<lambda>e. tenant_of e = t) (redis_history (foldl redis_publish [] es) wid) =
      map redis_seen (filter (\<lambda>e. ev_workflow e = wid \<and> tenant_of e = t) es) \<and>
    ((\<forall>e \<in> set es. \<exists>e0. e = redis_seen e0) \<longrightarrow>
       filter (\<lambda>e. tenant_of e = t) (redis_history (foldl redis_publish [] es) wid) =
       filter (\<lambda>e. ev_workflow e = wid \<and> tenant_of e = t) es)"
proof -
  have inv: "redis_inv []" by (simp add: redis_inv_def)
  have empty: "redis_history [] wid = []" by (simp add: redis_history_entries)
  have h: "filter (\<lambda>e. tenant_of e = t) (redis_history (foldl redis_publish [] es) wid) =
      map redis_seen (filter (\<lambda>e. ev_workflow e = wid \<and> tenant_of e = t) es)"
    using rlog.hist_tenant_run [OF inv assms, of wid t] by (simp add: rlog.hist_tenant_def empty)
  have "map redis_seen xs = xs" if "\<forall>e \<in> set xs. \<exists>e0. e = redis_seen e0" for xs
    using that by (induction xs) (auto simp: redis_seen_idem)
  then show ?thesis unfolding h by simp
qed

theorem published_events_read_back_witness:
  "\<exists>e. redis_publishable e \<and>
     filter (\<lambda>e. tenant_of e = ''acme'') (redis_history (foldl redis_publish [] [e, e\<lparr>ev_workflow := ''w2''\<rparr>, e]) ''w1'') =
     [redis_seen e, redis_seen e]"
proof -
  let ?e = "empty_event\<lparr>ev_id := ''a'', ev_tenant := ''acme'', ev_workflow := ''w1'', ev_time := 0\<rparr>"
  have "redis_publishable ?e" "redis_publishable (?e\<lparr>ev_workflow := ''w2''\<rparr>)"
    by (simp_all add: redis_publishable_def rfc3339_range_def plain_id_def zero_time_def second_def empty_event_def)
  then have "\<forall>e \<in> set [?e, ?e\<lparr>ev_workflow := ''w2''\<rparr>, ?e]. redis_publishable e" by simp
  from published_events_read_back [OF this, of "''acme''" "''w1''"] \<open>redis_publishable ?e\<close>
  show ?thesis by (intro exI [of _ ?e]) (simp add: tenant_of_def)
qed

subsection \<open>From the worker to the timer service\<close>

lemma milliseconds_range: "0 \<le> dur \<Longrightarrow> dur < 2 ^ 63 \<Longrightarrow> 0 \<le> milliseconds dur \<and> milliseconds dur \<le> 2 ^ 53"
  using zdiv_mono1 [of dur "2 ^ 63" 1000000] pos_imp_zdiv_nonneg_iff [of 1000000 dur]
  by (simp add: milliseconds_def)

text \<open>What the timer service decodes from the event the worker publishes for a wait.\<close>

lemma scheduled_payload:
  assumes "0 \<le> dur" and "dur < 2 ^ 63"
  obtains d where "to_wire (ev_data (timer_scheduled_event now uuid tenant wid execution task dur)) = Some (GMap d)"
    "decode_payload (GMap d) = Inr \<lparr>tp_tenant = tenant, tp_workflow = wid, tp_execution = execution,
       tp_task = task, tp_name = task, tp_fire_at = format_rfc3339 (now + dur), tp_duration_ms = milliseconds dur\<rparr>"
proof -
  let ?ms = "milliseconds dur"
  have ms: "0 \<le> ?ms" "?ms \<le> 2 ^ 53" using milliseconds_range [OF assms] by simp_all
  then have f: "f64_of_int ?ms = of_int ?ms" by (intro f64_of_int_exact) simp
  let ?d = "[(''tenant_id'', GStr tenant), (''workflow_id'', GStr wid), (''execution_id'', GStr execution),
     (''task_id'', GStr task), (''task_name'', GStr task), (''duration_ms'', GFloat (of_int ?ms)),
     (''fire_at'', GStr (format_rfc3339 (now + dur)))]"
  have "to_wire (ev_data (timer_scheduled_event now uuid tenant wid execution task dur)) = Some (GMap ?d)"
    by (simp add: timer_scheduled_event_def f)
  moreover have "decode_payload (GMap ?d) = Inr \<lparr>tp_tenant = tenant, tp_workflow = wid, tp_execution = execution,
       tp_task = task, tp_name = task, tp_fire_at = format_rfc3339 (now + dur), tp_duration_ms = ?ms\<rparr>"
    using ms by (simp add: decode_payload_def json_string_def json_int64_def)
  ultimately show thesis by (rule that)
qed

lemma second_bounds: "s = (t :: int) div 1000000000 \<Longrightarrow> s * 1000000000 \<le> t \<and> t < (s + 1) * 1000000000"
  by presburger

lemma register_scheduled:
  assumes "decode_payload (GMap d) = Inr p" and "parse_rfc3339 (tp_fire_at p) = Some t"
  shows "register_timer no_faults [] (wire_event (GMap d) e) = ([(p, score_of_time t)], Inr ())"
  using assms by (simp add: register_timer_def)

lemma drain_one:
  assumes "due c now r" and "0 < n" and "\<And>x. pub x = None"
  shows "drain pub no_faults c now n [(p, r)] = ([timer_fired_event now p], [])"
  using assms by (cases n; cases "n - 1") (simp_all add: zpopmin_def send_def)

text \<open>What the engine does with the event the timer service publishes.\<close>

lemma fired_completes:
  assumes "tp_name p \<noteq> []"
  obtains d where "to_wire (ev_data (timer_fired_event t p)) = Some (GMap d)"
    "process_event pub fmt now s (wire_event (GMap d) (timer_fired_event t p)) =
       ([], Inr (process_task_completed s (wire_event (GMap d) (timer_fired_event t p))))"
    "tp_name p \<in> ct_name ` set (ws_completed (process_task_completed s (wire_event (GMap d) (timer_fired_event t p))))"
    "ws_pending (process_task_completed s (wire_event (GMap d) (timer_fired_event t p))) =
       remove_first (\<lambda>q. pt_name q = tp_name p) (ws_pending s)"
proof -
  let ?d = "[(''tenant_id'', GStr (tp_tenant p)), (''workflow_id'', GStr (tp_workflow p)),
         (''execution_id'', GStr (tp_execution p)), (''task_id'', GStr (tp_task p)),
         (''task_name'', GStr (tp_name p)), (''scheduled_for'', GStr (tp_fire_at p)),
         (''fired_at'', GStr (format_rfc3339 t))]"
  have d: "to_wire (ev_data (timer_fired_event t p)) = Some (GMap ?d)" by (simp add: timer_fired_event_def)
  have ty: "ev_type (timer_fired_event t p) = ''io.flunq.timer.fired''" by (simp add: timer_fired_event_def)
  have name: "completed_task_name ?d = tp_name p" "task_success ?d"
    using assms by (simp_all add: completed_task_name_def str_or_empty_def task_success_def get_defs)
  show thesis
    by (rule that [OF d])
      (use name in \<open>auto simp: ty process_event_def process_timer_fired_def get_defs ret_def
         process_task_completed_def complete_task_fields list_ex_image\<close>)
qed

subsection \<open>A wait, end to end\<close>



subsection \<open>A retry, end to end\<close>

text \<open>What the timer service decodes from the timer of a retry: the fields that make it the timer
  of a retry are not among those of its payload.\<close>

lemma retry_payload:
  assumes "0 \<le> delay" and "delay < 2 ^ 63"
    and "to_wire (map_or_nil (Option.bind (rq_config r) tk_params)) = Some w"
  obtains d where "to_wire (ev_data (retry_scheduled_event now uuid r delay k)) = Some (GMap d)"
    "decode_payload (GMap d) = Inr \<lparr>tp_tenant = [], tp_workflow = rq_workflow r, tp_execution = rq_execution r,
       tp_task = rq_task r @ ''_retry_'' @ itoa k, tp_name = rq_name r @ ''_retry'',
       tp_fire_at = format_rfc3339 (now + delay), tp_duration_ms = milliseconds delay\<rparr>"
proof -
  let ?ms = "milliseconds delay" and ?d = "\<lambda>w'. [(''tenant_id'', GStr []), (''workflow_id'', GStr (rq_workflow r)),
     (''execution_id'', GStr (rq_execution r)), (''task_id'', GStr (rq_task r @ ''_retry_'' @ itoa k)),
     (''task_name'', GStr (rq_name r @ ''_retry'')), (''duration_ms'', GFloat (of_int (milliseconds delay))),
     (''fire_at'', GStr (format_rfc3339 (now + delay))), (''original_task_id'', GStr (rq_task r)),
     (''original_task_name'', GStr (rq_name r)), (''attempt_count'', GFloat (f64_of_int k)),
     (''retry_type'', GStr ''task_retry''), (''original_task_definition'', w')]"
  have ms: "0 \<le> ?ms" "?ms \<le> 2 ^ 53" using milliseconds_range [OF assms(1,2)] by simp_all
  then have f: "f64_of_int ?ms = of_int ?ms" by (intro f64_of_int_exact) simp
  have d: "to_wire (ev_data (retry_scheduled_event now uuid r delay k)) = Some (GMap (?d w))"
    using assms(3) by (simp add: retry_scheduled_event_def map_or_nil_def f Let_def)
  then have "to_wire (GMap (?d w)) = Some (GMap (?d w))" by (rule to_wire_idem)
  then have "decode_payload (GMap (?d w)) = Inr \<lparr>tp_tenant = [], tp_workflow = rq_workflow r,
      tp_execution = rq_execution r, tp_task = rq_task r @ ''_retry_'' @ itoa k, tp_name = rq_name r @ ''_retry'',
      tp_fire_at = format_rfc3339 (now + delay), tp_duration_ms = ?ms\<rparr>"
    unfolding decode_payload_def using ms by (simp add: json_string_def json_int64_def)
  with d show thesis by (rule that)
qed

text \<open>C33: The timer of a retry does not retry. The payload the timer service keeps has no field for
  the type of the timer, so that what it publishes when the delay is over is an ordinary
  firing, without a tenant: the engine requests no task, records the completion of a task that
  does not exist, named after the task with \<open>_retry\<close> appended, and the task itself stays
  pending.\<close>

theorem retry_timer_does_not_retry:
  assumes "0 \<le> delay" and "delay < 2 ^ 63" and "rfc3339_range (now + delay)"
    and "to_wire (map_or_nil (Option.bind (rq_config r) tk_params)) = Some w"
    and "e = retry_scheduled_event now uuid r delay k"
  shows "\<exists>m p score. to_wire (ev_data e) = Some (GMap m) \<and>
    register_timer no_faults [] (wire_event (GMap m) e) = ([(p, score)], Inr ()) \<and>
    (\<forall>t s. \<exists>m' s'. to_wire (ev_data (timer_fired_event t p)) = Some (GMap m') \<and>
      ev_tenant (timer_fired_event t p) = [] \<and>
      process_event pub fmt now' s (wire_event (GMap m') (timer_fired_event t p)) = ([], Inr s') \<and>
      rq_name r @ ''_retry'' \<in> ct_name ` set (ws_completed s') \<and>
      ws_pending s' = remove_first (\<lambda>q. pt_name q = rq_name r @ ''_retry'') (ws_pending s))"
proof -
  define p where "p = \<lparr>tp_tenant = [], tp_workflow = rq_workflow r, tp_execution = rq_execution r,
       tp_task = rq_task r @ ''_retry_'' @ itoa k, tp_name = rq_name r @ ''_retry'',
       tp_fire_at = format_rfc3339 (now + delay), tp_duration_ms = milliseconds delay\<rparr>"
  from retry_payload [OF assms(1,2,4)] obtain m where m: "to_wire (ev_data e) = Some (GMap m)"
    "decode_payload (GMap m) = Inr p" unfolding p_def assms(5) by metis
  have n: "tp_name p = rq_name r @ ''_retry''" "tp_name p \<noteq> []" "tp_tenant p = []" by (simp_all add: p_def)
  have "parse_rfc3339 (tp_fire_at p) = Some (whole_seconds (now + delay))"
    by (simp add: p_def parse_format_in_range [OF assms(3)])
  from register_scheduled [OF m(2) this]
  have r: "register_timer no_faults [] (wire_event (GMap m) e) = ([(p, score_of_time (whole_seconds (now + delay)))], Inr ())" .
  have "\<exists>m' s'. to_wire (ev_data (timer_fired_event t p)) = Some (GMap m') \<and>
      ev_tenant (timer_fired_event t p) = [] \<and>
      process_event pub fmt now' s (wire_event (GMap m') (timer_fired_event t p)) = ([], Inr s') \<and>
      rq_name r @ ''_retry'' \<in> ct_name ` set (ws_completed s') \<and>
      ws_pending s' = remove_first (\<lambda>q. pt_name q = rq_name r @ ''_retry'') (ws_pending s)" for t s
  proof -
    have "ev_tenant (timer_fired_event t p) = []" by (simp add: timer_fired_event_def n(3))
    with fired_completes [OF n(2), of t pub fmt now' s, unfolded n(1)] show ?thesis by metis
  qed
  with m(1) r show ?thesis by blast
qed

theorem retry_timer_does_not_retry_witness:
  "\<exists>m p score. register_timer no_faults []
      (wire_event (GMap m) (retry_scheduled_event 0 ''u'' (demo_request [] []) 2000000000 1)) = ([(p, score)], Inr ()) \<and>
    (\<forall>t s. \<exists>m' s'.
      process_event (\<lambda>_. None) (\<lambda>_. []) 0 s (wire_event (GMap m') (timer_fired_event t p)) = ([], Inr s') \<and>
      ''fetch_retry'' \<in> ct_name ` set (ws_completed s'))"
proof -
  have "rfc3339_range (0 + 2000000000)" by (simp add: rfc3339_range_def second_def zero_time_def)
  moreover have "to_wire (map_or_nil (Option.bind (rq_config (demo_request [] [])) tk_params)) = Some (GMap [])"
    by (simp add: demo_request_def map_or_nil_def)
  moreover have "rq_name (demo_request [] []) @ ''_retry'' = ''fetch_retry''" by (simp add: demo_request_def)
  ultimately show ?thesis
    using retry_timer_does_not_retry [of 2000000000 0 "demo_request [] []" "GMap []" _ "''u''" 1
        "\<lambda>_. None" "\<lambda>_. []" 0, OF _ _ _ _ refl] by simp metis
qed

end
