(* ===== verification/Deployment.thy ===== *)
theory Deployment
  imports Composition
begin

text \<open>
  The services together. A state is what they share (the Redis streams, the set of
  timers), the starts of executions the API is still to publish, and, for each other service, the
  events its consumer group has been handed and has not handled yet. A step is the API publishing
  a start, one service handling one of its events, in any order and at any time
  of its own clock, or one round of the scheduler; what a service publishes is appended to the
  streams and handed to every service whose filter it passes. Nothing is simplified in the
  services: the steps run \<open>consume\<close>, \<open>task_consume\<close>, \<open>timer_consume\<close> and \<open>scheduler_round\<close>.

  What is assumed of a deployment is in \<open>setting\<close>: the definitions the database returns, the
  environments an executor may find (what the outside answers), the configuration of the timer
  service. The event stream and Redis do not fail.
\<close>

record setting =
  st_definition :: "string \<Rightarrow> string \<Rightarrow> (string, workflow_definition) result"
  st_executors :: "try_env set"
  st_timers :: timer_config

record system =
  sy_streams :: streams
  sy_starts :: "cloud_event list"
  sy_worker :: "cloud_event list"
  sy_executor :: "cloud_event list"
  sy_timer :: "cloud_event list"
  sy_zset :: zset

subsection \<open>Publishing\<close>

text \<open>The event a group with the filter is handed when the event is published.\<close>

definition arrivals :: "stream_filters \<Rightarrow> streams \<Rightarrow> cloud_event \<Rightarrow> cloud_event list" where
  "arrivals f s e =
     (case publish True (nat_digits (length s)) e of
        Inl _ \<Rightarrow> []
      | Inr (k, m) \<Rightarrow> (case receive_message f k m of Deliver x \<Rightarrow> [x] | AckNow _ _ \<Rightarrow> []))"

definition announce :: "system \<Rightarrow> cloud_event \<Rightarrow> system" where
  "announce y e =
     y\<lparr>sy_streams := redis_publish (sy_streams y) e,
       sy_worker := sy_worker y @ arrivals worker_filters (sy_streams y) e,
       sy_executor := sy_executor y @ arrivals task_filters (sy_streams y) e,
       sy_timer := sy_timer y @ arrivals timer_filters (sy_streams y) e\<rparr>"

definition announce_all :: "cloud_event list \<Rightarrow> system \<Rightarrow> system" where
  "announce_all es y = foldl announce y es"

fun emitted :: "worker_out list \<Rightarrow> cloud_event list" where
  "emitted [] = []"
| "emitted (x # xs) = (case x of Emit e \<Rightarrow> [e] | _ \<Rightarrow> []) @ emitted xs"

fun answered_with :: "exec_out list \<Rightarrow> cloud_event list" where
  "answered_with [] = []"
| "answered_with (x # xs) = (case x of XEmit e \<Rightarrow> [e] | _ \<Rightarrow> []) @ answered_with xs"

fun timer_emitted :: "timer_out list \<Rightarrow> cloud_event list" where
  "timer_emitted [] = []"
| "timer_emitted (x # xs) = (case x of TEmit e \<Rightarrow> [e] | _ \<Rightarrow> []) @ timer_emitted xs"

subsection \<open>Steps\<close>

text \<open>The clocks: a service handles an event between 1970 and 2033, the scheduler may run until
  2038. Nothing is assumed of the order of two readings.\<close>

definition service_time :: "time \<Rightarrow> bool" where
  "service_time t \<longleftrightarrow> second \<le> t \<and> t \<le> 2000000000 * second"

definition scheduler_time :: "time \<Rightarrow> bool" where
  "scheduler_time t \<longleftrightarrow> second \<le> t \<and> t \<le> 2 ^ 31 * second"

text \<open>An environment in which the worker reads the log and the definitions as they are.\<close>

definition worker_sees :: "setting \<Rightarrow> system \<Rightarrow> worker_env \<Rightarrow> bool" where
  "worker_sees g y env \<longleftrightarrow>
     we_history env = (\<lambda>w. Inr (redis_history (sy_streams y) w)) \<and>
     we_definition env = st_definition g \<and> we_fault env = (\<lambda>_. None) \<and> service_time (we_now env)"

inductive system_step :: "setting \<Rightarrow> system \<Rightarrow> system \<Rightarrow> bool" for g where
  api_publishes:
  "system_step g y (announce (y\<lparr>sy_starts := a @ b\<rparr>) e)"
  if "sy_starts y = a @ e # b"
| worker_handles:
  "system_step g y (announce_all (emitted (consume env1 env2 env3 e)) (y\<lparr>sy_worker := a @ b\<rparr>))"
  if "sy_worker y = a @ e # b" "worker_sees g y env1" "worker_sees g y env2" "worker_sees g y env3"
| executor_handles:
  "system_step g y (announce_all (answered_with (task_consume (\<lambda>_. None) env now e)) (y\<lparr>sy_executor := a @ b\<rparr>))"
  if "sy_executor y = a @ e # b" "env \<in> st_executors g" "service_time now"
| timer_registers:
  "system_step g y (announce_all (timer_emitted (timer_consume (\<lambda>_. None) no_faults no_faults no_faults (sy_zset y) e))
     (y\<lparr>sy_timer := a @ b, sy_zset := fst (register_attempts [no_faults, no_faults, no_faults] (sy_zset y) e [])\<rparr>))"
  if "sy_timer y = a @ e # b"
| timers_fire:
  "system_step g y (announce_all es (y\<lparr>sy_zset := z\<rparr>))"
  if "scheduler_round (\<lambda>_. None) no_faults (st_timers g) now (sy_zset y) = (es, z)" "es \<noteq> []"
    "scheduler_time now"

text \<open>A run of so many steps.\<close>

inductive system_run :: "setting \<Rightarrow> system \<Rightarrow> nat \<Rightarrow> system \<Rightarrow> bool" for g y where
  here: "system_run g y 0 y"
| on: "system_run g y (Suc n) y2" if "system_run g y n y1" "system_step g y1 y2"

text \<open>The deployment when nothing is under way, with what the streams hold and the starts that are
  to come.\<close>

definition at_rest :: "streams \<Rightarrow> cloud_event list \<Rightarrow> system" where
  "at_rest s es =
     \<lparr>sy_streams = s, sy_starts = es, sy_worker = [], sy_executor = [], sy_timer = [], sy_zset = []\<rparr>"

subsection \<open>One execution\<close>

record exec_key =
  ek_tenant :: string
  ek_workflow :: string
  ek_execution :: string

definition own :: "exec_key \<Rightarrow> cloud_event \<Rightarrow> bool" where
  "own k e \<longleftrightarrow> ev_tenant e = ek_tenant k \<and> ev_workflow e = ek_workflow k \<and> ev_execution e = ek_execution k"

definition own_timer :: "exec_key \<Rightarrow> timer_payload \<Rightarrow> bool" where
  "own_timer k p \<longleftrightarrow> tp_tenant p = ek_tenant k \<and> tp_workflow p = ek_workflow k \<and> tp_execution p = ek_execution k"

definition own_log :: "exec_key \<Rightarrow> system \<Rightarrow> cloud_event list" where
  "own_log k y = of_execution (ek_execution k) (redis_history (sy_streams y) (ek_workflow k))"

definition completions :: "cloud_event list \<Rightarrow> nat" where
  "completions es = length (filter (\<lambda>e. ev_type e = ''io.flunq.workflow.completed'') es)"

subsection \<open>Tasks that can be run\<close>

definition set_task :: "gmap \<Rightarrow> gmap \<Rightarrow> bool" where
  "set_task b m \<longleftrightarrow> map_of b ''set'' = Some (GMap m) \<and> map_of b ''wait'' = None \<and>
     map_of b ''call'' = None \<and> map_of b ''try'' = None"

text \<open>A request the executor may read for the task.\<close>

definition may_request :: "exec_key \<Rightarrow> workflow_definition \<Rightarrow> string \<Rightarrow> task_request \<Rightarrow> bool" where
  "may_request k d name r \<longleftrightarrow>
     (\<exists>now s m x. state_ok s \<and> ws_workflow s = ek_workflow k \<and>
        to_wire (ev_data (task_requested_event now (new_task now d name s) s)) = Some (GMap m) \<and>
        ev_data x = GMap m \<and> own k x \<and> parse_task_request x = Inr r)"

text \<open>The executor answers the request with a result that can be published, and schedules no retry.\<close>

definition answers :: "try_env \<Rightarrow> task_request \<Rightarrow> task_result \<Rightarrow> bool" where
  "answers env r t \<longleftrightarrow>
     (\<exists>f. registry env (rq_type r) = Some f \<and> f r = ([], Inr t) \<and> same_task r t \<and>
        to_wire (map_or_nil (tr_input t)) \<noteq> None \<and> to_wire (map_or_nil (tr_output t)) \<noteq> None)"

text \<open>The task is a call or a try block, and some executor may answer a request for it with a result
  that is no success.\<close>

definition may_fail :: "setting \<Rightarrow> exec_key \<Rightarrow> workflow_definition \<Rightarrow> string \<times> gval \<Rightarrow> bool" where
  "may_fail g k d x \<longleftrightarrow>
     (\<exists>b. snd x = GMap b \<and> recognised_type b \<in> {Some ''call'', Some ''try''}) \<and>
     (\<exists>env \<in> st_executors g. \<exists>r t. may_request k d (fst x) r \<and> answers env r t \<and> \<not> tr_success t)"

text \<open>Set tasks whose data evaluates to something that can be stored (not so \<^verbatim>\<open>${now}\<close>), waits of
  up to three years, calls and try blocks that the executor answers, whether they succeed or not.\<close>

definition runnable :: "setting \<Rightarrow> exec_key \<Rightarrow> workflow_definition \<Rightarrow> string \<times> gval \<Rightarrow> bool" where
  "runnable g k d x \<longleftrightarrow> fst x \<noteq> [] \<and>
     (case snd x of
        GMap b \<Rightarrow>
          (\<exists>m. set_task b m \<and>
             (\<forall>now s. state_ok s \<longrightarrow> (\<exists>v. to_wire (set_data_for now (GMap m) s) = Some (GMap v)))) \<or>
          (\<exists>n \<le> 100000000. wait_task b (''PT'' @ nat_digits n @ ''S'')) \<or>
          recognised_type b \<in> {Some ''call'', Some ''try''} \<and>
            (\<forall>env \<in> st_executors g. ye_pub env = (\<lambda>_. None) \<and>
               (\<forall>r. may_request k d (fst x) r \<longrightarrow> (\<exists>t. answers env r t)))
      | _ \<Rightarrow> False)"

end
