(* ===== verification/Deployment_Steps.thy ===== *)
theory Deployment_Steps
  imports Deployment
begin

text \<open>
  What each service does with one event of an execution: what publishing adds to the log and to
  the boxes of the services, how the worker rebuilds the state from the log, and what worker,
  timer service and executor publish for a task of each kind.
\<close>

subsection \<open>Publishing into the deployment\<close>

text \<open>Two events that differ at most in what no handler of a step looks at.\<close>

definition same_core :: "cloud_event \<Rightarrow> cloud_event \<Rightarrow> bool" where
  "same_core a b \<longleftrightarrow> ev_type a = ev_type b \<and> ev_source a = ev_source b \<and> ev_data a = ev_data b \<and>
     ev_tenant a = ev_tenant b \<and> ev_workflow a = ev_workflow b \<and> ev_execution a = ev_execution b"

lemma same_core_should: "same_core a b \<Longrightarrow> should_process_event f a = should_process_event f b"
  by (simp add: same_core_def should_process_event_def)

lemma same_core_own: "same_core a b \<Longrightarrow> own k a = own k b"
  by (simp add: same_core_def own_def)

lemma same_core_skips: "same_core a b \<Longrightarrow> skips a = skips b"
  by (simp add: same_core_def skips_def)

lemma same_core_progress: "same_core a b \<Longrightarrow> progress_step p a = progress_step p b"
  unfolding same_core_def progress_step_def by (elim conjE) (simp only:)

lemma arrivals_core:
  assumes p: "redis_publishable e" and d: "to_wire (ev_data e) = Some (GMap d)"
  obtains x where "same_core x (redis_seen e)"
    "\<And>f. arrivals f s e = (if should_process_event f (redis_seen e) then [x] else [])"
proof -
  have t: "rfc3339_range (ev_time e)" using p by (simp add: redis_publishable_def)
  obtain m where m: "encode_event (nat_digits (length s)) e = Inr m" using d by (auto simp: encode_event_Inr)
  let ?k = "get_stream_key e"
  define x where "x = add_extension ''redis_msg_id'' (GStr (msg_id m))
     (add_extension ''redis_stream'' (GStr ?k) (add_extension ''ack_key'' (GStr (ack_key ?k (msg_id m)))
       (wire_event (GMap d) e)))"
  have seen: "redis_seen e = wire_event (GMap d) e" using d by (simp add: redis_seen_def)
  have pm: "parse_message m = redis_seen e" using receive_encoded [OF t m d] seen by simp
  have core: "same_core x (redis_seen e)" by (simp add: x_def same_core_def seen)
  have "publish True (nat_digits (length s)) e = Inr (?k, m)" using m by (simp add: publish_Inr)
  then have "arrivals f s e = (if should_process_event f (redis_seen e) then [x] else [])" for f
    by (simp add: arrivals_def receive_message_def Let_def pm x_def) (simp add: seen)
  with core that show thesis by blast
qed

text \<open>The history a reader of an execution has, as long as all of it is of one tenant.\<close>

definition one_tenant :: "exec_key \<Rightarrow> system \<Rightarrow> bool" where
  "one_tenant k y \<longleftrightarrow> redis_inv (sy_streams y) \<and> ek_execution k \<noteq> [] \<and> (\<forall>e \<in> set (own_log k y). own k e)"

lemma own_log_announce:
  assumes y: "one_tenant k y" and e: "redis_publishable e" "own k e"
  shows "own_log k (announce y e) = own_log k y @ [redis_seen e] \<and> one_tenant k (announce y e)"
proof -
  let ?p = "\<lambda>e. ev_execution e \<noteq> [] \<and> ev_execution e = ek_execution k"
  have i: "redis_inv (sy_streams y)" and x: "ek_execution k \<noteq> []" using y by (simp_all add: one_tenant_def)
  obtain xs ys where h: "redis_history (sy_streams y) (ek_workflow k) = xs @ ys"
    "redis_history (redis_publish (sy_streams y) e) (ek_workflow k) = xs @ redis_seen e # ys"
    "\<forall>y \<in> set ys. tenant_of y \<noteq> tenant_of e"
    using rlog.hist_same [OF i e(1)] e(2) by (auto simp: own_def)
  have "tenant_of z = tenant_of e" if "z \<in> set (own_log k y)" for z
    using y e(2) that by (simp add: one_tenant_def own_def tenant_of_def)
  then have ys: "filter ?p ys = []"
    using h(1,3) by (auto simp: own_log_def of_execution_def filter_empty_conv)
  have "own_log k (announce y e) = own_log k y @ [redis_seen e]"
    using e(2) x ys by (simp add: own_log_def of_execution_def announce_def h(1,2) own_def)
  moreover have "redis_inv (redis_publish (sy_streams y) e)" by (rule rlog.inv_pub [OF i e(1)])
  ultimately show ?thesis
    using y e(2) by (auto simp: one_tenant_def announce_def own_def)
qed

text \<open>What is published for another execution leaves the log as it is.\<close>

lemma own_log_other:
  assumes "redis_inv (sy_streams y)" and "redis_publishable e" and "ev_execution e \<noteq> ek_execution k"
  shows "own_log k (announce y e) = own_log k y"
proof (cases "ev_workflow e = ek_workflow k")
  case True
  with rlog.hist_same [OF assms(1,2)] obtain xs ys where
    "redis_history (sy_streams y) (ek_workflow k) = xs @ ys"
    "redis_history (redis_publish (sy_streams y) e) (ek_workflow k) = xs @ redis_seen e # ys" by metis
  with assms(3) show ?thesis by (simp add: own_log_def of_execution_def announce_def)
next
  case False
  with rlog.hist_other [OF assms(1,2)] show ?thesis by (simp add: own_log_def announce_def)
qed

subsection \<open>Events the engine takes in its stride\<close>

definition quiet :: "cloud_event \<Rightarrow> bool" where
  "quiet e \<longleftrightarrow> (\<exists>d. ev_data e = GMap d \<and>
     (ev_type e \<in> {''io.flunq.execution.started'', ''io.flunq.task.requested'',
        ''io.flunq.task.completed'', ''io.flunq.timer.scheduled''} \<or>
      ev_type e = ''io.flunq.timer.fired'' \<and> get_str d ''retry_type'' \<noteq> Some ''task_retry''))"

lemma same_core_quiet: "same_core a b \<Longrightarrow> quiet a = quiet b"
  by (simp add: same_core_def quiet_def)

text \<open>The state belongs to the execution.\<close>

definition located :: "exec_key \<Rightarrow> workflow_state \<Rightarrow> bool" where
  "located k s \<longleftrightarrow> ws_workflow s = ek_workflow k \<and> context_ids s = (ek_tenant k, ek_execution k)"

lemma located_completed: "located k (process_task_completed s e) = located k s"
  by (simp add: located_def context_ids_def process_task_completed_def Let_def fail_task_def
      complete_task_fields split: gval.split)

lemma located_requested: "located k (process_task_requested s e) = located k s"
  by (simp add: located_def context_ids_def process_task_requested_def Let_def split: gval.split)

lemma located_started:
  "own k e \<Longrightarrow> ek_workflow k \<noteq> [] \<Longrightarrow> ev_data e = GMap d \<Longrightarrow> located k (process_execution_started s e)"
  by (simp add: located_def own_def context_ids_def process_execution_started_def Let_def split: option.split)

lemma process_quiet:
  assumes "quiet e" and "own k e" and "ek_workflow k \<noteq> []"
  obtains s' where "process_event pub fmt now s e = ([], Inr s')"
    "state_ok s \<Longrightarrow> state_ok s' \<and> progress_of s' = progress_step (progress_of s) e"
    "located k s \<or> ev_type e = ''io.flunq.execution.started'' \<Longrightarrow> located k s'"
proof -
  obtain d where d: "ev_data e = GMap d" using assms(1) by (auto simp: quiet_def)
  have "\<exists>s'. process_event pub fmt now s e = ([], Inr s') \<and>
      (located k s \<or> ev_type e = ''io.flunq.execution.started'' \<longrightarrow> located k s')"
    using assms d located_started [OF assms(2,3) d]
    by (auto simp: quiet_def process_event_def process_timer_fired_def ret_def located_completed located_requested)
  then obtain s' where s': "process_event pub fmt now s e = ([], Inr s')"
    "located k s \<or> ev_type e = ''io.flunq.execution.started'' \<longrightarrow> located k s'" by blast
  then have "snd (process_event pub fmt now s e) = Inr s'" by simp
  with s' that show thesis using state_ok_process_event progress_step_correct by blast
qed

lemma rebuild_quiet:
  assumes "\<forall>e \<in> set es. quiet e \<and> own k e" and "ek_workflow k \<noteq> []"
    and "es \<noteq> []" "ev_type (hd es) = ''io.flunq.execution.started''"
  obtains s where "rebuild_state pub fmt now d es = ([], Inr s)" "state_ok s" "located k s"
    "progress_of s = foldl progress_step \<lparr>pg_status = WCreated, pg_done = [], pg_waiting = []\<rparr> es"
proof -
  have "\<exists>s. rebuild_state pub fmt now d es = ([], Inr s) \<and> located k s"
    using assms
  proof (induction es rule: rev_induct)
    case (snoc e es)
    show ?case
    proof (cases "es = []")
      case True
      then obtain s' where "process_event pub fmt now (empty_state d) e = ([], Inr s')" "located k s'"
        using process_quiet [of e k pub fmt now "empty_state d"] snoc.prems by auto
      with True show ?thesis by (auto simp: rebuild_state_def bind_eff_def)
    next
      case False
      then obtain s where s: "rebuild_state pub fmt now d es = ([], Inr s)" "located k s"
        using snoc by auto
      then obtain s' where "process_event pub fmt now s e = ([], Inr s')" "located k s'"
        using process_quiet [of e k pub fmt now s] snoc.prems by auto
      with s show ?thesis by (auto simp: rebuild_append)
    qed
  qed simp
  then obtain s where s: "rebuild_state pub fmt now d es = ([], Inr s)" "located k s" by blast
  then have "snd (rebuild_state pub fmt now d es) = Inr s" by simp
  with s that show thesis using rebuild_ok rebuild_progress by blast
qed

subsection \<open>The worker\<close>

text \<open>The progress of an execution as its log tells it.\<close>

definition log_progress :: "exec_key \<Rightarrow> system \<Rightarrow> progress" where
  "log_progress k y = foldl progress_step \<lparr>pg_status = WCreated, pg_done = [], pg_waiting = []\<rparr> (own_log k y)"

definition readable :: "exec_key \<Rightarrow> system \<Rightarrow> bool" where
  "readable k y \<longleftrightarrow> one_tenant k y \<and> ek_workflow k \<noteq> [] \<and> (\<forall>e \<in> set (own_log k y). quiet e) \<and>
     own_log k y \<noteq> [] \<and> ev_type (hd (own_log k y)) = ''io.flunq.execution.started''"

lemma emitted_append: "emitted (a @ b) = emitted a @ emitted b"
  by (induction a) simp_all

lemma handle_readable:
  assumes y: "readable k y" and env: "worker_sees g y env"
    and d: "st_definition g (ek_tenant k) (ek_workflow k) = Inr d"
    and e: "own k e" "quiet e" "\<not> skips e" "progress_step (log_progress k y) e = log_progress k y"
  obtains s where "state_ok s" "located k s" "progress_of s = log_progress k y"
    "\<And>outs s2. execute_next_sdl_step env s d = (outs, Inr s2) \<Longrightarrow>
       process_workflow_event env e = (outs @ [StoreState (ws_workflow s2) s2], Inr (Some s2))"
proof -
  have k: "ek_workflow k \<noteq> []" "ek_execution k \<noteq> []" using y by (simp_all add: readable_def one_tenant_def)
  have all: "\<forall>e \<in> set (own_log k y). quiet e \<and> own k e" "own_log k y \<noteq> []"
    "ev_type (hd (own_log k y)) = ''io.flunq.execution.started''"
    using y by (auto simp: readable_def one_tenant_def)
  obtain s where s: "rebuild_state (we_pub env) (we_fmt env) (we_now env) d (own_log k y) = ([], Inr s)"
    "state_ok s" "located k s" "progress_of s = log_progress k y"
    using rebuild_quiet [OF all(1) k(1) all(2,3)] unfolding log_progress_def by metis
  obtain s1 where s1: "process_event (we_pub env) (we_fmt env) (we_now env) s e = ([], Inr s1)"
    "state_ok s1 \<and> progress_of s1 = progress_step (progress_of s) e" "located k s1"
    using process_quiet [OF e(2,1) k(1)] s(2,3) by metis
  have h: "history_for env e = Inr (own_log k y)" "we_definition env (ev_tenant e) (ev_workflow e) = Inr d"
    using env e(1) k d
    by (simp_all add: history_for_def fetch_history_for_execution_def fetch_complete_history_def
        worker_sees_def own_def own_log_def)
  have f: "we_fault env = (\<lambda>_. None)" using env by (simp add: worker_sees_def)
  have "process_workflow_event env e = (outs @ [StoreState (ws_workflow s2) s2], Inr (Some s2))"
    if "execute_next_sdl_step env s1 d = (outs, Inr s2)" for outs s2
    using that e(3) h s(1) s1(1) f
    by (simp add: process_workflow_event_def handle_event_def map_out_def perform_def lift_res_def ret_def)
  moreover have "progress_of s1 = log_progress k y" using s1(2) s(4) e(4) by simp
  ultimately show thesis using that s1 by blast
qed

lemma consume_first:
  assumes "process_workflow_event env1 e = (outs, Inr r)" and "we_fault env3 = (\<lambda>_. None)"
  shows "emitted (consume env1 env2 env3 e) = emitted outs"
  using assms by (simp add: consume_def worker_handle_def emitted_append perform_def)

subsection \<open>Completions and requests\<close>

text \<open>An event as a reader sees it that completes the task, reports its failure, or asks for it.\<close>

definition completion_of :: "exec_key \<Rightarrow> string \<Rightarrow> cloud_event \<Rightarrow> bool" where
  "completion_of k name e \<longleftrightarrow> own k e \<and> quiet e \<and> \<not> skips e \<and>
     ev_type e \<in> {''io.flunq.task.completed'', ''io.flunq.timer.fired''} \<and>
     (\<exists>d. ev_data e = GMap d \<and> task_success d \<and> completed_task_name d = name)"

definition failure_of :: "exec_key \<Rightarrow> string \<Rightarrow> cloud_event \<Rightarrow> bool" where
  "failure_of k name e \<longleftrightarrow> own k e \<and> quiet e \<and> \<not> skips e \<and> ev_type e = ''io.flunq.task.completed'' \<and>
     (\<exists>d. ev_data e = GMap d \<and> \<not> task_success d \<and> completed_task_name d = name)"

definition request_for :: "exec_key \<Rightarrow> string \<Rightarrow> cloud_event \<Rightarrow> bool" where
  "request_for k name e \<longleftrightarrow> own k e \<and> quiet e \<and> ev_type e = ''io.flunq.task.requested'' \<and>
     (\<exists>d. ev_data e = GMap d \<and> get_str d ''task_name'' = Some name)"

text \<open>An event that can be published, with data.\<close>

definition sendable :: "exec_key \<Rightarrow> cloud_event \<Rightarrow> bool" where
  "sendable k e \<longleftrightarrow> redis_publishable e \<and> own k e \<and> (\<exists>d. to_wire (ev_data e) = Some (GMap d))"

lemma quiet_wake: "should_process_event worker_filters e \<longleftrightarrow>
    ev_type e \<in> {''io.flunq.workflow.created'', ''io.flunq.execution.started'',
                 ''io.flunq.task.completed'', ''io.flunq.timer.fired''}"
  "should_process_event task_filters e \<longleftrightarrow> ev_type e = ''io.flunq.task.requested''"
  "should_process_event timer_filters e \<longleftrightarrow> ev_type e = ''io.flunq.timer.scheduled''"
  by (auto simp: should_process_event_def worker_filters_def task_filters_def timer_filters_def)

lemma completion_progress:
  assumes "completion_of k name e"
  shows "progress_step p e = p\<lparr>pg_done := note_done name (pg_done p),
      pg_waiting := remove_first (\<lambda>w. fst w = name) (pg_waiting p)\<rparr>"
    and "success_name e = Some name"
  using assms by (auto simp: completion_of_def quiet_def progress_step_def outcome_def success_name_def)

lemma completion_again:
  assumes "completion_of k name e" and "name \<in> set (pg_done p)" and "pg_waiting p = []"
  shows "progress_step p e = p"
  using assms(2,3) by (simp add: completion_progress [OF assms(1)] note_done_def)

lemma failure_progress:
  assumes "failure_of k name e"
  shows "progress_step p e = p\<lparr>pg_status := WFailed\<rparr>" and "success_name e = None"
  using assms by (auto simp: failure_of_def progress_step_def outcome_def success_name_def)

lemma request_progress:
  assumes "request_for k name e"
  shows "\<exists>c. progress_step p e = p\<lparr>pg_waiting := pg_waiting p @ [(name, c)]\<rparr>" and "success_name e = None"
  using assms by (auto simp: request_for_def progress_step_def success_name_def str_or_empty_def)

lemma sendableI:
  "service_time (ev_time e) \<or> scheduler_time (ev_time e) \<Longrightarrow> own k e \<Longrightarrow> plain_id (ek_workflow k) \<Longrightarrow>
   to_wire (ev_data e) = Some (GMap d) \<Longrightarrow> sendable k e"
  by (auto simp: sendable_def redis_publishable_def own_def service_time_def scheduler_time_def
      rfc3339_range_def second_def zero_time_def)

lemma sendable_data: "sendable k e \<Longrightarrow> to_wire (ev_data e) = Some (GMap d) \<Longrightarrow> ev_data (redis_seen e) = GMap d"
  by (simp add: redis_seen_def)

lemma own_seen: "own k (redis_seen e) = own k e"
  by (simp add: own_def)

lemma is_wire_filter: "is_wire_map m \<Longrightarrow> is_wire_map (filter p m)"
proof (induction m)
  case (Cons x m)
  then show ?case by (cases x) auto
qed simp

lemma request_input_wire: "is_wire_map m \<Longrightarrow> is_wire_map (request_input m)"
  unfolding request_input_def by (rule is_wire_filter)

lemma is_wire_map_append [simp]: "is_wire_map (a @ b) = (is_wire_map a \<and> is_wire_map b)"
  by (induction a) auto

lemma request_parameters_wire: "is_wire_map m \<Longrightarrow> is_wire_map (request_parameters p m)"
  by (auto simp: request_parameters_def Let_def
      intro!: is_wire_map_merge_into dest: get_map_is_wire is_wire_map_get split: option.splits)

lemma task_outputs_wire:
  "is_wire_map acc \<Longrightarrow> list_all (\<lambda>c. opt_ok is_wire_map (td_output (ct_data c))) cs \<Longrightarrow>
   is_wire_map (task_outputs acc cs)"
  by (induction acc cs rule: task_outputs.induct)
    (auto simp: opt_ok_def is_wire_map_put split: option.splits)

lemma request_context_wire: "state_ok s \<Longrightarrow> is_wire_map (request_context s)"
  by (auto simp: request_context_def Let_def state_ok_def opt_ok_def task_outputs_wire split: option.splits)

lemma context_ids_pair: "located k s \<Longrightarrow> fst (context_ids s) = ek_tenant k" "located k s \<Longrightarrow> snd (context_ids s) = ek_execution k"
  "located k s \<Longrightarrow> ws_workflow s = ek_workflow k" "located k s \<Longrightarrow> located k (current_step_set s d)"
  by (simp_all add: located_def context_ids_def)

lemma task_requested_sendable:
  assumes s: "state_ok s" "located k s" and k: "plain_id (ek_workflow k)" and t: "service_time now"
    and p: "opt_ok is_wire_map (pt_input p)"
  shows "sendable k (task_requested_event now p s)"
    and "request_for k (pt_name p) (redis_seen (task_requested_event now p s))"
    and "\<exists>m. to_wire (ev_data (task_requested_event now p s)) = Some (GMap m)"
proof -
  let ?e = "task_requested_event now p s"
  let ?i = "case pt_input p of Some m \<Rightarrow> request_input m | None \<Rightarrow> []"
  let ?r = "case pt_input p of Some m \<Rightarrow> request_parameters p m | None \<Rightarrow> []"
  have own: "own k ?e" "ev_type ?e = ''io.flunq.task.requested''" "ev_time ?e = now"
    using s(2) by (simp_all add: task_requested_event_def own_def located_def Let_def)
  have w: "wire_map ?i = Some ?i" "wire_map ?r = Some ?r" "wire_map (request_context s) = Some (request_context s)"
    using p request_context_wire [OF s(1)]
    by (auto simp: opt_ok_def request_input_wire request_parameters_wire intro!: wire_fixed split: option.splits)
  have c: "context_ids s = (ek_tenant k, ek_execution k)" using s(2) by (simp add: located_def)
  from w have "\<exists>m. to_wire (ev_data ?e) = Some (GMap m) \<and> get_str m ''task_name'' = Some (pt_name p)"
    by (simp add: task_requested_event_def Let_def get_str_def c)
  then obtain m where m: "to_wire (ev_data ?e) = Some (GMap m)" "get_str m ''task_name'' = Some (pt_name p)"
    by blast
  show "sendable k ?e" by (rule sendableI [OF _ own(1) k m(1)]) (simp add: own(3) t)
  then have "ev_data (redis_seen ?e) = GMap m" using m(1) by (rule sendable_data)
  then show "request_for k (pt_name p) (redis_seen ?e)"
    using own m(2) by (simp add: request_for_def own_seen quiet_def)
  show "\<exists>m. to_wire (ev_data ?e) = Some (GMap m)" using m by blast
qed

subsection \<open>What the worker does with each kind of task\<close>

text \<open>A set task is run by the worker, which publishes its completion.\<close>

lemma set_step:
  assumes d: "do_definition d ts" "distinct (map fst ts)" "(name, GMap b) \<in> set ts" "name \<noteq> []"
    and w: "is_wire_map (dsl_map d)" and b: "set_task b m"
    and v: "to_wire (set_data_for (format_rfc3339 (we_now env)) (GMap m) s) = Some (GMap v)"
    and s: "located k s" and k: "plain_id (ek_workflow k)"
    and env: "we_fault env = (\<lambda>_. None)" "service_time (we_now env)"
  obtains e s' where "request_next env s (new_task (we_now env) d name s) = ([Emit e], Inr s')"
    "sendable k e" "completion_of k name (redis_seen e)"
proof -
  let ?p = "new_task (we_now env) d name s"
  have ty: "pt_type ?p = ''set''" "pt_name ?p = name"
    using do_definition_input(2) [OF d(1-3)] b
    by (simp_all add: new_task_def recognised_type_def has_key_def set_task_def)
  have "is_wire_map b" using do_definition_wire [OF d(1) w d(3)] by simp
  then have "wire_map b = Some b" by (rule wire_fixed)
  moreover have "task_parameters (format_rfc3339 (we_now env)) b s =
      [(''set_data'', set_data_for (format_rfc3339 (we_now env)) (GMap m) s)]"
    using b by (simp add: task_parameters_def set_task_def wait_duration_def get_map_def)
  ultimately obtain i where i: "pt_input ?p = Some i" "map_of i ''set_data'' = Some (GMap v)"
    using do_definition_input(1) [OF d(1-3), of "we_now env" s] v by (simp add: new_task_def)
  have wi: "wire_map i = Some i"
    using i(1) by (auto simp: new_task_def intro: wire_map_idem)
  obtain s' td where x: "execute_set_task (we_now env) (we_now env) ?p s = Inr (s', td)"
    "s' = s\<lparr>ws_vars := Some (put_values (vars_of s) v)\<rparr>" "td_output td = Some i"
    using i by (simp add: execute_set_task_def)
  let ?e = "task_completed_event (we_now env) (we_uuid env) ?p td s'"
  have r: "request_next env s ?p = ([Emit ?e], Inr s')"
    using ty(1) x(1) env(1) by (simp add: request_next_def execute_task_def publish_task_completed_def
        perform_def bind_eff_def wrap_eff_def ret_def lift_res_def)
  have c: "context_ids s' = (ek_tenant k, ek_execution k)" "ws_workflow s' = ek_workflow k"
    using s by (simp_all add: x(2) located_def context_ids_def)
  have f: "own k ?e" "ev_type ?e = ''io.flunq.task.completed''" "ev_source ?e = ''workflow-engine''"
    "ev_time ?e = we_now env"
    by (simp_all add: task_completed_event_def own_def Let_def c)
  have "\<exists>m. to_wire (ev_data ?e) = Some (GMap m) \<and> get_str m ''task_name'' = Some name \<and>
      get_bool m ''success'' = Some True"
    using wi ty(2) i(1) x(3) by (simp add: task_completed_event_def Let_def c get_str_def get_bool_def)
  then obtain m' where m': "to_wire (ev_data ?e) = Some (GMap m')" "get_str m' ''task_name'' = Some name"
    "get_bool m' ''success'' = Some True" by blast
  have se: "sendable k ?e" by (rule sendableI [OF _ f(1) k m'(1)]) (simp add: f(4) env(2))
  then have "ev_data (redis_seen ?e) = GMap m'" using m'(1) by (rule sendable_data)
  then have "completion_of k name (redis_seen ?e)"
    using f completed_fields [OF m'(2) d(4) m'(3)]
    by (simp add: completion_of_def own_seen quiet_def skips_def)
  with r se that show thesis by blast
qed

text \<open>Calls and try blocks are requested from the executor.\<close>

lemma request_step:
  assumes d: "do_definition d ts" "distinct (map fst ts)" "(name, GMap b) \<in> set ts"
    and b: "recognised_type b \<in> {Some ''call'', Some ''try''}"
    and s: "state_ok s" "located k s" and k: "plain_id (ek_workflow k)"
    and env: "we_fault env = (\<lambda>_. None)" "service_time (we_now env)"
  obtains e m where "request_next env s (new_task (we_now env) d name s) = ([Emit e], Inr s)"
    "sendable k e" "request_for k name (redis_seen e)" "ev_data (redis_seen e) = GMap m"
    "\<forall>x r. ev_data x = GMap m \<and> own k x \<and> parse_task_request x = Inr r \<longrightarrow> may_request k d name r"
proof -
  let ?p = "new_task (we_now env) d name s"
  let ?e = "task_requested_event (we_now env) ?p s"
  have ty: "pt_type ?p = ''call'' \<or> pt_type ?p = ''try''" "pt_name ?p = name" "opt_ok is_wire_map (pt_input ?p)"
    using do_definition_input(2) [OF d] b by (auto simp: new_task_def)
  note t = task_requested_sendable [OF s k env(2) ty(3)]
  obtain m where m: "to_wire (ev_data ?e) = Some (GMap m)" using t(3) by blast
  have "request_next env s ?p = ([Emit ?e], Inr s)"
    using ty(1) env(1) by (auto simp: request_next_def publish_task_requested_def perform_def
        bind_eff_def wrap_eff_def ret_def)
  moreover have "may_request k d name r" if "ev_data x = GMap m" "own k x" "parse_task_request x = Inr r" for x r
    using that m s context_ids_pair(3) [OF s(2)] unfolding may_request_def by blast
  ultimately show thesis using that t(1,2) sendable_data [OF t(1) m] ty(2) by metis
qed

text \<open>Waits are scheduled with the timer service. What it keeps of the event is a timer of the task
  that is due in a second before 2038.\<close>

definition timer_for :: "exec_key \<Rightarrow> string \<Rightarrow> timer_payload \<Rightarrow> bool" where
  "timer_for k name p \<longleftrightarrow> own_timer k p \<and> tp_name p = name"

definition scheduled_as :: "exec_key \<Rightarrow> string \<Rightarrow> gmap \<Rightarrow> timer_payload \<Rightarrow> int \<Rightarrow> bool" where
  "scheduled_as k name m p sec \<longleftrightarrow> timer_for k name p \<and> 1 \<le> sec \<and> sec \<le> 2 ^ 31 \<and>
     (\<forall>z e. ev_data e = GMap m \<longrightarrow> register_timer no_faults z e = (put p (of_int sec) z, Inr ()))"

lemma wait_seconds:
  assumes "service_time now" and "n \<le> 100000000" and "sec = (now + int n * 1000000000) div 1000000000"
  shows "1 \<le> sec" "sec \<le> 2 ^ 31" "rfc3339_range (now + int n * 1000000000)"
    "whole_seconds (now + int n * 1000000000) = sec * 1000000000" "int n * 1000000000 < 2 ^ 63"
proof -
  have b: "1000000000 \<le> now" "now \<le> 2000000000 * 1000000000" "0 \<le> int n * 1000000000"
    "int n * 1000000000 \<le> 100000000 * 1000000000"
    using assms(1,2) by (simp_all add: service_time_def second_def)
  define t where "t = now + int n * 1000000000"
  have t: "1000000000 \<le> t" "t \<le> 2100000000 * 1000000000" using b by (simp_all add: t_def)
  have sec: "sec = t div 1000000000" using assms(3) by (simp add: t_def)
  show "1 \<le> sec" using zdiv_mono1 [OF t(1), of 1000000000] by (simp add: sec)
  show "sec \<le> 2 ^ 31" using zdiv_mono1 [OF t(2), of 1000000000] by (simp add: sec)
  show "rfc3339_range (now + int n * 1000000000)"
    using t unfolding t_def by (simp add: rfc3339_range_def second_def zero_time_def)
  show "whole_seconds (now + int n * 1000000000) = sec * 1000000000"
    by (simp add: whole_seconds_def second_def sec t_def)
  show "int n * 1000000000 < 2 ^ 63" using b(4) by simp
qed

lemma wait_step:
  assumes d: "do_definition d ts" "distinct (map fst ts)" "(name, GMap b) \<in> set ts"
    and w: "is_wire_map (dsl_map d)" and b: "wait_task b (''PT'' @ nat_digits n @ ''S'')" and n: "n \<le> 100000000"
    and s: "located k s" and k: "plain_id (ek_workflow k)"
    and env: "we_fault env = (\<lambda>_. None)" "service_time (we_now env)"
  obtains e m p sec where "request_next env s (new_task (we_now env) d name s) = ([Emit e], Inr s)"
    "sendable k e" "ev_type e = ''io.flunq.timer.scheduled''" "ev_data (redis_seen e) = GMap m"
    "scheduled_as k name m p sec"
proof -
  let ?dur = "int n * 1000000000"
  let ?e = "timer_scheduled_event (we_now env) (we_uuid env) (ek_tenant k) (ek_workflow k) (ek_execution k) name ?dur"
  define sec where "sec = (we_now env + ?dur) div 1000000000"
  note sec = wait_seconds [OF env(2) n sec_def]
  have r: "request_next env s (new_task (we_now env) d name s) = ([Emit ?e], Inr s)"
    using wait_request_seconds [OF d w b sec(5), of env s] env(1) context_ids_pair(1-3) [OF s] by simp
  define p where "p = \<lparr>tp_tenant = ek_tenant k, tp_workflow = ek_workflow k,
     tp_execution = ek_execution k, tp_task = name, tp_name = name,
     tp_fire_at = format_rfc3339 (we_now env + ?dur), tp_duration_ms = milliseconds ?dur\<rparr>"
  have "0 \<le> ?dur" by simp
  from scheduled_payload [OF this sec(5)] obtain m where m: "to_wire (ev_data ?e) = Some (GMap m)"
    "decode_payload (GMap m) = Inr p" unfolding p_def by metis
  have "parse_rfc3339 (tp_fire_at p) = Some (sec * 1000000000)"
    using parse_format_in_range [OF sec(3)] by (simp add: p_def sec(4))
  moreover have "score_of_time (sec * 1000000000) = of_int sec" using score_exact [of sec] sec(1,2) by simp
  ultimately have "register_timer no_faults z x = (put p (of_int sec) z, Inr ())" if "ev_data x = GMap m" for z x
    using m(2) that by (simp add: register_timer_def)
  then have q: "scheduled_as k name m p sec"
    using sec(1,2) by (simp add: scheduled_as_def timer_for_def own_timer_def p_def)
  have "own k ?e" "ev_time ?e = we_now env" by (simp_all add: timer_scheduled_event_def own_def)
  then have se: "sendable k ?e" using sendableI [OF _ _ k m(1)] env(2) by simp
  have "ev_type ?e = ''io.flunq.timer.scheduled''" by (simp add: timer_scheduled_event_def)
  with r se sendable_data [OF se m(1)] q that show thesis by blast
qed

lemma fired_step:
  assumes "timer_for k name p" and "name \<noteq> []" and "plain_id (ek_workflow k)" and "scheduler_time t"
  shows "sendable k (timer_fired_event t p)" "completion_of k name (redis_seen (timer_fired_event t p))"
proof -
  let ?e = "timer_fired_event t p"
  let ?d = "[(''tenant_id'', GStr (tp_tenant p)), (''workflow_id'', GStr (tp_workflow p)),
         (''execution_id'', GStr (tp_execution p)), (''task_id'', GStr (tp_task p)),
         (''task_name'', GStr (tp_name p)), (''scheduled_for'', GStr (tp_fire_at p)),
         (''fired_at'', GStr (format_rfc3339 t))]"
  have e: "own k ?e" "ev_time ?e = t" "ev_type ?e = ''io.flunq.timer.fired''" "to_wire (ev_data ?e) = Some (GMap ?d)"
    using assms(1) by (simp_all add: timer_fired_event_def own_def timer_for_def own_timer_def)
  show s: "sendable k ?e" by (rule sendableI [OF _ e(1) assms(3) e(4)]) (simp add: e(2) assms(4))
  have "tp_name p = name" using assms(1) by (simp add: timer_for_def)
  then show "completion_of k name (redis_seen ?e)"
    using sendable_data [OF s e(4)] e(1,3) assms(2)
    by (simp add: completion_of_def own_seen quiet_def skips_def completed_task_name_def task_success_def
        str_or_empty_def get_str_def get_bool_def)
qed

text \<open>The answer of the executor to a request.\<close>

lemma executor_step:
  assumes x: "own k x" "parse_task_request x = Inr r" "rq_name r = name" "name \<noteq> []"
    and r: "rq_workflow r = ek_workflow k" "rq_execution r = ek_execution k"
    and k: "plain_id (ek_workflow k)" and now: "service_time now"
    and env: "answers env r t" "ye_pub env = (\<lambda>_. None)"
  obtains e where "answered_with (task_consume (\<lambda>_. None) env now x) = [e]" "sendable k e"
    "if tr_success t then completion_of k name (redis_seen e) else failure_of k name (redis_seen e)"
proof -
  obtain f i out where t: "registry env (rq_type r) = Some f" "f r = ([], Inr t)" "same_task r t"
    "to_wire (map_or_nil (tr_input t)) = Some i" "to_wire (map_or_nil (tr_output t)) = Some out"
    using env(1) by (auto simp: answers_def)
  let ?e = "result_event now (ev_tenant x) t"
  have "process_task_event env now x = ([?e], Inr ())"
    using x(2) t(1,2) env(2) by (simp add: process_task_event_def)
  then have a: "answered_with (task_consume (\<lambda>_. None) env now x) = [?e]"
    by (simp add: task_consume_def acknowledge_event_def exec_send_def)
  obtain d where d: "to_wire (ev_data ?e) = Some (GMap d)" using result_event_wire_ex [OF t(4,5)] by blast
  have own: "own k ?e" using x(1) r t(3) by (simp add: own_def same_task_def)
  have se: "sendable k ?e" by (rule sendableI [OF _ own k d]) (simp add: now)
  have "tr_name t = name" using t(3) x(3) by (simp add: same_task_def)
  then have "task_success d = tr_success t" "completed_task_name d = name"
    using result_event_wire(1,2) [OF t(4,5) d] completed_fields [of d name "tr_success t"] x(4) by auto
  then have "if tr_success t then completion_of k name (redis_seen ?e) else failure_of k name (redis_seen ?e)"
    using own sendable_data [OF se d] by (simp add: completion_of_def failure_of_def own_seen quiet_def skips_def)
  with a se that show thesis by blast
qed

end
