(* ===== verification/Deployment_Runs.thy ===== *)
theory Deployment_Runs
  imports Deployment_Steps
begin

text \<open>
  One execution in a deployment: the stage it is at, as an inductive relation that counts the
  steps left, and the step each service takes from one stage to the next. Other executions may
  be under way; the stage is read off the events and timers of this one.
\<close>

subsection \<open>The stages of an execution\<close>

text \<open>What is assumed of the workflow, its tasks and the deployment.\<close>

definition ready :: "setting \<Rightarrow> exec_key \<Rightarrow> workflow_definition \<Rightarrow> (string \<times> gval) list \<Rightarrow> bool" where
  "ready g k d ts \<longleftrightarrow>
     st_definition g (ek_tenant k) (ek_workflow k) = Inr d \<and> plain_id (ek_workflow k) \<and> ek_execution k \<noteq> [] \<and>
     do_definition d ts \<and> distinct (map fst ts) \<and> is_wire_map (dsl_map d) \<and> list_all (runnable g k d) ts \<and>
     st_executors g \<noteq> {} \<and> 0 < tc_batch (st_timers g) \<and>
     0 \<le> tc_lookahead (st_timers g) \<and> tc_lookahead (st_timers g) \<le> 2 ^ 60"

text \<open>The first \<open>j\<close> tasks have run, and the log holds this and the requests.\<close>

definition stands ::
  "workflow_status \<Rightarrow> exec_key \<Rightarrow> (string \<times> gval) list \<Rightarrow> nat \<Rightarrow> (string \<times> gmap option) list \<Rightarrow> system \<Rightarrow> bool" where
  "stands st k ts j ws y \<longleftrightarrow> readable k y \<and> j \<le> length ts \<and>
     log_progress k y = \<lparr>pg_status = st, pg_done = map fst (take j ts), pg_waiting = ws\<rparr> \<and>
     List.map_filter success_name (own_log k y) = map fst (take j ts) \<and> completions (own_log k y) = 0"

abbreviation "standing \<equiv> stands WRunning"

text \<open>The execution has failed at the task with the number \<open>j\<close>, for which it keeps waiting.\<close>

definition stalled ::
  "setting \<Rightarrow> exec_key \<Rightarrow> workflow_definition \<Rightarrow> (string \<times> gval) list \<Rightarrow> nat \<Rightarrow> system \<Rightarrow> bool" where
  "stalled g k d ts j y \<longleftrightarrow> j < length ts \<and> may_fail g k d (ts ! j) \<and>
     (\<exists>c. stands WFailed k ts j [(fst (ts ! j), c)] y)"

text \<open>What is under way for the execution.\<close>

definition boxes ::
  "exec_key \<Rightarrow> system \<Rightarrow> cloud_event list \<times> cloud_event list \<times> cloud_event list \<times> cloud_event list \<times> zset" where
  "boxes k y = (filter (own k) (sy_starts y), filter (own k) (sy_worker y), filter (own k) (sy_executor y),
     filter (own k) (sy_timer y), filter (\<lambda>x. own_timer k (fst x)) (sy_zset y))"

text \<open>Exactly one thing is under way, and the number counts the steps that are left at most: the
  start is to be published, the worker has an event to handle, the executor a request, the timer
  service a timer to register or to fire, a task has failed, or all is over.\<close>

definition start_of :: "exec_key \<Rightarrow> cloud_event \<Rightarrow> bool" where
  "start_of k e \<longleftrightarrow> own k e \<and> ev_type e = ''io.flunq.execution.started'' \<and> redis_publishable e \<and>
     (\<exists>d. to_wire (ev_data e) = Some (GMap d))"

inductive staged :: "setting \<Rightarrow> exec_key \<Rightarrow> workflow_definition \<Rightarrow> (string \<times> gval) list \<Rightarrow> nat \<Rightarrow> system \<Rightarrow> bool"
  for g k d ts where
  waiting: "staged g k d ts (3 * length ts + 2) y"
  if "redis_inv (sy_streams y)" "own_log k y = []" "boxes k y = ([e], [], [], [], [])" "start_of k e"
| triggered: "staged g k d ts (3 * (length ts - j) + 1) y"
  if "standing k ts j [] y" "boxes k y = ([], [e], [], [], [])" "own k e" "quiet e" "\<not> skips e"
    "progress_step (log_progress k y) e = log_progress k y"
| asked: "staged g k d ts (3 * (length ts - j) - 1) y"
  if "standing k ts j [(fst (ts ! j), c)] y" "j < length ts" "boxes k y = ([], [], [x], [], [])"
    "own k x" "parse_task_request x = Inr r" "may_request k d (fst (ts ! j)) r" "rq_name r = fst (ts ! j)"
    "rq_workflow r = ek_workflow k" "rq_execution r = ek_execution k"
    "snd (ts ! j) = GMap b" "recognised_type b \<in> {Some ''call'', Some ''try''}"
| scheduled: "staged g k d ts (3 * (length ts - j)) y"
  if "standing k ts j [] y" "j < length ts" "boxes k y = ([], [], [], [x], [])"
    "ev_data x = GMap m" "scheduled_as k (fst (ts ! j)) m p sec"
| armed: "staged g k d ts (3 * (length ts - j) - 1) y"
  if "standing k ts j [] y" "j < length ts" "boxes k y = ([], [], [], [], [(p, of_int sec)])"
    "timer_for k (fst (ts ! j)) p" "1 \<le> sec" "sec \<le> 2 ^ 31"
| failing: "staged g k d ts 1 y"
  if "stalled g k d ts j y" "boxes k y = ([], [e], [], [], [])" "own k e" "quiet e" "\<not> skips e"
    "progress_step (log_progress k y) e = log_progress k y"
| failed: "staged g k d ts 0 y"
  if "stalled g k d ts j y" "boxes k y = ([], [], [], [], [])"
| over: "staged g k d ts 0 y"
  if "boxes k y = ([], [], [], [], [])" "List.map_filter success_name (own_log k y) = map fst ts"
    "completions (own_log k y) = 1"

lemma boxesD:
  assumes "boxes k y = (s, a, b, c, z)"
  shows "filter (own k) (sy_starts y) = s" "filter (own k) (sy_worker y) = a"
    "filter (own k) (sy_executor y) = b" "filter (own k) (sy_timer y) = c"
    "filter (\<lambda>x. own_timer k (fst x)) (sy_zset y) = z"
  using assms by (simp_all add: boxes_def)

text \<open>The log depends on the streams only.\<close>

lemma own_log_cong: "sy_streams y' = sy_streams y \<Longrightarrow> own_log k y' = own_log k y"
  by (simp add: own_log_def)

lemma stands_cong:
  "stands st k ts j ws y \<Longrightarrow> own_log k y' = own_log k y \<Longrightarrow> redis_inv (sy_streams y') \<Longrightarrow> stands st k ts j ws y'"
  by (simp add: stands_def readable_def one_tenant_def log_progress_def)

lemma stalled_cong:
  "stalled g k d ts j y \<Longrightarrow> own_log k y' = own_log k y \<Longrightarrow> redis_inv (sy_streams y') \<Longrightarrow> stalled g k d ts j y'"
  using stands_cong unfolding stalled_def by blast

lemma stands_inv: "stands st k ts j ws y \<Longrightarrow> redis_inv (sy_streams y)"
  by (simp add: stands_def readable_def one_tenant_def)

lemma stands_keep:
  assumes "stands st k ts j ws y" and "sy_streams y' = sy_streams y"
  shows "stands st k ts j ws y'"
  by (rule stands_cong [OF assms(1) own_log_cong [OF assms(2)]])
    (use stands_inv [OF assms(1)] assms(2) in simp)

lemma staged_cong:
  assumes "staged g k d ts m y" and l: "own_log k y' = own_log k y" and b: "boxes k y' = boxes k y"
    and i: "redis_inv (sy_streams y')"
  shows "staged g k d ts m y'"
  using assms(1)
proof cases
  case (waiting e)
  then show ?thesis using staged.waiting [of y' k e g d ts] l b i by simp
next
  case (triggered j e)
  then show ?thesis
    using staged.triggered [of k ts j y' e g d] stands_cong [OF triggered(2) l i] l b
    by (simp add: log_progress_def)
next
  case (asked j c x r b')
  then show ?thesis using staged.asked [of k ts j c y' x r d b' g] stands_cong [OF asked(2) l i] b by simp
next
  case (scheduled j x m0 p sec)
  then show ?thesis using staged.scheduled [of k ts j y' x m0 p sec g d] stands_cong [OF scheduled(2) l i] b by simp
next
  case (armed j p sec)
  then show ?thesis using staged.armed [of k ts j y' p sec g d] stands_cong [OF armed(2) l i] b by simp
next
  case (failing j e)
  then show ?thesis
    using staged.failing [of g k d ts j y' e] stalled_cong [OF failing(2) l i] l b by (simp add: log_progress_def)
next
  case (failed j)
  then show ?thesis using staged.failed [of g k d ts j y'] stalled_cong [OF failed(2) l i] b by simp
next
  case over
  then show ?thesis using staged.over [of k y' ts g d] l b by simp
qed

text \<open>An event that is published is handed to the services that ask for it, and to no other
  execution.\<close>

lemma announce_boxes:
  assumes e: "sendable k e" and b: "boxes k y = (s, u, v, w, z)"
  obtains x where "same_core x (redis_seen e)"
    "boxes k (announce y e) =
       (s, u @ (if should_process_event worker_filters (redis_seen e) then [x] else []),
        v @ (if should_process_event task_filters (redis_seen e) then [x] else []),
        w @ (if should_process_event timer_filters (redis_seen e) then [x] else []), z)"
proof -
  obtain d where d: "redis_publishable e" "to_wire (ev_data e) = Some (GMap d)" "own k e"
    using e by (auto simp: sendable_def)
  obtain x where x: "same_core x (redis_seen e)"
    "\<And>f. arrivals f (sy_streams y) e = (if should_process_event f (redis_seen e) then [x] else [])"
    using arrivals_core [OF d(1,2), of "sy_streams y"] by metis
  moreover have "own k x" using x(1) d(3) by (simp add: same_core_own own_seen)
  ultimately show thesis using that [of x] boxesD [OF b] by (simp add: announce_def boxes_def)
qed

text \<open>When nothing else is under way.\<close>

definition arrived :: "cloud_event \<Rightarrow> cloud_event \<Rightarrow>
    cloud_event list \<times> cloud_event list \<times> cloud_event list \<times> cloud_event list \<times> zset" where
  "arrived e x = ([], if should_process_event worker_filters e then [x] else [],
     if should_process_event task_filters e then [x] else [],
     if should_process_event timer_filters e then [x] else [], [])"

lemma announce_empty:
  assumes "sendable k e" and "boxes k y = ([], [], [], [], [])"
  obtains x where "same_core x (redis_seen e)" "boxes k (announce y e) = arrived (redis_seen e) x"
proof -
  from announce_boxes [OF assms] obtain x where "same_core x (redis_seen e)"
    "boxes k (announce y e) =
       ([], [] @ (if should_process_event worker_filters (redis_seen e) then [x] else []),
        [] @ (if should_process_event task_filters (redis_seen e) then [x] else []),
        [] @ (if should_process_event timer_filters (redis_seen e) then [x] else []), [])" .
  then show thesis using that by (simp add: arrived_def)
qed

lemma announce_other:
  assumes e: "sendable k' e" "ek_execution k' \<noteq> ek_execution k" and i: "redis_inv (sy_streams y)"
  shows "own_log k (announce y e) = own_log k y \<and> boxes k (announce y e) = boxes k y \<and>
    redis_inv (sy_streams (announce y e))"
proof -
  obtain d where d: "redis_publishable e" "to_wire (ev_data e) = Some (GMap d)" "own k' e"
    using e(1) by (auto simp: sendable_def)
  obtain x where x: "same_core x (redis_seen e)"
    "\<And>f. arrivals f (sy_streams y) e = (if should_process_event f (redis_seen e) then [x] else [])"
    using arrivals_core [OF d(1,2), of "sy_streams y"] by metis
  have "own k' x" using x(1) d(3) by (simp add: same_core_own own_seen)
  then have "\<not> own k x" using e(2) by (simp add: own_def)
  then have "boxes k (announce y e) = boxes k y" by (simp add: boxes_def announce_def x(2))
  moreover have "own_log k (announce y e) = own_log k y"
    by (rule own_log_other [OF i d(1)]) (use d(3) e(2) in \<open>simp add: own_def\<close>)
  moreover have "redis_inv (sy_streams (announce y e))"
    using rlog.inv_pub [OF i d(1)] by (simp add: announce_def)
  ultimately show ?thesis by blast
qed

text \<open>One more event in the log.\<close>

lemma readable_announce:
  assumes y: "readable k y" and e: "sendable k e"
  shows "own_log k (announce y e) = own_log k y @ [redis_seen e]"
    and "log_progress k (announce y e) = progress_step (log_progress k y) (redis_seen e)"
    and "quiet (redis_seen e) \<Longrightarrow> readable k (announce y e)"
proof -
  have "one_tenant k y" "redis_publishable e" "own k e"
    using y e by (simp_all add: readable_def sendable_def)
  then have l: "own_log k (announce y e) = own_log k y @ [redis_seen e]" "one_tenant k (announce y e)"
    using own_log_announce by blast+
  then show "own_log k (announce y e) = own_log k y @ [redis_seen e]"
    "log_progress k (announce y e) = progress_step (log_progress k y) (redis_seen e)"
    by (simp_all add: log_progress_def)
  show "quiet (redis_seen e) \<Longrightarrow> readable k (announce y e)"
    using y l by (auto simp: readable_def)
qed

lemma quiet_type: "quiet e \<Longrightarrow> ev_type e \<noteq> ''io.flunq.workflow.completed''"
  by (auto simp: quiet_def)

lemma map_filter_append: "List.map_filter f (a @ b) = List.map_filter f a @ List.map_filter f b"
  by (simp add: List.map_filter_def)

lemma completions_append: "completions (a @ b) = completions a + completions b"
  by (simp add: completions_def)

lemma standing_event:
  assumes y: "standing k ts j ws y" and e: "sendable k e" "quiet (redis_seen e)" "success_name (redis_seen e) = None"
    and p: "progress_step (log_progress k y) (redis_seen e) = (log_progress k y)\<lparr>pg_waiting := ws'\<rparr>"
  shows "standing k ts j ws' (announce y e)"
  using y readable_announce [of k y e] e quiet_type [OF e(2)] p
  by (simp add: stands_def map_filter_append completions_append map_filter_simps completions_def)

lemma standing_completion:
  assumes y: "standing k ts j ws y" and e: "sendable k e" "completion_of k (fst (ts ! j)) (redis_seen e)"
    and j: "j < length ts" "distinct (map fst ts)" and ws: "ws = [] \<or> ws = [(fst (ts ! j), c)]"
  shows "standing k ts (Suc j) [] (announce y e)"
proof -
  have q: "quiet (redis_seen e)" using e(2) by (simp add: completion_of_def)
  have t: "map fst (take (Suc j) ts) = map fst (take j ts) @ [fst (ts ! j)]"
    using j(1) by (simp add: take_Suc_conv_app_nth)
  have "distinct (map fst (take (Suc j) ts))" using distinct_take [OF j(2), of "Suc j"] by (simp add: take_map)
  then have "fst (ts ! j) \<notin> set (map fst (take j ts))" unfolding t by simp
  then show ?thesis
    using y readable_announce [of k y e] e(1) q quiet_type [OF q] completion_progress [OF e(2)] j(1) ws t
    by (auto simp: stands_def map_filter_append completions_append map_filter_simps completions_def note_done_def)
qed

subsection \<open>One step of the worker\<close>

text \<open>What the worker may publish when the first \<open>j\<close> tasks have run.\<close>

definition asks :: "exec_key \<Rightarrow> workflow_definition \<Rightarrow> string \<times> gval \<Rightarrow> cloud_event \<Rightarrow> bool" where
  "asks k d x e \<longleftrightarrow> request_for k (fst x) (redis_seen e) \<and>
     (\<exists>b. snd x = GMap b \<and> recognised_type b \<in> {Some ''call'', Some ''try''}) \<and>
     (\<forall>z r. ev_data z = ev_data (redis_seen e) \<and> own k z \<and> parse_task_request z = Inr r \<longrightarrow>
        may_request k d (fst x) r)"

definition schedules :: "exec_key \<Rightarrow> string \<times> gval \<Rightarrow> cloud_event \<Rightarrow> bool" where
  "schedules k x e \<longleftrightarrow> ev_type e = ''io.flunq.timer.scheduled'' \<and>
     (\<exists>m p sec. ev_data (redis_seen e) = GMap m \<and> scheduled_as k (fst x) m p sec)"

lemma task_step:
  assumes r: "ready g k d ts" "j < length ts" and s: "state_ok s" "located k s"
    and env: "we_fault env = (\<lambda>_. None)" "service_time (we_now env)"
  obtains e s' where "request_next env s (new_task (we_now env) d (fst (ts ! j)) s) = ([Emit e], Inr s')"
    "sendable k e"
    "completion_of k (fst (ts ! j)) (redis_seen e) \<or> asks k d (ts ! j) e \<or> schedules k (ts ! j) e"
proof -
  have d: "do_definition d ts" "distinct (map fst ts)" "is_wire_map (dsl_map d)" "plain_id (ek_workflow k)"
    using r(1) by (simp_all add: ready_def)
  have "runnable g k d (ts ! j)" using r by (simp add: ready_def list_all_length)
  then obtain name b where x: "ts ! j = (name, GMap b)" "name \<noteq> []" "runnable g k d (name, GMap b)"
    by (cases "ts ! j"; cases "snd (ts ! j)") (auto simp: runnable_def)
  have mem: "(name, GMap b) \<in> set ts" using x(1) r(2) nth_mem by force
  consider (set) m where "set_task b m" "\<And>now s. state_ok s \<Longrightarrow> \<exists>v. to_wire (set_data_for now (GMap m) s) = Some (GMap v)"
    | (wait) n where "n \<le> 100000000" "wait_task b (''PT'' @ nat_digits n @ ''S'')"
    | (exec) "recognised_type b \<in> {Some ''call'', Some ''try''}"
    using x(3) by (auto simp: runnable_def)
  then show thesis
  proof cases
    case set
    obtain v where "to_wire (set_data_for (format_rfc3339 (we_now env)) (GMap m) s) = Some (GMap v)"
      using set(2) [OF s(1)] by blast
    from set_step [OF d(1,2) mem x(2) d(3) set(1) this s(2) d(4) env] that x(1) show thesis
      by (metis fst_conv)
  next
    case wait
    from wait_step [OF d(1,2) mem d(3) wait(2,1) s(2) d(4) env] obtain e m p sec where
      "request_next env s (new_task (we_now env) d name s) = ([Emit e], Inr s)" "sendable k e"
      "ev_type e = ''io.flunq.timer.scheduled''" "ev_data (redis_seen e) = GMap m" "scheduled_as k name m p sec" .
    then show thesis using that x(1) unfolding schedules_def by (metis fst_conv)
  next
    case exec
    from request_step [OF d(1,2) mem exec s d(4) env] obtain e m where
      e: "request_next env s (new_task (we_now env) d name s) = ([Emit e], Inr s)" "sendable k e"
      "request_for k name (redis_seen e)" "ev_data (redis_seen e) = GMap m"
      "\<forall>x r. ev_data x = GMap m \<and> own k x \<and> parse_task_request x = Inr r \<longrightarrow> may_request k d name r" .
    then have "asks k d (ts ! j) e" using exec x(1) unfolding asks_def by auto
    with e(1,2) that x(1) show thesis by (metis fst_conv)
  qed
qed

lemma completed_step:
  assumes s: "state_ok s" "located k s" and k: "plain_id (ek_workflow k)"
    and env: "we_fault env = (\<lambda>_. None)" "service_time (we_now env)"
  obtains e outs s' where "publish_workflow_completed env s = (Emit e # outs, Inr s')" "emitted outs = []"
    "sendable k e" "ev_type e = ''io.flunq.workflow.completed''"
proof -
  let ?e = "workflow_completed_event (we_now env) (we_uuid env) s"
  have "emitted (fst (update_execution_status env eid t)) = []" for eid t
    by (simp add: update_execution_status_def perform_def env(1) split: option.split sum.split)
  moreover have "own k ?e" "ev_time ?e = we_now env" "ev_type ?e = ''io.flunq.workflow.completed''"
    using context_ids_pair(1-3) [OF s(2)] by (simp_all add: workflow_completed_event_def own_def)
  moreover have "\<exists>m. to_wire (ev_data ?e) = Some (GMap m)"
  proof (cases "output_value s")
    case (Some m)
    then have "wire_map m = Some m" using s(1) by (auto simp: state_ok_def intro: wire_fixed)
    with Some show ?thesis by (simp add: workflow_completed_event_def)
  qed (simp add: workflow_completed_event_def)
  ultimately show thesis
    using that workflow_completed_outputs [of env s] env sendableI [OF _ _ k, of ?e] by auto
qed

lemma worker_emits:
  assumes r: "ready g k d ts" and y: "standing k ts j [] y"
    and e: "own k e" "quiet e" "\<not> skips e" "progress_step (log_progress k y) e = log_progress k y"
    and env: "worker_sees g y env1" "worker_sees g y env3"
  obtains e1 where "emitted (consume env1 env2 env3 e) = [e1]" "sendable k e1"
    "if j = length ts then ev_type e1 = ''io.flunq.workflow.completed''
     else completion_of k (fst (ts ! j)) (redis_seen e1) \<or> asks k d (ts ! j) e1 \<or> schedules k (ts ! j) e1"
proof -
  have d: "do_definition d ts" "distinct (map fst ts)" "plain_id (ek_workflow k)"
    "st_definition g (ek_tenant k) (ek_workflow k) = Inr d" using r by (simp_all add: ready_def)
  have f: "we_fault env1 = (\<lambda>_. None)" "service_time (we_now env1)" "we_fault env3 = (\<lambda>_. None)"
    using env by (simp_all add: worker_sees_def)
  have j: "j \<le> length ts" and rd: "readable k y"
    and p: "log_progress k y = \<lparr>pg_status = WRunning, pg_done = map fst (take j ts), pg_waiting = []\<rparr>"
    using y by (simp_all add: stands_def)
  obtain s where s: "state_ok s" "located k s" "progress_of s = log_progress k y"
    "\<And>outs s2. execute_next_sdl_step env1 s d = (outs, Inr s2) \<Longrightarrow>
       process_workflow_event env1 e = (outs @ [StoreState (ws_workflow s2) s2], Inr (Some s2))"
    using handle_readable [OF rd env(1) d(4) e] by metis
  let ?s = "current_step_set s d"
  have s': "state_ok ?s" "located k ?s" using s(1,2) context_ids_pair(4) by simp_all
  note nx = next_step_decision [OF d(1), of env1 s, unfolded s(3) p]
  show thesis
  proof (cases "j = length ts")
    case True
    obtain e1 outs s2 where o: "publish_workflow_completed env1 ?s = (Emit e1 # outs, Inr s2)" "emitted outs = []"
      "sendable k e1" "ev_type e1 = ''io.flunq.workflow.completed''"
      by (rule completed_step [OF s' d(3) f(1,2)])
    have "execute_next_sdl_step env1 s d = (Emit e1 # outs, Inr s2)"
      using nx o(1) True by (simp add: decide_def)
    from consume_first [OF s(4) [OF this] f(3), of env2] o(2-4) True that show thesis
      by (simp add: emitted_append)
  next
    case False
    with j have j': "j < length ts" by simp
    have "distinct (map fst (take (Suc j) ts))" using distinct_take [OF d(2), of "Suc j"] by (simp add: take_map)
    then have "fst (ts ! j) \<notin> set (map fst (take j ts))" using j' by (simp add: take_Suc_conv_app_nth)
    then have dec: "decide (map fst ts) (length ts) (map fst (take j ts)) [] = Request (fst (ts ! j))"
      using j' by (simp add: decide_def)
    obtain e1 s2 where o: "request_next env1 ?s (new_task (we_now env1) d (fst (ts ! j)) ?s) = ([Emit e1], Inr s2)"
      "sendable k e1" "completion_of k (fst (ts ! j)) (redis_seen e1) \<or> asks k d (ts ! j) e1 \<or> schedules k (ts ! j) e1"
      by (rule task_step [OF r j' s' f(1,2)])
    have "execute_next_sdl_step env1 s d = ([Emit e1], Inr s2)" using nx o(1) dec by simp
    from consume_first [OF s(4) [OF this] f(3), of env2] o(2,3) False that show thesis by simp
  qed
qed

subsection \<open>Every step leads on\<close>

lemma one_own: "filter P (a @ e # b) = [x] \<Longrightarrow> P e \<Longrightarrow> x = e \<and> filter P (a @ b) = []"
  by (auto simp: append_eq_Cons_conv)

lemma announce_all_simps [simp]:
  "announce_all [] y = y" "announce_all (e # es) y = announce_all es (announce y e)"
  "announce_all (es @ es') y = announce_all es' (announce_all es y)"
  by (simp_all add: announce_all_def)

lemma after_completion:
  assumes y: "standing k ts j ws y" "boxes k y = ([], [], [], [], [])" and r: "distinct (map fst ts)"
    and e: "sendable k e" "completion_of k (fst (ts ! j)) (redis_seen e)"
    and j: "j < length ts" and ws: "ws = [] \<or> ws = [(fst (ts ! j), c)]"
  shows "staged g k d ts (3 * (length ts - Suc j) + 1) (announce y e)"
proof -
  obtain x where x: "same_core x (redis_seen e)" "boxes k (announce y e) = arrived (redis_seen e) x"
    by (rule announce_empty [OF e(1) y(2)])
  have b: "boxes k (announce y e) = ([], [x], [], [], [])"
    using e(2) by (auto simp: x(2) arrived_def completion_of_def quiet_wake)
  have st: "standing k ts (Suc j) [] (announce y e)"
    by (rule standing_completion [OF y(1) e j r ws])
  have "progress_step (log_progress k (announce y e)) x = log_progress k (announce y e)"
    unfolding same_core_progress [OF x(1)]
    by (rule completion_again [OF e(2)]) (use st j in \<open>auto simp: stands_def take_Suc_conv_app_nth\<close>)
  then show ?thesis
    using staged.triggered [OF st b] e(2) x(1)
    by (simp add: completion_of_def same_core_own same_core_quiet same_core_skips)
qed

lemma after_failure:
  assumes y: "standing k ts j [(fst (ts ! j), c)] y" "boxes k y = ([], [], [], [], [])"
    and e: "sendable k e" "failure_of k (fst (ts ! j)) (redis_seen e)"
    and j: "j < length ts" "may_fail g k d (ts ! j)"
  shows "staged g k d ts 1 (announce y e)"
proof -
  obtain x where x: "same_core x (redis_seen e)" "boxes k (announce y e) = arrived (redis_seen e) x"
    by (rule announce_empty [OF e(1) y(2)])
  have b: "boxes k (announce y e) = ([], [x], [], [], [])"
    using e(2) by (simp add: x(2) arrived_def failure_of_def quiet_wake)
  have q: "quiet (redis_seen e)" using e(2) by (simp add: failure_of_def)
  note f = failure_progress [OF e(2)]
  have st: "stands WFailed k ts j [(fst (ts ! j), c)] (announce y e)"
    using y(1) readable_announce [of k y e] e(1) q quiet_type [OF q] f
    by (simp add: stands_def map_filter_append completions_append map_filter_simps completions_def)
  then have "progress_step (log_progress k (announce y e)) x = log_progress k (announce y e)"
    by (simp add: same_core_progress [OF x(1)] f(1) stands_def)
  moreover have "stalled g k d ts j (announce y e)" using st j by (auto simp: stalled_def)
  ultimately show ?thesis
    using staged.failing [OF _ b] e(2) x(1)
    by (simp add: failure_of_def same_core_own same_core_quiet same_core_skips)
qed

lemma after_request:
  assumes y: "standing k ts j [] y" "boxes k y = ([], [], [], [], [])" and j: "j < length ts"
    and k: "ek_workflow k \<noteq> []" "ek_execution k \<noteq> []"
    and e: "sendable k e" "asks k d (ts ! j) e"
  shows "staged g k d ts (3 * (length ts - j) - 1) (announce y e)"
proof -
  have q: "request_for k (fst (ts ! j)) (redis_seen e)" using e(2) by (simp add: asks_def)
  then obtain m where m: "ev_data (redis_seen e) = GMap m" "get_str m ''task_name'' = Some (fst (ts ! j))"
    by (auto simp: request_for_def)
  obtain b where b: "snd (ts ! j) = GMap b" "recognised_type b \<in> {Some ''call'', Some ''try''}"
    using e(2) by (auto simp: asks_def)
  obtain x where x: "same_core x (redis_seen e)" "boxes k (announce y e) = arrived (redis_seen e) x"
    by (rule announce_empty [OF e(1) y(2)])
  have bx: "boxes k (announce y e) = ([], [], [x], [], [])"
    using q by (auto simp: x(2) arrived_def request_for_def quiet_wake)
  obtain c where "progress_step (log_progress k y) (redis_seen e) =
      (log_progress k y)\<lparr>pg_waiting := pg_waiting (log_progress k y) @ [(fst (ts ! j), c)]\<rparr>"
    using request_progress(1) [OF q] by blast
  moreover have "pg_waiting (log_progress k y) = []" using y(1) by (simp add: stands_def)
  ultimately have st: "standing k ts j [(fst (ts ! j), c)] (announce y e)"
    using standing_event [OF y(1) e(1) _ request_progress(2) [OF q]] q by (simp add: request_for_def)
  have own: "own k x" using q x(1) by (simp add: request_for_def same_core_own)
  have xd: "ev_data x = GMap m" using x(1) m(1) by (simp add: same_core_def)
  then obtain r where r: "parse_task_request x = Inr r" "rq_name r = fst (ts ! j)"
    "rq_workflow r = ek_workflow k" "rq_execution r = ek_execution k"
    using own k m(2) by (simp add: parse_task_request_def string_from_data_def own_def)
  have "may_request k d (fst (ts ! j)) r"
    using e(2) own r(1) xd m(1) unfolding asks_def by metis
  from staged.asked [OF st j bx own r(1) this r(2-4) b] show ?thesis .
qed

lemma after_schedule:
  assumes y: "standing k ts j [] y" "boxes k y = ([], [], [], [], [])" and j: "j < length ts"
    and e: "sendable k e" "schedules k (ts ! j) e"
  shows "staged g k d ts (3 * (length ts - j)) (announce y e)"
proof -
  obtain m p sec where m: "ev_type e = ''io.flunq.timer.scheduled''" "ev_data (redis_seen e) = GMap m"
    "scheduled_as k (fst (ts ! j)) m p sec" using e(2) by (auto simp: schedules_def)
  obtain x where x: "same_core x (redis_seen e)" "boxes k (announce y e) = arrived (redis_seen e) x"
    by (rule announce_empty [OF e(1) y(2)])
  have bx: "boxes k (announce y e) = ([], [], [], [x], [])"
    using m(1) by (simp add: x(2) arrived_def quiet_wake)
  have "success_name (redis_seen e) = None" "quiet (redis_seen e)"
    "progress_step (log_progress k y) (redis_seen e) = (log_progress k y)\<lparr>pg_waiting := []\<rparr>"
    using m y(1) by (simp_all add: success_name_def quiet_def progress_step_def stands_def)
  then have st: "standing k ts j [] (announce y e)" using standing_event [OF y(1) e(1)] by blast
  have "ev_data x = GMap m" using x(1) m(2) by (simp add: same_core_def)
  from staged.scheduled [OF st j bx this m(3)] show ?thesis .
qed

lemma after_end:
  assumes y: "standing k ts (length ts) [] y" "boxes k y = ([], [], [], [], [])"
    and e: "sendable k e" "ev_type e = ''io.flunq.workflow.completed''"
  shows "staged g k d ts 0 (announce y e)"
proof -
  obtain x where x: "same_core x (redis_seen e)" "boxes k (announce y e) = arrived (redis_seen e) x"
    by (rule announce_empty [OF e(1) y(2)])
  have bx: "boxes k (announce y e) = ([], [], [], [], [])"
    using e(2) by (simp add: x(2) arrived_def quiet_wake)
  have l: "own_log k (announce y e) = own_log k y @ [redis_seen e]"
    using readable_announce(1) y(1) e(1) by (simp add: stands_def)
  have "success_name (redis_seen e) = None" using e(2) by (simp add: success_name_def split: option.split)
  then show ?thesis
    using y(1) e(2) l by (intro staged.over [OF bx])
      (simp_all add: stands_def map_filter_append completions_append map_filter_simps completions_def)
qed

text \<open>The first task of an execution is reached when its start is published.\<close>

lemma after_start:
  assumes r: "ready g k d ts" and y: "redis_inv (sy_streams y)" "own_log k y = []" "boxes k y = ([], [], [], [], [])"
    and e: "start_of k e"
  shows "sendable k e" "staged g k d ts (3 * length ts + 1) (announce y e)"
proof -
  have k: "ek_workflow k \<noteq> []" "ek_execution k \<noteq> []" using r by (auto simp: ready_def plain_id_def)
  show se: "sendable k e" using e by (simp add: start_of_def sendable_def)
  have t: "ev_type (redis_seen e) = ''io.flunq.execution.started''" "own k (redis_seen e)"
    using e by (simp_all add: start_of_def own_def)
  obtain m where "ev_data (redis_seen e) = GMap m" using e by (auto simp: start_of_def redis_seen_def)
  then have q: "quiet (redis_seen e)" "\<not> skips (redis_seen e)" "success_name (redis_seen e) = None"
    using t(1) by (simp_all add: quiet_def skips_def success_name_def)
  have p: "progress_step pr (redis_seen e) = pr\<lparr>pg_status := WRunning\<rparr>" for pr
    using t(1) by (simp add: progress_step_def)
  have "one_tenant k y" using y k by (simp add: one_tenant_def)
  then have l: "own_log k (announce y e) = [redis_seen e]" "one_tenant k (announce y e)"
    using own_log_announce [of k y e] se y(2) by (simp_all add: sendable_def)
  then have st: "standing k ts 0 [] (announce y e)"
    using k t q p by (simp add: stands_def readable_def log_progress_def completions_def map_filter_simps)
  obtain x where x: "same_core x (redis_seen e)" "boxes k (announce y e) = arrived (redis_seen e) x"
    by (rule announce_empty [OF se y(3)])
  have b: "boxes k (announce y e) = ([], [x], [], [], [])"
    using t(1) by (simp add: x(2) arrived_def quiet_wake)
  have "progress_step (log_progress k (announce y e)) x = log_progress k (announce y e)"
    using st by (simp add: same_core_progress [OF x(1)] p stands_def)
  then show "staged g k d ts (3 * length ts + 1) (announce y e)"
    using staged.triggered [OF st b, of g d] t(2) q x(1)
    by (simp add: same_core_own same_core_quiet same_core_skips)
qed

subsection \<open>The step of one execution\<close>

text \<open>The API publishes its start.\<close>

lemma start_step:
  assumes r: "ready g k d ts" and y: "staged g k d ts m y" and e: "sy_starts y = a @ e # b" "own k e"
  shows "sendable k e \<and> (\<exists>m' < m. staged g k d ts m' (announce (y\<lparr>sy_starts := a @ b\<rparr>) e))"
  using y
proof cases
  case (waiting e0)
  note o = one_own [OF boxesD(1) [OF waiting(4), unfolded e(1)] e(2)]
  let ?y = "y\<lparr>sy_starts := a @ b\<rparr>"
  have "boxes k ?y = ([], [], [], [], [])" using boxesD [OF waiting(4)] o by (simp add: boxes_def)
  moreover have "redis_inv (sy_streams ?y)" "own_log k ?y = []" using waiting(2,3) own_log_cong [of ?y y] by simp_all
  ultimately show ?thesis
    using after_start [OF r, of ?y e] o waiting(1,5) by (intro conjI exI [of _ "3 * length ts + 1"]) simp_all
qed (use e in \<open>simp_all add: boxes_def\<close>)

text \<open>When a task has failed, the worker waits for it and publishes nothing.\<close>

lemma worker_idles:
  assumes r: "ready g k d ts" and y: "stalled g k d ts j y"
    and e: "own k e" "quiet e" "\<not> skips e" "progress_step (log_progress k y) e = log_progress k y"
    and env: "worker_sees g y env1" "worker_sees g y env3"
  shows "emitted (consume env1 env2 env3 e) = []"
proof -
  have d: "do_definition d ts" "st_definition g (ek_tenant k) (ek_workflow k) = Inr d"
    using r by (simp_all add: ready_def)
  have f: "we_fault env1 = (\<lambda>_. None)" "we_fault env3 = (\<lambda>_. None)" using env by (simp_all add: worker_sees_def)
  obtain c where rd: "readable k y" and j: "j < length ts"
    and p: "log_progress k y = \<lparr>pg_status = WFailed, pg_done = map fst (take j ts), pg_waiting = [(fst (ts ! j), c)]\<rparr>"
    using y by (auto simp: stalled_def stands_def)
  obtain s where s: "progress_of s = log_progress k y"
    "\<And>outs s2. execute_next_sdl_step env1 s d = (outs, Inr s2) \<Longrightarrow>
       process_workflow_event env1 e = (outs @ [StoreState (ws_workflow s2) s2], Inr (Some s2))"
    using handle_readable [OF rd env(1) d(2) e] by metis
  have "decide (map fst ts) (length ts) (map fst (take j ts)) [fst (ts ! j)] = Wait"
    using j by (simp add: decide_def)
  then have "execute_next_sdl_step env1 s d = ([], Inr (current_step_set s d))"
    using next_step_decision [OF d(1), of env1 s, unfolded s(1) p] by (simp add: ret_def)
  from consume_first [OF s(2) [OF this] f(2), of env2] show ?thesis by simp
qed

text \<open>The worker handles an event.\<close>

lemma worker_step:
  assumes r: "ready g k d ts" and y: "staged g k d ts m y" and e: "sy_worker y = a @ e # b" "own k e"
    and env: "worker_sees g y env1" "worker_sees g y env3"
  obtains es m' where "emitted (consume env1 env2 env3 e) = es" "\<forall>x \<in> set es. sendable k x" "m' < m"
    "staged g k d ts m' (announce_all es (y\<lparr>sy_worker := a @ b\<rparr>))"
  using y
proof cases
  case (triggered j e0)
  let ?y = "y\<lparr>sy_worker := a @ b\<rparr>"
  have k: "ek_workflow k \<noteq> []" "ek_execution k \<noteq> []" "distinct (map fst ts)" using r by (auto simp: ready_def plain_id_def)
  have o: "e0 = e" "filter (own k) (a @ b) = []"
    using one_own [OF boxesD(2) [OF triggered(3), unfolded e(1)] e(2)] by simp_all
  have bx: "boxes k ?y = ([], [], [], [], [])" using boxesD [OF triggered(3)] o by (simp add: boxes_def)
  have st: "standing k ts j [] ?y"
    by (rule stands_keep [OF triggered(2)]) simp
  obtain e1 where e1: "emitted (consume env1 env2 env3 e) = [e1]" "sendable k e1"
    "if j = length ts then ev_type e1 = ''io.flunq.workflow.completed''
     else completion_of k (fst (ts ! j)) (redis_seen e1) \<or> asks k d (ts ! j) e1 \<or> schedules k (ts ! j) e1"
    by (rule worker_emits [OF r triggered(2,4-7) [unfolded o(1)] env])
  have "\<exists>m' < m. staged g k d ts m' (announce ?y e1)"
  proof (cases "j = length ts")
    case True
    then show ?thesis
      using after_end [of k ts ?y e1 g d] st bx e1(2,3) triggered(1) by (intro exI [of _ 0]) simp
  next
    case False
    then have j: "j < length ts" using triggered(2) by (simp add: stands_def)
    consider "completion_of k (fst (ts ! j)) (redis_seen e1)" | "asks k d (ts ! j) e1" | "schedules k (ts ! j) e1"
      using e1(3) False by auto
    then show ?thesis
    proof cases
      case 1
      from after_completion [OF st bx k(3) e1(2) this j] show ?thesis
        using j triggered(1) by (intro exI [of _ "3 * (length ts - Suc j) + 1"]) simp
    next
      case 2
      from after_request [OF st bx j k(1,2) e1(2) this] show ?thesis
        using j triggered(1) by (intro exI [of _ "3 * (length ts - j) - 1"]) simp
    next
      case 3
      from after_schedule [OF st bx j e1(2) this] show ?thesis
        using triggered(1) by (intro exI [of _ "3 * (length ts - j)"]) simp
    qed
  qed
  with e1(1,2) that [of "[e1]"] show thesis by auto
next
  case (failing j e0)
  let ?y = "y\<lparr>sy_worker := a @ b\<rparr>"
  have o: "e0 = e" "filter (own k) (a @ b) = []"
    using one_own [OF boxesD(2) [OF failing(3), unfolded e(1)] e(2)] by simp_all
  have bx: "boxes k ?y = ([], [], [], [], [])" using boxesD [OF failing(3)] o by (simp add: boxes_def)
  have "stalled g k d ts j ?y"
    by (rule stalled_cong [OF failing(2) own_log_cong]) (use failing(2) in \<open>auto simp: stalled_def dest: stands_inv\<close>)
  then have "staged g k d ts 0 ?y" using bx by (rule staged.failed)
  moreover have "emitted (consume env1 env2 env3 e) = []"
    by (rule worker_idles [OF r failing(2,4-7) [unfolded o(1)] env])
  ultimately show thesis using that [of "[]" 0] failing(1) by simp
qed (use e in \<open>simp_all add: boxes_def\<close>)

text \<open>The executor answers a request.\<close>

lemma executor_answers:
  assumes r: "ready g k d ts" and y: "staged g k d ts m y" and e: "sy_executor y = a @ x # b" "own k x"
    and env: "env \<in> st_executors g" "service_time now"
  obtains e m' where "answered_with (task_consume (\<lambda>_. None) env now x) = [e]" "sendable k e" "m' < m"
    "staged g k d ts m' (announce (y\<lparr>sy_executor := a @ b\<rparr>) e)"
  using y
proof cases
  case (asked j c x0 r' w)
  let ?y = "y\<lparr>sy_executor := a @ b\<rparr>"
  have k: "distinct (map fst ts)" "plain_id (ek_workflow k)" and run: "runnable g k d (ts ! j)"
    using r asked(3) by (auto simp: ready_def list_all_length)
  then have name: "fst (ts ! j) \<noteq> []" by (simp add: runnable_def)
  have o: "x0 = x" "filter (own k) (a @ b) = []"
    using one_own [OF boxesD(3) [OF asked(4), unfolded e(1)] e(2)] by simp_all
  have bx: "boxes k ?y = ([], [], [], [], [])" using boxesD [OF asked(4)] o by (simp add: boxes_def)
  have st: "standing k ts j [(fst (ts ! j), c)] ?y"
    by (rule stands_keep [OF asked(2)]) simp
  have "\<exists>t. answers env r' t" "ye_pub env = (\<lambda>_. None)"
    using run asked(7,11,12) env(1)
    by (auto simp: runnable_def recognised_type_def has_key_def set_task_def wait_task_def wait_duration_def
        get_map_def split: if_splits option.splits)
  then obtain t where t: "answers env r' t" "ye_pub env = (\<lambda>_. None)" by blast
  obtain e1 where e1: "answered_with (task_consume (\<lambda>_. None) env now x) = [e1]" "sendable k e1"
    "if tr_success t then completion_of k (fst (ts ! j)) (redis_seen e1)
     else failure_of k (fst (ts ! j)) (redis_seen e1)"
    by (rule executor_step [OF asked(5,6) [unfolded o(1)] asked(8) name asked(9,10) k(2) env(2) t])
  show thesis
  proof (cases "tr_success t")
    case True
    have "staged g k d ts (3 * (length ts - Suc j) + 1) (announce ?y e1)"
      by (rule after_completion [OF st bx k(1) e1(2) _ asked(3)]) (use e1(3) True in simp_all)
    moreover have "3 * (length ts - Suc j) + 1 < m" using asked(1,3) by simp
    ultimately show ?thesis using that e1(1,2) by blast
  next
    case False
    have "may_fail g k d (ts ! j)" using False t(1) env(1) asked(7,11,12) by (auto simp: may_fail_def)
    then have "staged g k d ts 1 (announce ?y e1)"
      by (intro after_failure [OF st bx e1(2) _ asked(3)]) (use e1(3) False in simp_all)
    moreover have "1 < m" using asked(1,3) by simp
    ultimately show ?thesis using that e1(1,2) by blast
  qed
qed (use e in \<open>simp_all add: boxes_def\<close>)

text \<open>The timer service keeps a timer.\<close>

lemma register_first:
  assumes "scheduled_as k name m p sec" and "ev_data x = GMap m" and "p \<notin> fst ` set z"
  shows "fst (register_attempts [no_faults, no_faults, no_faults] z x []) = z @ [(p, of_int sec)]"
    and "timer_emitted (timer_consume (\<lambda>_. None) no_faults no_faults no_faults z x) = []"
  using assms by (simp_all add: scheduled_as_def timer_consume_def timer_handle_def timer_send_def put_fresh)

lemma timer_step:
  assumes y: "staged g k d ts m y" and e: "sy_timer y = a @ x # b" "own k x"
  obtains p sec m' where
    "fst (register_attempts [no_faults, no_faults, no_faults] (sy_zset y) x []) = sy_zset y @ [(p, of_int sec)]"
    "timer_emitted (timer_consume (\<lambda>_. None) no_faults no_faults no_faults (sy_zset y) x) = []"
    "own_timer k p" "p \<notin> fst ` set (sy_zset y)" "m' < m"
    "staged g k d ts m' (y\<lparr>sy_timer := a @ b, sy_zset := sy_zset y @ [(p, of_int sec)]\<rparr>)"
  using y
proof cases
  case (scheduled j x0 m0 p sec)
  let ?y = "y\<lparr>sy_timer := a @ b, sy_zset := sy_zset y @ [(p, of_int sec)]\<rparr>"
  have o: "x0 = x" "filter (own k) (a @ b) = []"
    using one_own [OF boxesD(4) [OF scheduled(4), unfolded e(1)] e(2)] by simp_all
  have p: "own_timer k p" "timer_for k (fst (ts ! j)) p" "1 \<le> sec" "sec \<le> 2 ^ 31"
    using scheduled(6) by (simp_all add: scheduled_as_def timer_for_def)
  have fresh: "p \<notin> fst ` set (sy_zset y)"
    using boxesD(5) [OF scheduled(4)] p(1) by (auto simp: filter_empty_conv)
  have "boxes k ?y = ([], [], [], [], [(p, of_int sec)])" using boxesD [OF scheduled(4)] o p(1) by (simp add: boxes_def)
  from staged.armed [OF stands_keep [OF scheduled(2)] scheduled(3) this p(2-4)]
  have "staged g k d ts (3 * (length ts - j) - 1) ?y" by simp
  moreover have "3 * (length ts - j) - 1 < m" using scheduled(1,3) by simp
  ultimately show thesis
    using that register_first [OF scheduled(6,5) fresh] o(1) p(1) fresh by blast
qed (use e in \<open>simp_all add: boxes_def\<close>)

text \<open>The timer of an execution fires.\<close>

lemma staged_timer:
  assumes y: "staged g k d ts m y" and p: "(p, q) \<in> set (sy_zset y)" "own_timer k p"
  obtains j sec where "m = 3 * (length ts - j) - 1" "standing k ts j [] y" "j < length ts"
    "boxes k y = ([], [], [], [], [(p, q)])" "timer_for k (fst (ts ! j)) p" "q = of_int sec" "1 \<le> sec" "sec \<le> 2 ^ 31"
proof -
  have mem: "(p, q) \<in> set (filter (\<lambda>x. own_timer k (fst x)) (sy_zset y))" using p by simp
  from y show thesis
  proof cases
    case (armed j p0 sec)
    then have "(p, q) = (p0, of_int sec)" using mem boxesD(5) [OF armed(4)] by simp
    with armed that show thesis by blast
  qed (use mem in \<open>simp_all add: boxes_def\<close>)
qed

lemma fire_sendable:
  assumes r: "ready g k d ts" and y: "staged g k d ts m y" "(p, q) \<in> set (sy_zset y)" "own_timer k p"
    and now: "scheduler_time now"
  shows "sendable k (timer_fired_event now p)"
proof -
  obtain j where j: "j < length ts" "timer_for k (fst (ts ! j)) p" by (rule staged_timer [OF y])
  then have "fst (ts ! j) \<noteq> []" "plain_id (ek_workflow k)"
    using r by (auto simp: ready_def list_all_length runnable_def)
  then show ?thesis by (rule fired_step(1) [OF j(2) _ _ now])
qed

lemma fire_step:
  assumes r: "ready g k d ts" and y: "staged g k d ts m y" "(p, q) \<in> set (sy_zset y)" "own_timer k p"
    and y': "own_log k y' = own_log k y" "boxes k y' = ([], [], [], [], [])" "redis_inv (sy_streams y')"
    and now: "scheduler_time now"
  shows "\<exists>m' < m. staged g k d ts m' (announce y' (timer_fired_event now p))"
proof -
  obtain j sec where j: "m = 3 * (length ts - j) - 1" "standing k ts j [] y" "j < length ts"
    "timer_for k (fst (ts ! j)) p"
    by (rule staged_timer [OF y])
  have k: "plain_id (ek_workflow k)" "distinct (map fst ts)" "fst (ts ! j) \<noteq> []"
    using r j(3) by (auto simp: ready_def list_all_length runnable_def)
  have "staged g k d ts (3 * (length ts - Suc j) + 1) (announce y' (timer_fired_event now p))"
    by (rule after_completion [OF stands_cong [OF j(2) y'(1,3)] y'(2) k(2) fired_step [OF j(4) k(3,1) now] j(3)]) simp
  then show ?thesis
    using j(1,3) by (intro exI [of _ "3 * (length ts - Suc j) + 1"]) simp
qed

text \<open>How far an execution is at any stage.\<close>

definition finished :: "exec_key \<Rightarrow> (string \<times> gval) list \<Rightarrow> system \<Rightarrow> bool" where
  "finished k ts y \<longleftrightarrow>
     List.map_filter success_name (own_log k y) = map fst ts \<and> completions (own_log k y) = 1"

lemma staged_prefix:
  assumes "staged g k d ts m y"
  shows "\<exists>j. List.map_filter success_name (own_log k y) = map fst (take j ts)"
    and "completions (own_log k y) = 0 \<or> finished k ts y"
proof -
  have nil: "completions [] = 0" by (simp add: completions_def)
  show "completions (own_log k y) = 0 \<or> finished k ts y"
    using assms by cases (auto simp: stands_def stalled_def finished_def nil)
  show "\<exists>j. List.map_filter success_name (own_log k y) = map fst (take j ts)"
    using assms
  proof cases
    case over
    then show ?thesis by (intro exI [of _ "length ts"]) simp
  qed (auto simp: stands_def stalled_def map_filter_simps intro: exI [of _ 0])
qed

text \<open>At the last stage it has finished, or failed at a task.\<close>

definition failed_at ::
  "setting \<Rightarrow> exec_key \<Rightarrow> workflow_definition \<Rightarrow> (string \<times> gval) list \<Rightarrow> nat \<Rightarrow> system \<Rightarrow> bool" where
  "failed_at g k d ts j y \<longleftrightarrow> j < length ts \<and> may_fail g k d (ts ! j) \<and>
     List.map_filter success_name (own_log k y) = map fst (take j ts) \<and>
     pg_status (log_progress k y) = WFailed \<and> completions (own_log k y) = 0 \<and>
     (\<forall>e \<in> set (own_log k y). ev_type e \<noteq> ''io.flunq.workflow.failed'')"

lemma staged_end:
  assumes "staged g k d ts 0 y"
  shows "finished k ts y \<or> (\<exists>j. failed_at g k d ts j y)"
  using assms
proof cases
  case (failed j)
  moreover from this have "\<forall>e \<in> set (own_log k y). quiet e" by (auto simp: stalled_def stands_def readable_def)
  then have "\<forall>e \<in> set (own_log k y). ev_type e \<noteq> ''io.flunq.workflow.failed''" by (auto simp: quiet_def)
  ultimately show ?thesis by (auto simp: stalled_def stands_def failed_at_def)
qed (auto simp: finished_def)

end
