(* ===== verification/Deployment_Laws.thy ===== *)
theory Deployment_Laws
  imports Deployment_Runs Api_Laws
begin

text \<open>
  Many executions at once: each is at a stage of its own, and what a service does for one leaves
  the others where they are.
\<close>

subsection \<open>Who owns what is under way\<close>

definition populated :: "exec_key set \<Rightarrow> system \<Rightarrow> bool" where
  "populated K y \<longleftrightarrow> redis_inv (sy_streams y) \<and> distinct (map fst (sy_zset y)) \<and>
     (\<forall>e \<in> set (sy_starts y) \<union> set (sy_worker y) \<union> set (sy_executor y) \<union> set (sy_timer y). \<exists>k \<in> K. own k e) \<and>
     (\<forall>x \<in> set (sy_zset y). \<exists>k \<in> K. own_timer k (fst x))"

lemma populated_announce:
  assumes y: "populated K y" and e: "sendable k e" "k \<in> K"
  shows "populated K (announce y e)"
proof -
  obtain d where d: "redis_publishable e" "to_wire (ev_data e) = Some (GMap d)" "own k e"
    using e(1) by (auto simp: sendable_def)
  obtain x where x: "same_core x (redis_seen e)"
    "\<And>f. arrivals f (sy_streams y) e = (if should_process_event f (redis_seen e) then [x] else [])"
    using arrivals_core [OF d(1,2), of "sy_streams y"] by metis
  have "own k x" using x(1) d(3) by (simp add: same_core_own own_seen)
  moreover have "redis_inv (redis_publish (sy_streams y) e)"
    using rlog.inv_pub [OF _ d(1)] y by (simp add: populated_def)
  ultimately show ?thesis using y e(2) by (auto simp: populated_def announce_def x(2))
qed

lemma announce_all_other:
  assumes "redis_inv (sy_streams y)" and "\<forall>e \<in> set es. \<exists>k'. sendable k' e \<and> ek_execution k' \<noteq> ek_execution k"
  shows "own_log k (announce_all es y) = own_log k y \<and> boxes k (announce_all es y) = boxes k y \<and>
    redis_inv (sy_streams (announce_all es y))"
  using assms
proof (induction es arbitrary: y)
  case (Cons e es)
  then obtain k' where "sendable k' e" "ek_execution k' \<noteq> ek_execution k" by auto
  from announce_other [OF this Cons.prems(1)] Cons.IH [of "announce y e"] Cons.prems(2) show ?case by simp
qed simp

lemma populated_announce_all:
  "populated K y \<Longrightarrow> \<forall>e \<in> set es. \<exists>k \<in> K. sendable k e \<Longrightarrow> populated K (announce_all es y)"
  by (induction es arbitrary: y) (auto dest: populated_announce)

text \<open>Each execution is at its stage, with so many steps left.\<close>

definition together :: "setting \<Rightarrow> exec_key set \<Rightarrow> (exec_key \<Rightarrow> workflow_definition) \<Rightarrow>
    (exec_key \<Rightarrow> (string \<times> gval) list) \<Rightarrow> (exec_key \<Rightarrow> nat) \<Rightarrow> system \<Rightarrow> bool" where
  "together g K D T m y \<longleftrightarrow> populated K y \<and> (\<forall>k \<in> K. staged g k (D k) (T k) (m k) y)"

text \<open>A step for one execution.\<close>

lemma together_one:
  assumes y: "together g K D T m y" and k: "k \<in> K" and p: "populated K y'"
    and s: "staged g k (D k) (T k) m' y'"
    and o: "\<And>k'. k' \<in> K \<Longrightarrow> k' \<noteq> k \<Longrightarrow> own_log k' y' = own_log k' y \<and> boxes k' y' = boxes k' y"
  shows "together g K D T (m(k := m')) y'"
  unfolding together_def
proof (intro conjI p ballI)
  fix k' assume k': "k' \<in> K"
  have i: "redis_inv (sy_streams y')" using p by (simp add: populated_def)
  show "staged g k' (D k') (T k') ((m(k := m')) k') y'"
  proof (cases "k' = k")
    case True
    then show ?thesis using s by simp
  next
    case False
    have "staged g k' (D k') (T k') (m k') y" using y k' by (simp add: together_def)
    from staged_cong [OF this _ _ i] o [OF k' False] False show ?thesis by simp
  qed
qed

lemma together_announce:
  assumes y: "together g K D T m y" and inj: "inj_on ek_execution K" and k: "k \<in> K"
    and y1: "sy_streams y1 = sy_streams y" "populated K y1"
      "\<And>k'. k' \<in> K \<Longrightarrow> k' \<noteq> k \<Longrightarrow> boxes k' y1 = boxes k' y"
    and e: "\<forall>e \<in> set es. sendable k e" "staged g k (D k) (T k) m' (announce_all es y1)"
  shows "together g K D T (m(k := m')) (announce_all es y1)"
proof (rule together_one [OF y k populated_announce_all [OF y1(2)] e(2)])
  show "\<forall>e \<in> set es. \<exists>k \<in> K. sendable k e" using e(1) k by blast
  fix k' assume k': "k' \<in> K" "k' \<noteq> k"
  then have "ek_execution k \<noteq> ek_execution k'" using inj k by (auto dest: inj_onD)
  then have "\<forall>e \<in> set es. \<exists>k1. sendable k1 e \<and> ek_execution k1 \<noteq> ek_execution k'" using e(1) by blast
  moreover have "redis_inv (sy_streams y1)" using y1(2) by (simp add: populated_def)
  ultimately show "own_log k' (announce_all es y1) = own_log k' y \<and> boxes k' (announce_all es y1) = boxes k' y"
    using announce_all_other y1(3) [OF k'] own_log_cong [OF y1(1)] by metis
qed

lemma other_own: "own k e \<Longrightarrow> k' \<noteq> k \<Longrightarrow> \<not> own k' e"
  by (auto simp: own_def intro: exec_key.equality)

lemma other_timer: "own_timer k p \<Longrightarrow> k' \<noteq> k \<Longrightarrow> \<not> own_timer k' p"
  by (auto simp: own_timer_def intro: exec_key.equality)

text \<open>The total of the steps left falls when one execution takes one.\<close>

lemma sum_falls:
  fixes m m' :: "exec_key \<Rightarrow> nat"
  assumes "finite K" and "\<forall>k \<in> K. m' k \<le> m k" and "k \<in> K" and "m' k < m k"
  shows "sum m' K < sum m K"
  using assms by (intro sum_strict_mono_ex1) auto

subsection \<open>The scheduler fires timers of several executions\<close>

lemma mset_short: "mset xs = mset ys \<Longrightarrow> length xs \<le> 1 \<Longrightarrow> xs = ys"
  by (cases xs; cases "tl xs") auto

lemma staged_timers_short:
  "staged g k d ts m y \<Longrightarrow> length (filter (\<lambda>x. own_timer k (fst x)) (sy_zset y)) \<le> 1"
  by (cases rule: staged.cases) (auto simp: boxes_def)

text \<open>The timers that fire, and what is left.\<close>

lemma round_fires:
  assumes "scheduler_round (\<lambda>_. None) no_faults c now z = (es, z')" and "distinct (map fst z)"
  obtains fs where "es = map (\<lambda>x. timer_fired_event now (fst x)) fs" "mset z = mset fs + mset z'"
    "distinct (map fst (fs @ z'))"
proof -
  have emit: "concat (map (\<lambda>x. fst (send (\<lambda>_. None) (timer_fired_event now (fst x)))) fs) =
      map (\<lambda>x. timer_fired_event now (fst x)) fs" for fs :: zset
    by (induction fs) simp_all
  obtain fs where fs: "es = map (\<lambda>x. timer_fired_event now (fst x)) fs" "mset z = mset fs + mset z'"
    using drain_spec [OF assms(2), of "\<lambda>_. None" c now "tc_batch c"] assms(1) emit
    unfolding scheduler_round_def by auto
  have "mset (fs @ z') = mset z" using fs(2) by simp
  then have "mset (map fst (fs @ z')) = mset (map fst z)" by (metis mset_map)
  with assms(2) have "distinct (map fst (fs @ z'))" by (metis mset_eq_imp_distinct_iff)
  with fs that show thesis by blast
qed

text \<open>What the round means for one of the executions.\<close>

lemma fired_stage:
  assumes y: "together g K D T m y" and inj: "inj_on ek_execution K" and r: "\<forall>k \<in> K. ready g k (D k) (T k)"
    and fs: "mset (sy_zset y) = mset fs + mset z" and now: "scheduler_time now" and k: "k \<in> K"
  shows "\<exists>m' \<le> m k. staged g k (D k) (T k) m' (announce_all (map (\<lambda>x. timer_fired_event now (fst x)) fs) (y\<lparr>sy_zset := z\<rparr>)) \<and>
    ((\<exists>x \<in> set fs. own_timer k (fst x)) \<longrightarrow> m' < m k)"
proof -
  let ?y = "y\<lparr>sy_zset := z\<rparr>" and ?f = "\<lambda>x. timer_fired_event now (fst x)" and ?P = "\<lambda>x. own_timer k (fst x)"
  have pop: "populated K y" and st: "staged g k' (D k') (T k') (m k') y" if "k' \<in> K" for k'
    using y that by (simp_all add: together_def)
  have i: "redis_inv (sy_streams ?y)" using pop [OF k] by (simp add: populated_def)
  have mem: "x \<in> set (sy_zset y)" if "x \<in> set fs" for x
    using fs that by (metis UnI1 set_mset_mset set_mset_union)
  have other: "\<exists>k'. sendable k' (?f x) \<and> ek_execution k' \<noteq> ek_execution k" if xf: "x \<in> set fs" "\<not> ?P x" for x
  proof -
    obtain k' where k': "k' \<in> K" "own_timer k' (fst x)" using pop [OF k] mem [OF xf(1)] by (auto simp: populated_def)
    then have "k' \<noteq> k" using xf(2) by auto
    then have "ek_execution k' \<noteq> ek_execution k" using inj k k'(1) by (auto dest: inj_onD)
    moreover have "sendable k' (?f x)"
      using fire_sendable [OF _ st [OF k'(1)] _ k'(2) now, of "snd x"] r k'(1) mem [OF xf(1)] by simp
    ultimately show ?thesis by blast
  qed
  have parts: "mset (filter ?P (sy_zset y)) = mset (filter ?P fs) + mset (filter ?P z)"
    using fs by (metis filter_union_mset mset_filter)
  have short: "length (filter ?P (sy_zset y)) \<le> 1" by (rule staged_timers_short [OF st [OF k]])
  have sizes: "length (filter ?P (sy_zset y)) = length (filter ?P fs) + length (filter ?P z)"
    using arg_cong [OF parts, of size] by (simp only: size_mset size_union)
  show ?thesis
  proof (cases "\<exists>x \<in> set fs. ?P x")
    case True
    then obtain x f1 f2 where x: "fs = f1 @ x # f2" "?P x" by (metis split_list)
    then have "length (filter ?P f1) + length (filter ?P f2) + length (filter ?P z) = 0"
      using short sizes by simp
    then have e: "filter ?P f1 = []" "filter ?P f2 = []" "filter ?P z = []" by simp_all
    then have o: "\<forall>e \<in> set (map ?f f1). \<exists>k'. sendable k' e \<and> ek_execution k' \<noteq> ek_execution k"
      "\<forall>e \<in> set (map ?f f2). \<exists>k'. sendable k' e \<and> ek_execution k' \<noteq> ek_execution k"
      using other x(1) by (auto simp: filter_empty_conv)
    have xm: "(fst x, snd x) \<in> set (sy_zset y)" using mem x(1) by simp
    have "boxes k y = ([], [], [], [], [(fst x, snd x)])" by (rule staged_timer [OF st [OF k] xm x(2)])
    then have "boxes k ?y = ([], [], [], [], [])" using e(3) by (simp add: boxes_def)
    with announce_all_other [OF i o(1)] have y1: "own_log k (announce_all (map ?f f1) ?y) = own_log k y"
      "boxes k (announce_all (map ?f f1) ?y) = ([], [], [], [], [])" "redis_inv (sy_streams (announce_all (map ?f f1) ?y))"
      using own_log_cong [of ?y y] by simp_all
    let ?y1 = "announce (announce_all (map ?f f1) ?y) (?f x)"
    have rk: "ready g k (D k) (T k)" using r k by blast
    obtain m' where m': "m' < m k" "staged g k (D k) (T k) m' ?y1"
      using fire_step [OF rk st [OF k] xm x(2) y1 now] by blast
    have "redis_inv (sy_streams ?y1)"
      using rlog.inv_pub [OF y1(3)] fire_sendable [OF rk st [OF k] xm x(2) now] by (simp add: announce_def sendable_def)
    from staged_cong [OF m'(2)] announce_all_other [OF this o(2)]
    have "staged g k (D k) (T k) m' (announce_all (map ?f f2) ?y1)" by blast
    with m'(1) show ?thesis by (intro exI [of _ m']) (simp add: x(1))
  next
    case False
    then have o: "\<forall>e \<in> set (map ?f fs). \<exists>k'. sendable k' e \<and> ek_execution k' \<noteq> ek_execution k" using other by auto
    have "filter ?P fs = []" using False by (simp add: filter_empty_conv)
    then have "filter ?P (sy_zset y) = filter ?P z" using mset_short [OF _ short] parts by simp
    then have "boxes k ?y = boxes k y" by (simp add: boxes_def)
    with announce_all_other [OF i o] have "staged g k (D k) (T k) (m k) (announce_all (map ?f fs) ?y)"
      using staged_cong [OF st [OF k]] own_log_cong [of ?y y] by simp
    with False show ?thesis by (intro exI [of _ "m k"]) auto
  qed
qed

lemma together_fire:
  assumes y: "together g K D T m y" and inj: "inj_on ek_execution K" and r: "\<forall>k \<in> K. ready g k (D k) (T k)"
    and s: "scheduler_round (\<lambda>_. None) no_faults (st_timers g) now (sy_zset y) = (es, z)" "es \<noteq> []"
    and now: "scheduler_time now"
  obtains m' where "together g K D T m' (announce_all es (y\<lparr>sy_zset := z\<rparr>))" "\<forall>k \<in> K. m' k \<le> m k" "\<exists>k \<in> K. m' k < m k"
proof -
  let ?y' = "announce_all es (y\<lparr>sy_zset := z\<rparr>)"
  have pop: "populated K y" using y by (simp add: together_def)
  then have dz: "distinct (map fst (sy_zset y))" by (simp add: populated_def)
  obtain fs where fs: "es = map (\<lambda>x. timer_fired_event now (fst x)) fs" "mset (sy_zset y) = mset fs + mset z"
    "distinct (map fst (fs @ z))"
    by (rule round_fires [OF s(1) dz])
  have mem: "x \<in> set (sy_zset y)" if "x \<in> set fs \<or> x \<in> set z" for x
    using fs(2) that by (metis UnI1 UnI2 set_mset_mset set_mset_union)
  have own: "\<exists>k \<in> K. own_timer k (fst x)" if "x \<in> set fs \<or> x \<in> set z" for x
    using pop mem [OF that] by (simp add: populated_def)
  have "\<exists>k \<in> K. sendable k (timer_fired_event now (fst x))" if x: "x \<in> set fs" for x
  proof -
    obtain k where k: "k \<in> K" "own_timer k (fst x)" using own x by blast
    have "staged g k (D k) (T k) (m k) y" "ready g k (D k) (T k)" using y r k(1) by (simp_all add: together_def)
    from fire_sendable [OF this(2,1) _ k(2) now, of "snd x"] mem x k(1) show ?thesis by auto
  qed
  moreover have "populated K (y\<lparr>sy_zset := z\<rparr>)" using pop own fs(3) by (auto simp: populated_def)
  ultimately have p: "populated K ?y'" by (intro populated_announce_all) (auto simp: fs(1))
  have "\<forall>k \<in> K. \<exists>m'. m' \<le> m k \<and> staged g k (D k) (T k) m' ?y' \<and> ((\<exists>x \<in> set fs. own_timer k (fst x)) \<longrightarrow> m' < m k)"
    using fired_stage [OF y inj r fs(2) now] unfolding fs(1) by blast
  then obtain m' where m': "\<forall>k \<in> K. m' k \<le> m k \<and> staged g k (D k) (T k) (m' k) ?y' \<and>
      ((\<exists>x \<in> set fs. own_timer k (fst x)) \<longrightarrow> m' k < m k)"
    using bchoice [of K "\<lambda>k m'. m' \<le> m k \<and> staged g k (D k) (T k) m' ?y' \<and>
      ((\<exists>x \<in> set fs. own_timer k (fst x)) \<longrightarrow> m' < m k)"] by blast
  obtain x where "x \<in> set fs" using s(2) fs(1) by (cases fs) auto
  then have "\<exists>k \<in> K. m' k < m k" using own m' by blast
  with m' p that [of m'] show thesis by (simp add: together_def)
qed

subsection \<open>Runs\<close>

inductive_cases system_stepE: "system_step g y y'"

lemma together_step:
  assumes y: "together g K D T m y" and inj: "inj_on ek_execution K" and fin: "finite K"
    and r: "\<forall>k \<in> K. ready g k (D k) (T k)" and s: "system_step g y y'"
  obtains m' where "together g K D T m' y'" "sum m' K < sum m K"
proof -
  have pop: "populated K y" and st: "\<And>k. k \<in> K \<Longrightarrow> staged g k (D k) (T k) (m k) y"
    and rk: "\<And>k. k \<in> K \<Longrightarrow> ready g k (D k) (T k)" using y r by (simp_all add: together_def)
  have one: thesis if "k \<in> K" "together g K D T (m(k := m')) y'" "m' < m k" for k m'
    using that(2) sum_falls [OF fin, of "m(k := m')" m k] that(1,3)
    by (intro \<open>\<And>m'. together g K D T m' y' \<Longrightarrow> sum m' K < sum m K \<Longrightarrow> thesis\<close>) auto
  from s show thesis
  proof cases
    case (api_publishes a e b)
    obtain k where k: "k \<in> K" "own k e" using pop api_publishes(2) by (auto simp: populated_def)
    obtain m' where m': "sendable k e" "m' < m k" "staged g k (D k) (T k) m' y'"
      using start_step [OF rk [OF k(1)] st [OF k(1)] api_publishes(2) k(2)] api_publishes(1) by blast
    have "together g K D T (m(k := m')) y'"
      using together_announce [OF y inj k(1), of "y\<lparr>sy_starts := a @ b\<rparr>" "[e]" m'] pop api_publishes
        other_own [OF k(2)] m' by (simp add: populated_def boxes_def)
    from one [OF k(1) this m'(2)] show thesis .
  next
    case (worker_handles a e b env1 env2 env3)
    obtain k where k: "k \<in> K" "own k e" using pop worker_handles(2) by (auto simp: populated_def)
    obtain es m' where es: "emitted (consume env1 env2 env3 e) = es" "\<forall>x \<in> set es. sendable k x" "m' < m k"
      "staged g k (D k) (T k) m' (announce_all es (y\<lparr>sy_worker := a @ b\<rparr>))"
      by (rule worker_step [OF rk [OF k(1)] st [OF k(1)] worker_handles(2) k(2) worker_handles(3,5)])
    have "together g K D T (m(k := m')) y'"
      unfolding worker_handles(1) es(1)
      by (rule together_announce [OF y inj k(1)])
        (use pop worker_handles(2) other_own [OF k(2)] es in \<open>simp_all add: populated_def boxes_def\<close>)
    from one [OF k(1) this es(3)] show thesis .
  next
    case (executor_handles a x b env now)
    obtain k where k: "k \<in> K" "own k x" using pop executor_handles(2) by (auto simp: populated_def)
    obtain e1 m' where e1: "answered_with (task_consume (\<lambda>_. None) env now x) = [e1]" "sendable k e1" "m' < m k"
      "staged g k (D k) (T k) m' (announce (y\<lparr>sy_executor := a @ b\<rparr>) e1)"
      by (rule executor_answers [OF rk [OF k(1)] st [OF k(1)] executor_handles(2) k(2) executor_handles(3,4)])
    have "together g K D T (m(k := m')) y'"
      using together_announce [OF y inj k(1), of "y\<lparr>sy_executor := a @ b\<rparr>" "[e1]" m'] pop executor_handles(1,2)
        other_own [OF k(2)] e1 by (simp add: populated_def boxes_def)
    from one [OF k(1) this e1(3)] show thesis .
  next
    case (timer_registers a x b)
    obtain k where k: "k \<in> K" "own k x" using pop timer_registers(2) by (auto simp: populated_def)
    obtain p sec m' where p:
      "fst (register_attempts [no_faults, no_faults, no_faults] (sy_zset y) x []) = sy_zset y @ [(p, of_int sec)]"
      "timer_emitted (timer_consume (\<lambda>_. None) no_faults no_faults no_faults (sy_zset y) x) = []"
      "own_timer k p" "p \<notin> fst ` set (sy_zset y)" "m' < m k"
      "staged g k (D k) (T k) m' (y\<lparr>sy_timer := a @ b, sy_zset := sy_zset y @ [(p, of_int sec)]\<rparr>)"
      by (rule timer_step [OF st [OF k(1)] timer_registers(2) k(2)])
    have y': "y' = y\<lparr>sy_timer := a @ b, sy_zset := sy_zset y @ [(p, of_int sec)]\<rparr>"
      using timer_registers(1) p(1,2) by simp
    have "together g K D T (m(k := m')) y'"
      by (rule together_one [OF y k(1)])
        (use pop timer_registers(2) other_own [OF k(2)] other_timer [OF p(3)] p k(1) in
          \<open>auto simp: y' populated_def boxes_def intro: own_log_cong\<close>)
    from one [OF k(1) this p(5)] show thesis .
  next
    case (timers_fire now es z)
    obtain m' where m': "together g K D T m' y'" "\<forall>k \<in> K. m' k \<le> m k" "\<exists>k \<in> K. m' k < m k"
      using together_fire [OF y inj r timers_fire(2-4)] timers_fire(1) by metis
    then show thesis using that sum_falls [OF fin m'(2)] by blast
  qed
qed

lemma filter_mem: "filter P xs = [x] \<Longrightarrow> x \<in> set xs"
  by (metis filter_is_subset list.set_intros(1) subsetD)

text \<open>As long as an execution is not over, some service can take a step. The scheduler fires the
  earliest timer at the latest when all are due.\<close>

lemma together_on:
  assumes y: "together g K D T m y" and r: "\<forall>k \<in> K. ready g k (D k) (T k)" and k: "k \<in> K" "0 < m k"
  shows "\<exists>y'. system_step g y y'"
proof -
  have pop: "populated K y" and st: "\<And>k. k \<in> K \<Longrightarrow> staged g k (D k) (T k) (m k) y"
    and rk: "ready g k (D k) (T k)" using y r k(1) by (simp_all add: together_def)
  have reader: "\<exists>env. worker_sees g y env"
    by (rule exI [of _ "\<lparr>we_history = (\<lambda>w. Inr (redis_history (sy_streams y) w)), we_definition = st_definition g,
       we_execution = None, we_fault = (\<lambda>_. None), we_fmt = (\<lambda>_. []), we_now = second, we_uuid = []\<rparr>"])
      (simp add: worker_sees_def service_time_def second_def)
  from st [OF k(1)] show ?thesis
  proof cases
    case (waiting e)
    obtain a b where "sy_starts y = a @ e # b" using filter_mem [OF boxesD(1) [OF waiting(4)]] by (metis split_list)
    then show ?thesis using api_publishes by blast
  next
    case (triggered j e)
    obtain env where "worker_sees g y env" using reader by blast
    moreover obtain a b where "sy_worker y = a @ e # b" using filter_mem [OF boxesD(2) [OF triggered(3)]] by (metis split_list)
    ultimately show ?thesis using worker_handles by blast
  next
    case (asked j c x r' b')
    obtain env where "env \<in> st_executors g" using rk by (auto simp: ready_def)
    moreover have "service_time second" by (simp add: service_time_def second_def)
    moreover obtain a b where "sy_executor y = a @ x # b" using filter_mem [OF boxesD(3) [OF asked(4)]] by (metis split_list)
    ultimately show ?thesis using executor_handles by blast
  next
    case (scheduled j x m0 p sec)
    obtain a b where "sy_timer y = a @ x # b" using filter_mem [OF boxesD(4) [OF scheduled(4)]] by (metis split_list)
    then show ?thesis using timer_registers by blast
  next
    case (armed j p sec)
    let ?t = "2 ^ 31 * 1000000000"
    have c: "0 < tc_batch (st_timers g)" "0 \<le> tc_lookahead (st_timers g)" "tc_lookahead (st_timers g) \<le> 2 ^ 60"
      using rk by (simp_all add: ready_def)
    have "sy_zset y \<noteq> []" using filter_mem [OF boxesD(5) [OF armed(4)]] by auto
    then obtain p1 q1 z where pop1: "zpopmin (sy_zset y) = Some ((p1, q1), z)"
      by (metis not_None_eq prod.exhaust zpopmin_None)
    then have mem: "(p1, q1) \<in> set (sy_zset y)" by (rule zpopmin_Some)
    then obtain k1 where k1: "k1 \<in> K" "own_timer k1 p1" using pop by (auto simp: populated_def)
    obtain sec1 where q1: "q1 = of_int sec1" "1 \<le> sec1" "sec1 \<le> 2 ^ 31"
      by (rule staged_timer [OF st [OF k1(1)] mem k1(2)])
    have due: "due (st_timers g) ?t q1"
      using score_ge [of sec1 "?t + tc_lookahead (st_timers g)"] q1 c by (simp add: due_def)
    obtain b where b: "tc_batch (st_timers g) = Suc b" using c(1) by (cases "tc_batch (st_timers g)") auto
    obtain es z' where s: "scheduler_round (\<lambda>_. None) no_faults (st_timers g) ?t (sy_zset y) = (es, z')" by fastforce
    then have "es \<noteq> []" using pop1 due by (auto simp: scheduler_round_def b split_beta)
    moreover have "scheduler_time ?t" by (simp add: scheduler_time_def second_def)
    ultimately show ?thesis using timers_fire [OF s] by blast
  next
    case (failing j e)
    obtain env where "worker_sees g y env" using reader by blast
    moreover obtain a b where "sy_worker y = a @ e # b" using filter_mem [OF boxesD(2) [OF failing(3)]] by (metis split_list)
    ultimately show ?thesis using worker_handles by blast
  qed (use k(2) in simp_all)
qed

lemma run_together:
  assumes "system_run g y n y'" and "together g K D T m y" and "inj_on ek_execution K" and "finite K"
    and "\<forall>k \<in> K. ready g k (D k) (T k)"
  shows "\<exists>m'. together g K D T m' y' \<and> n + sum m' K \<le> sum m K"
  using assms(1)
proof (induction n y')
  case here
  then show ?case using assms(2) by auto
next
  case (on n y1 y2)
  then obtain m1 where "together g K D T m1 y1" "n + sum m1 K \<le> sum m K" by blast
  moreover from together_step [OF this(1) assms(3-5) on.hyps(2)] obtain m2 where
    "together g K D T m2 y2" "sum m2 K < sum m1 K" by blast
  ultimately show ?case by (intro exI [of _ m2]) simp
qed

lemma filter_one: "distinct xs \<Longrightarrow> x \<in> set xs \<Longrightarrow> \<forall>y \<in> set xs. P y = (y = x) \<Longrightarrow> filter P xs = [x]"
proof (induction xs)
  case (Cons z xs)
  then show ?case by (cases "z = x") (auto simp: filter_empty_conv)
qed simp

lemma together_start:
  assumes "redis_inv s" and "distinct ks"
    and "\<forall>k \<in> set ks. own_log k (at_rest s []) = [] \<and> start_of k (st k)"
  shows "together g (set ks) D T (\<lambda>k. 3 * length (T k) + 2) (at_rest s (map st ks))"
proof -
  let ?y = "at_rest s (map st ks)"
  have own: "own k (st k') \<longleftrightarrow> k' = k" if "k \<in> set ks" "k' \<in> set ks" for k k'
    using assms(3) that other_own [of k' "st k'" k] by (auto simp: start_of_def)
  have "staged g k (D k) (T k) (3 * length (T k) + 2) ?y" if k: "k \<in> set ks" for k
  proof (rule staged.waiting)
    have "filter (own k \<circ> st) ks = [k]" by (rule filter_one [OF assms(2) k]) (use own k in auto)
    then show "boxes k ?y = ([st k], [], [], [], [])" by (simp add: boxes_def at_rest_def filter_map)
    show "own_log k ?y = []" using assms(3) k own_log_cong [of ?y "at_rest s []" k] by (simp add: at_rest_def)
    show "redis_inv (sy_streams ?y)" "start_of k (st k)" using assms(1,3) k by (simp_all add: at_rest_def)
  qed
  moreover have "populated (set ks) ?y"
    using assms(1,3) by (auto simp: populated_def at_rest_def start_of_def)
  ultimately show ?thesis by (simp add: together_def)
qed


subsection \<open>Two executions of a workflow\<close>

text \<open>What the API publishes is such a start.\<close>

lemma started_event_starts:
  assumes "wire_map m = Some m'" and "xr_input r = Some m" and "plain_id (aw_id w)" and "rfc3339_range (ap_now env)"
  shows "start_of \<lparr>ek_tenant = xr_tenant r, ek_workflow = aw_id w, ek_execution = eid\<rparr> (execution_started_event env w r eid)"
proof -
  obtain d where "to_wire (ev_data (execution_started_event env w r eid)) = Some (GMap d)"
    using started_event_data [OF assms(1,2)] by metis
  moreover have "ev_time (execution_started_event env w r eid) = ap_now env"
    by (simp add: execution_started_event_def workflow_event_def set_data_def new_cloud_event_def)
  ultimately show ?thesis using assms(3,4) by (simp add: start_of_def own_def redis_publishable_def)
qed

text \<open>A workflow with a task of each kind: a set task, a wait and a call of an OpenAPI operation.\<close>

definition flow_call :: gmap where
  "flow_call = [(''call'', GStr ''openapi''),
     (''with'', GMap [(''document'', GMap [(''endpoint'', GStr ''http://api/spec'')]), (''operationId'', GStr ''getPet'')])]"

definition flow_tasks :: "(string \<times> gval) list" where
  "flow_tasks =
     [(''first'', GMap [(''set'', GMap [(''x'', GStr ''1'')])]),
      (''second'', GMap [(''wait'', GMap [(''duration'', GStr ''PT2S'')])]), (''fetch'', GMap flow_call)]"

definition flow :: workflow_definition where
  "flow = definition_of_dsl
     [(''document'', GMap [(''name'', GStr ''demo''), (''version'', GStr ''1.0.0'')]),
      (''do'', GList (task_items flow_tasks))]"

definition flow_key :: "string \<Rightarrow> exec_key" where
  "flow_key eid = \<lparr>ek_tenant = ''t'', ek_workflow = ''demo'', ek_execution = eid\<rparr>"

definition flow_setting :: setting where
  "flow_setting = \<lparr>st_definition = (\<lambda>_ _. Inr flow), st_executors = {demo_try_env 200}, st_timers = demo_config\<rparr>"

lemma flow_do: "do_definition flow flow_tasks" "distinct (map fst flow_tasks)" "is_wire_map (dsl_map flow)"
  by (simp_all add: flow_def do_definition_def definition_of_dsl_def flow_tasks_def flow_call_def
      task_items_def get_defs dsl_map_def)

lemma flow_mem: "(''fetch'', GMap flow_call) \<in> set flow_tasks"
  by (simp add: flow_tasks_def)

lemma flow_call_config: "build_call_config flow_call (GStr ''openapi'') = demo_openapi"
  by (simp add: build_call_config_def flow_call_def demo_openapi_def get_map_def)

lemma flow_request:
  assumes "may_request (flow_key eid) flow ''fetch'' r"
  shows "rq_type r = ''call''" "Option.bind (rq_config r) tk_params = Some demo_openapi"
    "\<exists>t. rq_input r = Some [(''task_name'', GStr ''fetch''), (''workflow_id'', GStr ''demo''), (''timestamp'', GStr t)]"
proof -
  obtain now s m x where x: "state_ok s" "ws_workflow s = ''demo''"
    "to_wire (ev_data (task_requested_event now (new_task now flow ''fetch'' s) s)) = Some (GMap m)"
    "ev_data x = GMap m" "parse_task_request x = Inr r"
    using assms by (auto simp: may_request_def flow_key_def)
  let ?p = "new_task now flow ''fetch'' s"
  let ?h = "[(''task_name'', GStr ''fetch''), (''workflow_id'', GStr ''demo''), (''timestamp'', GStr (format_rfc3339 now))]"
  have par: "task_parameters (format_rfc3339 now) flow_call s = [(''call_config'', GMap demo_openapi)]"
    using flow_call_config by (simp add: task_parameters_def wait_duration_def flow_call_def get_map_def)
  have td: "is_wire_map flow_call" "is_wire_map demo_openapi" by (simp_all add: flow_call_def demo_openapi_def)
  have i: "pt_input ?p = Some (?h @ [(''task_definition'', GMap flow_call), (''call_config'', GMap demo_openapi)])"
    using do_definition_input(1) [OF flow_do(1,2) flow_mem, of now s] td x(2)
    by (simp add: new_task_def par wire_fixed(3))
  have ty: "pt_type ?p = ''call''"
    using do_definition_input(2) [OF flow_do(1,2) flow_mem]
    by (simp add: new_task_def recognised_type_def has_key_def flow_call_def)
  have ps: "request_parameters ?p (?h @ [(''task_definition'', GMap flow_call), (''call_config'', GMap demo_openapi)]) = demo_openapi"
    by (simp add: request_parameters_def ty get_map_def demo_openapi_def)
  have "wire_map (request_context s) = Some (request_context s)"
    using request_context_wire [OF x(1)] by (rule wire_fixed)
  then have m: "get_map m ''input'' = Some ?h \<and> get_str m ''task_type'' = Some ''call'' \<and>
      (\<exists>c. get_map m ''config'' = Some c \<and> get_map c ''parameters'' = Some demo_openapi)"
    using x(3) td(2) by (auto simp: task_requested_event_def Let_def i ps [unfolded append_Cons append_Nil] ty request_input_def
        get_map_def get_str_def wire_fixed(3) split: prod.splits)
  show "rq_type r = ''call''" "Option.bind (rq_config r) tk_params = Some demo_openapi"
    "\<exists>t. rq_input r = Some [(''task_name'', GStr ''fetch''), (''workflow_id'', GStr ''demo''), (''timestamp'', GStr t)]"
    using x(4,5) m by (auto simp: parse_task_request_def string_from_data_def parse_task_config_def)
qed

lemma flow_answers:
  assumes "may_request (flow_key eid) flow ''fetch'' r"
  shows "\<exists>x. answers (demo_try_env 200) r x" "answers (demo_try_env 200) r x \<Longrightarrow> tr_success x"
proof -
  note r = flow_request [OF assms]
  obtain t where i: "rq_input r = Some [(''task_name'', GStr ''fetch''), (''workflow_id'', GStr ''demo''), (''timestamp'', GStr t)]"
    using r(3) by blast
  have ev: "evaluate_parameter_expressions demo_call r = Inr demo_call"
    by (simp add: evaluate_parameter_expressions_def demo_call_def)
  have ok: "is_success 200" by (simp add: is_success_def)
  obtain out where out: "apply_output_transformation r (raw_output (cf_output demo_call) (demo_response 200)) = Inr out"
    "to_wire (GMap out) \<noteq> None"
    by (simp add: apply_output_transformation_def i raw_output_def demo_call_def demo_response_def)
  have e: "call_execute (demo_call_env 200) r =
      Inr (result_of demo_clock r True (Some (build_resolved_input r demo_call)) out [])"
    unfolding call_execute_def r(2)
    by (simp add: demo_openapi_parsed demo_call_valid execute_openapi_call_def ev demo_call_env_def ok out(1))
      (simp add: demo_response_def is_success_def)
  have inp: "to_wire (GMap (build_resolved_input r demo_call)) \<noteq> None"
    by (simp add: build_resolved_input_def i demo_call_def opt_entry_def)
  have "registry (demo_try_env 200) (rq_type r) = Some (\<lambda>r. ([], call_execute (demo_call_env 200) r))"
    by (simp add: registry_def basic_executor_def r(1) demo_try_env_def demo_exec_env_def)
  moreover have "same_task r (result_of demo_clock r True (Some (build_resolved_input r demo_call)) out [])"
    using call_execute_same [OF e] .
  ultimately have a: "answers (demo_try_env 200) r x \<longleftrightarrow>
      x = result_of demo_clock r True (Some (build_resolved_input r demo_call)) out []" for x
    using e out(2) inp unfolding answers_def by (auto simp: map_or_nil_def)
  show "\<exists>x. answers (demo_try_env 200) r x" "answers (demo_try_env 200) r x \<Longrightarrow> tr_success x"
    unfolding a by (auto simp: result_of_def)
qed

lemma flow_never_fails: "j < length flow_tasks \<Longrightarrow> \<not> may_fail flow_setting (flow_key eid) flow (flow_tasks ! j)"
proof -
  assume "j < length flow_tasks"
  then consider "j = 0" | "j = 1" | "j = 2" by (auto simp: flow_tasks_def less_Suc_eq)
  then show ?thesis
    by cases (use flow_answers(2) in \<open>auto simp: may_fail_def flow_tasks_def recognised_type_def has_key_def flow_setting_def\<close>)
qed

lemma flow_ready:
  assumes "eid \<noteq> []"
  shows "ready flow_setting (flow_key eid) flow flow_tasks"
proof -
  have "map_of [(''set'', GMap [(''x'', GStr ''1'')])] ''set'' = Some (GMap [(''x'', GStr ''1'')])" by simp
  have "inert_map [(''x'', GStr ''1'')]" by code_simp
  then have "evaluate_map now data [(''x'', GStr ''1'')] = Inr [(''x'', GStr ''1'')]" for now data
    by (rule evaluate_inert(3))
  then have "set_data_for now (GMap [(''x'', GStr ''1'')]) s = GMap [(''x'', GStr ''1'')]" for now s
    by (simp only: set_data_for_def evaluate_set_task_data_def gval.case sum.case)
  then have "runnable flow_setting (flow_key eid) flow (''first'', GMap [(''set'', GMap [(''x'', GStr ''1'')])])"
    by (auto simp: runnable_def set_task_def)
  moreover have "''PT2S'' = ''PT'' @ nat_digits 2 @ ''S''" by code_simp
  then have "wait_task [(''wait'', GMap [(''duration'', GStr ''PT2S'')])] (''PT'' @ nat_digits 2 @ ''S'')"
    by (simp only: wait_task_def) (simp add: wait_duration_def get_defs)
  then have "runnable flow_setting (flow_key eid) flow (''second'', GMap [(''wait'', GMap [(''duration'', GStr ''PT2S'')])])"
    unfolding runnable_def by (simp only: snd_conv fst_conv gval.case) (intro conjI disjI2 disjI1 exI [of _ 2], simp_all)
  moreover have "recognised_type flow_call = Some ''call''"
    by (simp add: recognised_type_def has_key_def flow_call_def)
  then have "runnable flow_setting (flow_key eid) flow (''fetch'', GMap flow_call)"
    using flow_answers(1) by (simp add: runnable_def flow_setting_def) (simp add: demo_try_env_def)
  ultimately have "list_all (runnable flow_setting (flow_key eid) flow) flow_tasks" by (simp add: flow_tasks_def)
  then show ?thesis
    using flow_do assms by (simp add: ready_def flow_setting_def flow_key_def plain_id_def demo_config_def)
qed

definition flow_start :: "exec_key \<Rightarrow> cloud_event" where
  "flow_start k = execution_started_event (demo_env_api\<lparr>ap_now := second\<rparr>)
     (to_api_workflow ((snd (hd demo_definition_store))\<lparr>sd_id := ''demo''\<rparr>)) (demo_execute\<lparr>xr_tenant := ''t''\<rparr>) (ek_execution k)"

lemma flow_starts: "start_of (flow_key eid) (flow_start (flow_key eid))" "own_log (flow_key eid) (at_rest [] es) = []"
proof -
  have "start_of \<lparr>ek_tenant = ''t'', ek_workflow = ''demo'', ek_execution = eid\<rparr> (flow_start (flow_key eid))"
    unfolding flow_start_def
    using started_event_starts [of "[(''n'', GFloat 2)]" "[(''n'', GFloat 2)]" "demo_execute\<lparr>xr_tenant := ''t''\<rparr>"
        "to_api_workflow ((snd (hd demo_definition_store))\<lparr>sd_id := ''demo''\<rparr>)" "demo_env_api\<lparr>ap_now := second\<rparr>" eid]
    by (simp add: demo_execute_def to_api_workflow_def plain_id_def rfc3339_range_def second_def zero_time_def flow_key_def)
  then show "start_of (flow_key eid) (flow_start (flow_key eid))" by (simp add: flow_key_def)
  show "own_log (flow_key eid) (at_rest [] es) = []"
    by (simp add: own_log_def at_rest_def redis_history_entries of_execution_def)
qed


end
