(* ===== verification/Spec2Isabelle.thy ===== *)
theory Spec2Isabelle
  imports Worker_Laws Worker_Database Legacy_Database Timer_Schedule Error_Laws Executor_Laws Call_Errors
    Openapi_Laws Api_Laws Api_Accessors Api_Copies Shared_Errors Start_Up Other_Backends
    Deployment_Laws
begin

text \<open>
  A workflow engine for the Serverless Workflow language, as four Go services that share an
  event stream and a database. A client talks to the API service, which stores workflow
  definitions and executions and publishes \<^verbatim>\<open>execution.started\<close>. The worker reads the events
  of an execution, rebuilds its state from them, and takes one step: it requests the next
  task, schedules a timer, or publishes the completion of the workflow. The executor runs the
  tasks that are requested and publishes their completions; the timer service keeps the
  timers and publishes their firings. Every service is a loop that takes a message, handles
  it, and acknowledges it.

  This development models the code of these services as HOL functions over explicit state and
  proves what they guarantee, each alone and together. All paths are relative to the
  repository.

  \<^bold>\<open>Go itself.\<close> \<open>Prelude\<close> (maps as key-value lists in iteration order, errors as sums,
  \<open>eff\<close>: the outputs of an operation with its result), \<open>Go_Strings\<close>, \<open>Go_Int\<close> (64-bit
  wrap-around), \<open>Go_Values\<close> (dynamic values; \<^verbatim>\<open>float64\<close> as rationals with rounding),
  \<open>Go_Wire\<close> (what JSON and protobuf make of a value), \<open>Go_Json\<close> (decoding into structs),
  \<open>Go_Time\<close> and \<open>Go_Duration\<close> (RFC 3339 and durations, printed and parsed).

  \<^bold>\<open>Shared packages\<close> (\<^verbatim>\<open>shared/pkg\<close>). \<open>Cloud_Events\<close> (\<^verbatim>\<open>cloudevents\<close>), \<open>Event_Stream\<close>
  (\<^verbatim>\<open>eventstreaming/redis_stream.go\<close>: keys, fields, publishing, parsing, history, filters,
  acknowledgement), \<open>Event_Log\<close> (the interface of the stream, the locale \<open>event_log\<close>, and
  the Redis streams that provide it), \<open>Subscription\<close> (the reading loop of a subscription, its
  discovery of streams and its consumer groups, over the commands of the server),
  \<open>Stream_Groups\<close> (the consumer groups of Redis), \<open>JQ_Eval\<close> (\<^verbatim>\<open>jq/evaluator.go\<close>),
  \<open>Workflow_Database\<close> (\<^verbatim>\<open>storage/redis_database.go\<close>), \<open>Shared_Errors\<close> (\<^verbatim>\<open>errors/errors.go\<close>).

  \<^bold>\<open>The loop of a service.\<close> \<open>Event_Loop\<close> has what is done with one event: attempts, dead
  letters, acknowledgement. \<open>Event_Processing\<close> has the loop around it as a state machine: the
  channel, the goroutine that takes events, the semaphore, the goroutines that handle them, the
  lock of each workflow, and stopping. \<open>Services\<close> has the three instances and their settings
  (\<^verbatim>\<open>Start\<close>), \<open>Entry_Points\<close> what \<^verbatim>\<open>cmd/server/main.go\<close> decides: settings, back ends, routes.

  \<^bold>\<open>Worker\<close> (\<^verbatim>\<open>worker/internal\<close>). \<open>Engine_DSL\<close> reads definitions, \<open>Engine_State\<close> has the
  protobuf state as a record and the handlers that only change it, \<open>Engine_Events\<close> the
  handlers with effects, the dispatch \<open>process_event\<close> and \<open>rebuild_state\<close>, \<open>Engine_Tasks\<close> the
  choice and input of the next task (all of \<^verbatim>\<open>engine/serverless_workflow_engine.go\<close>).
  \<open>Worker_Processor\<close> is \<^verbatim>\<open>processor/workflow_processor.go\<close> and \<^verbatim>\<open>wait_scheduler.go\<close>,
  \<open>Worker_Database\<close> the adapter of \<^verbatim>\<open>adapters/shared_database_adapter.go\<close>, \<open>Legacy_Database\<close>
  the earlier one of \<^verbatim>\<open>adapters/redis_database.go\<close>. \<open>Engine_Laws\<close> and
  \<open>Worker_Laws\<close> hold the properties.

  \<^bold>\<open>Timer service\<close> (\<^verbatim>\<open>timer/internal\<close>). \<open>Timer_Service\<close>, with \<open>Timer_Laws\<close>. The sorted set
  of Redis is a list of payloads with \<^verbatim>\<open>float64\<close> scores.

  \<^bold>\<open>Executor\<close> (\<^verbatim>\<open>executor/internal\<close>). \<open>Executor_Types\<close>, \<open>Error_Handler\<close>
  (\<^verbatim>\<open>error_handler.go\<close>), \<open>Call_Executor\<close> and \<open>Call_Errors\<close> (\<^verbatim>\<open>call_task_executor.go\<close>), \<open>Task_Executors\<close> (set,
  inject, wait; the interface \<open>task_executor\<close>), \<open>Try_Executor\<close> (\<^verbatim>\<open>try_task_executor.go\<close>),
  \<open>Task_Processor\<close> (\<^verbatim>\<open>task_processor.go\<close>, the registry), with \<open>Error_Laws\<close>, \<open>Call_Laws\<close>,
  \<open>Try_Laws\<close> and \<open>Executor_Laws\<close>. OpenAPI calls:
  \<open>Go_Url\<close> (query encoding and parsing), \<open>Openapi_Document\<close> (\<^verbatim>\<open>openapi_types.go\<close>,
  \<^verbatim>\<open>openapi_loader.go\<close>), \<open>Openapi_Client\<close> (\<^verbatim>\<open>openapi_resolver.go\<close>, \<^verbatim>\<open>openapi_client.go\<close>), with
  \<open>Openapi_Laws\<close>.

  \<^bold>\<open>API\<close> (\<^verbatim>\<open>api/internal\<close>). \<open>Api_Models\<close> (structs, validation, pages, dates, \<^verbatim>\<open>sort.Slice\<close>),
  \<open>Api_Repositories\<close> (\<^verbatim>\<open>adapters\<close>), \<open>Api_Workflows\<close> and \<open>Api_Executions\<close> (\<^verbatim>\<open>services\<close>),
  \<open>Api_Handlers\<close> (\<^verbatim>\<open>handlers\<close>), with \<open>Api_Laws\<close>; \<open>Api_Accessors\<close> (accessors, JSON forms and
  copies of the models, health, middleware, input schemas, filters no endpoint uses).

  \<^bold>\<open>The services together.\<close> \<open>Composition\<close> follows an event from the service that publishes it to
  the one that reads it. \<open>Deployment\<close> has API, worker, executor, timer service and the streams as
  one step relation: a step is the API publishing a start, one service handling one event it has
  been handed, in any order, or a round of the scheduler. \<open>Deployment_Steps\<close> has what one event leads to,
  \<open>Deployment_Runs\<close> the stages of an execution, \<open>Deployment_Laws\<close> many executions at once.

  \<^bold>\<open>Interfaces.\<close> \<open>event_log\<close> (Event_Log) is provided by the Redis streams; \<open>event_machine\<close>
  (Engine_Laws), a handler that follows an abstract step, by \<open>process_event\<close> over the view
  \<open>progress_of\<close>; \<open>execution_store\<close> (Worker_Database) by the database; \<open>consumer\<close> and
  \<open>crashing_consumer\<close> (Event_Loop), a loop that acknowledges what it handled, by the loops of
  worker, timer service and executor; \<open>task_executor\<close> (Task_Executors) by the executors;
  \<open>group_server\<close> (Subscription), what a reader relies on from a consumer group, by the groups of
  \<open>Stream_Groups\<close>.

  \<^bold>\<open>What is proved.\<close> The state a history is rebuilt to refines an abstract progress (status,
  completed names, pending tasks), completions are recorded once and in order, the rebuilt
  state satisfies an invariant (\<open>Engine_Laws\<close>). The step of the worker refines a decision on
  that progress: tasks are requested in the order of the definition, the completion is
  published only when all are done, other executions do not matter, every message is
  acknowledged (\<open>Worker_Laws\<close>). What is published to a stream is handed to a subscription
  once and in order (\<open>Stream_Groups\<close>); however its goroutines interleave, a loop finishes every
  event once, never handles two events of a workflow at once, and cannot block itself
  (\<open>Event_Processing\<close>). Timers fire when due, earliest first, none is lost
  (\<open>Timer_Laws\<close>), and pass after pass all of them do (\<open>Timer_Schedule\<close>). The error handler implements the decision of retry, recovery and failure,
  with exact delays and limits (\<open>Error_Laws\<close>); the try executor terminates within five
  attempts (\<open>Try_Laws\<close>); a task that is handled is answered by one completion, whose output
  arrives in the variables of the workflow (\<open>Executor_Laws\<close>); the URL of an OpenAPI request is
  the template filled in, a key joins the query, a document that is used is not older than
  the cache allows (\<open>Openapi_Laws\<close>). What the API stores it can read
  back, what it starts the engine runs, pages partition a list (\<open>Api_Laws\<close>). A wait runs
  through worker, timer service and engine to its completion, and what is published is what is
  read (\<open>Composition\<close>). However the services are scheduled, executions that run at once and whose
  tasks succeed cannot get stuck: each ends, with every task done once and one completion of its
  workflow (\<open>Deployment_Laws\<close>). Where the code does not do this (retries, cancellation, workflows of a
  tenant, set tasks, panics, reclaiming, stopping) the theorems say what it does instead.

  \<^bold>\<open>Time, randomness, outside.\<close> The clock, the uuid generator, the random source, regular
  expressions, \<^verbatim>\<open>fmt\<close> of arbitrary values, HTTP answers and Redis faults are arguments of the
  definitions. A clock is read once per handled message or request, except where two readings
  matter (the records \<open>clock\<close> and \<open>worker_env\<close>, the environment of each attempt of a try task).
  Faults are either a predicate on the Redis command or the error of each output.

  \<^bold>\<open>Bounds.\<close> There is no fuel: loops recurse on their data, except \<open>try_loop\<close>, whose attempts
  rise to five, and the drain of the scheduler, which pops at most \<open>tc_batch\<close> timers. A run of an execution
  takes at most three steps per task and two more; \<open>Deployment\<close> takes clocks between 1970 and
  2033 (the scheduler's until 2038) and waits of up to \<open>100000000\<close> seconds. Integers
  are unbounded where they count things in memory; durations, pages and scores, which can
  overflow, wrap in 64 bits (\<open>wrap64\<close>, \<open>to_duration\<close>, \<open>unix_nano\<close>). Texts are bytes, and case
  is folded in ASCII.

  \<^bold>\<open>Goroutines.\<close> An action of \<open>loop_do\<close> is one step of one goroutine, and a list of actions an
  interleaving. Inside a handler nothing interleaves: the worker holds the lock of the
  workflow, and what the handlers of the other services share, the sorted set of timers and the
  cache of documents, each command changes at once. The
  scheduler of the timer service and the reclaimer are single goroutines, modelled by their
  rounds.

  \<^bold>\<open>Not modelled.\<close> Construction and wiring of the services and waiting for signals; logging and
  metrics; opening and closing connections; the Kafka and Postgres back ends, which only
  return that they are not implemented; the JSON forms of cloud events and the serializer of
  the worker, which nothing calls; the pages of the API documentation; generated protobuf
  code.
\<close>

end
